(* ===== verification/Prelude.thy ===== *)
theory Prelude
  imports "HOL-Library.Word"
begin

text \<open>
  Shared vocabulary of the ijjs development: the ways a C handler can go wrong
  (\<open>crash\<close>), the result type every modelled C function returns, its sequencing operator
  \<open>bindE\<close>, loops over argument vectors, the fixed-width conversions the runtime performs,
  and the simplification collections the component theories extend.
\<close>

section \<open>Crashes and results\<close>

text \<open>
  A modelled C function either returns normally (\<open>Inr\<close>) or stops the process:
  \<open>CheckFailed\<close> is a failed CHECK macro (ijAssert, which calls abort), \<open>AbortCalled\<close>
  an explicit abort() or an assertion of libuv, and the others are undefined behaviour of C
  which the model detects: a NULL or dangling pointer, a block released twice or with the
  wrong allocator, a JS reference given back that is not owned, a block released while libuv
  still has the handle inside it, a write past the end of a buffer, a read of uninitialised
  memory, a division by zero, a shift by the width of its operand or more, a signed integer
  that overflows.
\<close>

datatype crash =
    CheckFailed | AbortCalled
  | NullDeref | UseAfterFree | DoubleFree | BadFree | RefUnderflow
  | LiveHandleFreed | BufferOverflow | UninitRead | DivByZero | BadShift | IntOverflow

type_synonym 'a res = "crash + 'a"

definition bindE :: "'a res \<Rightarrow> ('a \<Rightarrow> 'b res) \<Rightarrow> 'b res" where
  "bindE m f = (case m of Inl e \<Rightarrow> Inl e | Inr x \<Rightarrow> f x)"

definition CHECK :: "bool \<Rightarrow> 'w \<Rightarrow> 'w res" where
  "CHECK b w = (if b then Inr w else Inl CheckFailed)"

fun forE :: "('a \<Rightarrow> 'w \<Rightarrow> 'w res) \<Rightarrow> 'a list \<Rightarrow> 'w \<Rightarrow> 'w res" where
  "forE f [] w = Inr w"
| "forE f (x # xs) w = bindE (f x w) (forE f xs)"

named_theorems rt_defs \<open>definitions of the engine and allocator primitives\<close>
named_theorems handler_defs \<open>definitions of the modelled C handlers\<close>

lemma bindE_simps [simp]:
  "bindE (Inl e) f = Inl e"
  "bindE (Inr x) f = f x"
  by (simp_all add: bindE_def)

lemma bindE_Inr_iff:
  "bindE m f = Inr y \<longleftrightarrow> (\<exists>x. m = Inr x \<and> f x = Inr y)"
  by (cases m) auto

lemma bindE_Inl_iff:
  "bindE m f = Inl e \<longleftrightarrow> m = Inl e \<or> (\<exists>x. m = Inr x \<and> f x = Inl e)"
  by (cases m) auto

lemma bindE_assoc: "bindE (bindE m f) g = bindE m (\<lambda>x. bindE (f x) g)"
  by (cases m) auto

lemma bindE_InrE [elim!]:
  assumes "bindE m f = Inr y"
  obtains x where "m = Inr x" and "f x = Inr y"
  using assms by (auto simp: bindE_Inr_iff)

lemma CHECK_simps [simp]:
  "CHECK True w = Inr w"
  "CHECK False w = Inl CheckFailed"
  by (simp_all add: CHECK_def)

lemma CHECK_Inr [simp]: "CHECK b w = Inr v \<longleftrightarrow> b \<and> v = w"
  by (auto simp: CHECK_def)

text \<open>A loop keeps what each round keeps, and stops in a state each round can reach.\<close>

lemma forE_invariant:
  assumes "forE f xs w = Inr w'" and "P w"
    and "\<And>x v v'. x \<in> set xs \<Longrightarrow> P v \<Longrightarrow> f x v = Inr v' \<Longrightarrow> P v'"
  shows "P w'"
  using assms by (induction xs arbitrary: w) auto

lemma forE_append: "forE f (xs @ ys) w = bindE (forE f xs w) (forE f ys)"
  by (induction xs arbitrary: w) (auto simp: bindE_def split: sum.splits)

section \<open>Fixed-width integers\<close>

text \<open>
  \<open>to_s32\<close> is the conversion of a C integer to IJS32 (int32_t, two's complement wrap),
  \<open>to_u32\<close> to IJU32, \<open>to_u64\<close> to IJU64 and size_t.
\<close>

definition to_s32 :: "int \<Rightarrow> int" where
  "to_s32 i = (i + 2 ^ 31) mod 2 ^ 32 - 2 ^ 31"

definition wrap32 :: "int \<Rightarrow> int" where
  "wrap32 i = i mod 2 ^ 32"

definition wrap64 :: "int \<Rightarrow> int" where
  "wrap64 i = i mod 2 ^ 64"

lemma to_s32_range: "- (2 ^ 31) \<le> to_s32 i \<and> to_s32 i < 2 ^ 31"
proof -
  have "0 \<le> (i + 2 ^ 31) mod 2 ^ 32" and "(i + 2 ^ 31) mod 2 ^ 32 < (2 ^ 32 :: int)"
    by simp_all
  then show ?thesis by (simp add: to_s32_def)
qed

lemma to_s32_id: "- (2 ^ 31) \<le> i \<Longrightarrow> i < 2 ^ 31 \<Longrightarrow> to_s32 i = i"
  by (simp add: to_s32_def)

lemma wrap64_id: "0 \<le> i \<Longrightarrow> i < 2 ^ 64 \<Longrightarrow> wrap64 i = i"
  by (simp add: wrap64_def)

section \<open>C strings\<close>

text \<open>
  C strings are lists of characters without the terminating NUL. \<open>strrchr_idx\<close> and
  \<open>strchr_idx\<close> return the index of the last and first occurrence (None for NULL),
  \<open>is_prefix\<close> is strncmp over the whole of its first argument.
\<close>

fun strchr_idx :: "string \<Rightarrow> char \<Rightarrow> nat option" where
  "strchr_idx [] c = None"
| "strchr_idx (x # xs) c = (if x = c then Some 0 else map_option Suc (strchr_idx xs c))"

fun strrchr_idx :: "string \<Rightarrow> char \<Rightarrow> nat option" where
  "strrchr_idx [] c = None"
| "strrchr_idx (x # xs) c =
     (case strrchr_idx xs c of Some i \<Rightarrow> Some (Suc i)
      | None \<Rightarrow> (if x = c then Some 0 else None))"

fun is_prefix :: "string \<Rightarrow> string \<Rightarrow> bool" where
  "is_prefix [] s = True"
| "is_prefix (x # xs) [] = False"
| "is_prefix (x # xs) (y # ys) = (x = y \<and> is_prefix xs ys)"

lemma is_prefix_iff: "is_prefix p s \<longleftrightarrow> (\<exists>t. s = p @ t)"
  by (induction p s rule: is_prefix.induct) auto

lemma strchr_idx_None: "strchr_idx s c = None \<longleftrightarrow> c \<notin> set s"
  by (induction s) auto

lemma strchr_idx_Some:
  "strchr_idx s c = Some i \<Longrightarrow> i < length s \<and> s ! i = c \<and> c \<notin> set (take i s)"
  by (induction s arbitrary: i) (auto split: if_splits)

lemma strrchr_idx_None: "strrchr_idx s c = None \<longleftrightarrow> c \<notin> set s"
  by (induction s) (auto split: option.splits)

lemma strrchr_idx_Some:
  "strrchr_idx s c = Some i \<Longrightarrow> i < length s \<and> s ! i = c \<and> c \<notin> set (drop (Suc i) s)"
  by (induction s arbitrary: i) (auto split: option.splits if_splits simp: strrchr_idx_None)

lemma strrchr_idx_append:
  "c \<notin> set t \<Longrightarrow> strrchr_idx (s @ c # t) c = Some (length s)"
  by (induction s) (auto simp: strrchr_idx_None split: option.splits)

end
