(* ===== verification/Engine.thy ===== *)
theory Engine
  imports Prelude
begin

text \<open>
  The services of QuickJS, libuv and the allocators that the ijjs sources call, at the level
  the sources rely on them: values and owned references, promises and their resolving
  functions, class instances with an opaque C pointer, pending exceptions, the job queue,
  heap blocks with the allocator they came from, and libuv handles embedded in blocks.
  Conversions that can run user code (ToString, ToInt32, property reads, calls of user
  functions) are parameters collected in the record \<open>jsenv\<close>.
\<close>

section \<open>Values\<close>

text \<open>
  \<open>JS_Ref n\<close> is a value with identity (a class instance, promise or function) whose
  references are counted; fresh data objects, arrays, buffers and errors are represented by
  their contents. \<open>JS_Uint8Array buf off len\<close> is a view of \<open>len\<close> bytes at \<open>off\<close>
  of an underlying buffer. \<open>JS_JUNK\<close> is what uninitialised memory holds.
\<close>

datatype jsval =
    JS_UNDEFINED | JS_NULL | JS_EXCEPTION | JS_JUNK
  | JS_Bool bool | JS_Int int | JS_BigUint int | JS_Float64 "64 word"
  | JS_Str string | JS_Ref nat
  | JS_Object "(string \<times> jsval) list" | JS_Array "jsval list"
  | JS_Uint8Array string nat nat | JS_ArrayBuffer string
  | JS_ErrorObj string "(string \<times> jsval) list"

definition JS_NewInt32 :: "int \<Rightarrow> jsval" where
  "JS_NewInt32 i = JS_Int (to_s32 i)"

definition JS_IsUndefined :: "jsval \<Rightarrow> bool" where
  "JS_IsUndefined v = (v = JS_UNDEFINED)"

definition JS_IsException :: "jsval \<Rightarrow> bool" where
  "JS_IsException v = (v = JS_EXCEPTION)"

fun JS_IsString :: "jsval \<Rightarrow> bool" where
  "JS_IsString (JS_Str s) = True"
| "JS_IsString _ = False"

fun JS_IsObject :: "jsval \<Rightarrow> bool" where
  "JS_IsObject v = (case v of JS_Ref _ \<Rightarrow> True | JS_Object _ \<Rightarrow> True | JS_Array _ \<Rightarrow> True
     | JS_Uint8Array _ _ _ \<Rightarrow> True | JS_ArrayBuffer _ \<Rightarrow> True | JS_ErrorObj _ _ \<Rightarrow> True
     | _ \<Rightarrow> False)"

lemmas js_tests [simp] = JS_IsUndefined_def JS_IsException_def

section \<open>The conversions the engine performs for C code\<close>

record jsenv =
  to_cstr :: "jsval \<Rightarrow> string option"
  to_i32 :: "jsval \<Rightarrow> int option"
  to_u32 :: "jsval \<Rightarrow> int option"
  to_i64 :: "jsval \<Rightarrow> int option"
  to_index :: "jsval \<Rightarrow> int option"
  to_bool :: "jsval \<Rightarrow> bool option"
  getprop :: "jsval \<Rightarrow> string \<Rightarrow> jsval"
  user_call :: "jsval \<Rightarrow> jsval list \<Rightarrow> jsval + jsval"
  uv_strerror :: "int \<Rightarrow> string"
  junk :: bool

text \<open>
  What QuickJS documents about the conversions: JS\_ToInt32 yields an int32\_t, JS\_ToUint32
  a uint32\_t, JS\_ToInt64 an int64\_t, and JS\_ToIndex accepts only 0 to MAX\_SAFE\_INTEGER.
  A user function throws (\<open>Inl\<close>) or returns a proper value (\<open>Inr\<close>).
\<close>

definition jsenv_ok :: "jsenv \<Rightarrow> bool" where
  "jsenv_ok E \<longleftrightarrow>
     (\<forall>v i. to_i32 E v = Some i \<longrightarrow> - (2 ^ 31) \<le> i \<and> i < 2 ^ 31) \<and>
     (\<forall>v i. to_u32 E v = Some i \<longrightarrow> 0 \<le> i \<and> i < 2 ^ 32) \<and>
     (\<forall>v i. to_i64 E v = Some i \<longrightarrow> - (2 ^ 63) \<le> i \<and> i < 2 ^ 63) \<and>
     (\<forall>v i. to_index E v = Some i \<longrightarrow> 0 \<le> i \<and> i \<le> 2 ^ 53 - 1) \<and>
     (\<forall>f vs r. user_call E f vs = Inr r \<longrightarrow> r \<noteq> JS_JUNK \<and> r \<noteq> JS_EXCEPTION) \<and>
     (\<forall>f vs e. user_call E f vs = Inl e \<longrightarrow> e \<noteq> JS_JUNK) \<and>
     (\<forall>v k. getprop E v k \<noteq> JS_JUNK)"

text \<open>A concrete environment, in which only primitive values convert.\<close>

fun plain_cstr :: "jsval \<Rightarrow> string option" where
  "plain_cstr (JS_Str s) = Some s"
| "plain_cstr JS_UNDEFINED = Some ''undefined''"
| "plain_cstr _ = None"

fun plain_int :: "int \<Rightarrow> int \<Rightarrow> jsval \<Rightarrow> int option" where
  "plain_int lo hi (JS_Int i) = (if lo \<le> i \<and> i < hi then Some i else None)"
| "plain_int lo hi _ = None"

fun plain_prop :: "jsval \<Rightarrow> string \<Rightarrow> jsval" where
  "plain_prop (JS_Object ps) k = (case map_of ps k of
     Some v \<Rightarrow> if v = JS_JUNK then JS_UNDEFINED else v | None \<Rightarrow> JS_UNDEFINED)"
| "plain_prop _ k = JS_UNDEFINED"

definition plain_env :: jsenv where
  "plain_env = \<lparr>to_cstr = plain_cstr,
     to_i32 = plain_int (- (2 ^ 31)) (2 ^ 31), to_u32 = plain_int 0 (2 ^ 32),
     to_i64 = plain_int (- (2 ^ 63)) (2 ^ 63), to_index = plain_int 0 (2 ^ 53),
     to_bool = (\<lambda>v. case v of JS_Bool b \<Rightarrow> Some b | _ \<Rightarrow> None),
     getprop = plain_prop, user_call = (\<lambda>f vs. Inr JS_UNDEFINED),
     uv_strerror = (\<lambda>e. ''error''), junk = False\<rparr>"

lemma plain_int_range: "plain_int lo hi v = Some i \<Longrightarrow> lo \<le> i \<and> i < hi"
  by (cases v) (auto split: if_splits)

lemma plain_prop_no_junk: "plain_prop v k \<noteq> JS_JUNK"
  by (cases "(v, k)" rule: plain_prop.cases) (auto split: option.splits)

lemma plain_env_ok: "jsenv_ok plain_env"
proof -
  have "plain_int 0 (2 ^ 53) v = Some i \<Longrightarrow> 0 \<le> i \<and> i \<le> 2 ^ 53 - 1" for v i
    using plain_int_range [of 0 "2 ^ 53" v i] by simp
  then show ?thesis
    unfolding jsenv_ok_def plain_env_def by (auto dest: plain_int_range simp: plain_prop_no_junk)
qed

section \<open>The state of one runtime\<close>

datatype promise_state = Pending | Fulfilled jsval | Rejected jsval

datatype jsfun = NotFun | UserFun | ResolveFun nat | RejectFun nat

datatype bkind = NoBlock | JeBlock | JsBlock | CString | EngineOwned

datatype hstate = HNone | HOpen | HClosing | HClosed

text \<open>
  \<open>refs\<close> counts, for each value with identity, the references handed to C code or to the
  JS caller and not yet given back. \<open>blk\<close> says which allocator a live block came from,
  \<open>hnd p k\<close> is the state of the \<open>k\<close>-th libuv handle inside block \<open>p\<close>. Every
  allocation consumes a \<open>tick\<close>, which names the new block or object and asks the oracle
  \<open>oom\<close> whether it fails; block addresses are successors, so 0 is NULL. \<open>opaque\<close> gives
  the class and the C pointer of an instance. \<open>calls\<close> records calls of user functions and
  \<open>stderr\<close> what ijDumpError prints.
\<close>

record rt =
  refs :: "nat \<Rightarrow> nat"
  proms :: "nat \<Rightarrow> promise_state"
  funs :: "nat \<Rightarrow> jsfun"
  opaque :: "nat \<Rightarrow> nat \<times> nat"
  tick :: nat
  oom :: "nat \<Rightarrow> bool"
  blk :: "nat \<Rightarrow> bkind"
  hnd :: "nat \<Rightarrow> nat \<Rightarrow> hstate"
  exn :: "jsval option"
  calls :: "(jsval \<times> jsval list) list"
  jobs :: "(nat \<times> jsval list) list"
  stderr :: "string list"

definition rt0 :: rt where
  "rt0 = \<lparr>refs = (\<lambda>_. 0), proms = (\<lambda>_. Pending), funs = (\<lambda>_. NotFun), opaque = (\<lambda>_. (0, 0)),
     tick = 0, oom = (\<lambda>_. False), blk = (\<lambda>_. NoBlock), hnd = (\<lambda>_ _. HNone),
     exn = None, calls = [], jobs = [], stderr = []\<rparr>"

section \<open>Exceptions\<close>

definition JS_Throw :: "jsval \<Rightarrow> 'z rt_scheme \<Rightarrow> jsval \<times> 'z rt_scheme" where
  "JS_Throw v w = (JS_EXCEPTION, w\<lparr>exn := Some v\<rparr>)"

definition throwError :: "string \<Rightarrow> string \<Rightarrow> 'z rt_scheme \<Rightarrow> jsval \<times> 'z rt_scheme" where
  "throwError name msg w = JS_Throw (JS_ErrorObj name [(''message'', JS_Str msg)]) w"

definition JS_ThrowTypeError :: "string \<Rightarrow> 'z rt_scheme \<Rightarrow> jsval \<times> 'z rt_scheme" where
  "JS_ThrowTypeError = throwError ''TypeError''"

definition JS_ThrowInternalError :: "string \<Rightarrow> 'z rt_scheme \<Rightarrow> jsval \<times> 'z rt_scheme" where
  "JS_ThrowInternalError = throwError ''InternalError''"

definition JS_ThrowRangeError :: "string \<Rightarrow> 'z rt_scheme \<Rightarrow> jsval \<times> 'z rt_scheme" where
  "JS_ThrowRangeError = throwError ''RangeError''"

definition JS_ThrowReferenceError :: "string \<Rightarrow> 'z rt_scheme \<Rightarrow> jsval \<times> 'z rt_scheme" where
  "JS_ThrowReferenceError = throwError ''ReferenceError''"

definition JS_ThrowOutOfMemory :: "'z rt_scheme \<Rightarrow> jsval \<times> 'z rt_scheme" where
  "JS_ThrowOutOfMemory = throwError ''InternalError'' ''out of memory''"

lemmas throw_defs [rt_defs] = JS_Throw_def throwError_def JS_ThrowTypeError_def
  JS_ThrowInternalError_def JS_ThrowRangeError_def JS_ThrowReferenceError_def
  JS_ThrowOutOfMemory_def

section \<open>Reference counts\<close>

fun JS_DupValue :: "jsval \<Rightarrow> 'z rt_scheme \<Rightarrow> 'z rt_scheme" where
  "JS_DupValue (JS_Ref n) w = w\<lparr>refs := (refs w)(n := Suc (refs w n))\<rparr>"
| "JS_DupValue _ w = w"

fun JS_FreeValue :: "jsval \<Rightarrow> 'z rt_scheme \<Rightarrow> 'z rt_scheme res" where
  "JS_FreeValue (JS_Ref n) w =
     (if refs w n = 0 then Inl RefUnderflow
      else Inr (w\<lparr>refs := (refs w)(n := refs w n - 1)\<rparr>))"
| "JS_FreeValue JS_JUNK w = Inl UninitRead"
| "JS_FreeValue _ w = Inr w"

text \<open>Taking the pending exception hands its reference to the caller.\<close>

definition JS_GetException :: "'z rt_scheme \<Rightarrow> jsval \<times> 'z rt_scheme" where
  "JS_GetException w = (case exn w of None \<Rightarrow> (JS_NULL, w) | Some v \<Rightarrow> (v, JS_DupValue v (w\<lparr>exn := None\<rparr>)))"

declare JS_GetException_def [rt_defs]

text \<open>JS\_FreeValueRT is the same operation reached from a finalizer.\<close>

abbreviation JS_FreeValueRT :: "jsval \<Rightarrow> 'z rt_scheme \<Rightarrow> 'z rt_scheme res" where
  "JS_FreeValueRT \<equiv> JS_FreeValue"

section \<open>Blocks\<close>

definition je_calloc :: "'z rt_scheme \<Rightarrow> nat \<times> 'z rt_scheme" where
  "je_calloc w =
     (if oom w (tick w) then (0, w\<lparr>tick := Suc (tick w)\<rparr>)
      else (Suc (tick w), w\<lparr>tick := Suc (tick w), blk := (blk w)(Suc (tick w) := JeBlock),
                            hnd := (hnd w)(Suc (tick w) := (\<lambda>_. HNone))\<rparr>))"

definition js_malloc :: "'z rt_scheme \<Rightarrow> nat \<times> 'z rt_scheme" where
  "js_malloc w =
     (if oom w (tick w) then (0, snd (JS_ThrowOutOfMemory (w\<lparr>tick := Suc (tick w)\<rparr>)))
      else (Suc (tick w), w\<lparr>tick := Suc (tick w), blk := (blk w)(Suc (tick w) := JsBlock),
                            hnd := (hnd w)(Suc (tick w) := (\<lambda>_. HNone))\<rparr>))"

definition handles_quiet :: "nat \<Rightarrow> 'z rt_scheme \<Rightarrow> bool" where
  "handles_quiet p w =
     list_all (\<lambda>k. hnd w p k = HNone \<or> hnd w p k = HClosed) [0, 1]"

definition free_block :: "bkind \<Rightarrow> nat \<Rightarrow> 'z rt_scheme \<Rightarrow> 'z rt_scheme res" where
  "free_block kind p w =
     (if p = 0 then Inr w
      else if blk w p = NoBlock then Inl DoubleFree
      else if blk w p \<noteq> kind then Inl BadFree
      else if \<not> handles_quiet p w then Inl LiveHandleFreed
      else Inr (w\<lparr>blk := (blk w)(p := NoBlock)\<rparr>))"

definition je_free :: "nat \<Rightarrow> 'z rt_scheme \<Rightarrow> 'z rt_scheme res" where
  "je_free = free_block JeBlock"

definition js_free :: "nat \<Rightarrow> 'z rt_scheme \<Rightarrow> 'z rt_scheme res" where
  "js_free = free_block JsBlock"

text \<open>Reading or writing through a pointer needs a live block.\<close>

definition deref :: "nat \<Rightarrow> 'z rt_scheme \<Rightarrow> 'z rt_scheme res" where
  "deref p w = (if p = 0 then Inl NullDeref
                else if blk w p = NoBlock then Inl UseAfterFree else Inr w)"

lemmas block_defs [rt_defs] = je_calloc_def js_malloc_def handles_quiet_def free_block_def
  je_free_def js_free_def deref_def

section \<open>C strings borrowed from JS values\<close>

text \<open>
  JS\_ToCString hands out a buffer that must be given back with JS\_FreeCString, through the
  very pointer that was handed out: a pointer is a block and an offset into it.
\<close>

definition JS_ToCString :: "jsenv \<Rightarrow> jsval \<Rightarrow> 'z rt_scheme \<Rightarrow> nat \<times> string \<times> 'z rt_scheme" where
  "JS_ToCString E v w = (case to_cstr E v of
     None \<Rightarrow> (0, [], snd (JS_ThrowTypeError ''cannot convert to string'' w))
   | Some s \<Rightarrow> (Suc (tick w), s,
        w\<lparr>tick := Suc (tick w), blk := (blk w)(Suc (tick w) := CString),
          hnd := (hnd w)(Suc (tick w) := (\<lambda>_. HNone))\<rparr>))"

definition JS_FreeCString :: "nat \<times> nat \<Rightarrow> 'z rt_scheme \<Rightarrow> 'z rt_scheme res" where
  "JS_FreeCString ptr w = (if snd ptr \<noteq> 0 then Inl BadFree else free_block CString (fst ptr) w)"

definition JS_ToInt32 :: "jsenv \<Rightarrow> jsval \<Rightarrow> 'z rt_scheme \<Rightarrow> int option \<times> 'z rt_scheme" where
  "JS_ToInt32 E v w = (case to_i32 E v of
     None \<Rightarrow> (None, snd (JS_ThrowTypeError ''cannot convert to number'' w))
   | Some i \<Rightarrow> (Some i, w))"

definition JS_ToUint32 :: "jsenv \<Rightarrow> jsval \<Rightarrow> 'z rt_scheme \<Rightarrow> int option \<times> 'z rt_scheme" where
  "JS_ToUint32 E v w = (case to_u32 E v of
     None \<Rightarrow> (None, snd (JS_ThrowTypeError ''cannot convert to number'' w))
   | Some i \<Rightarrow> (Some i, w))"

definition JS_ToInt64 :: "jsenv \<Rightarrow> jsval \<Rightarrow> 'z rt_scheme \<Rightarrow> int option \<times> 'z rt_scheme" where
  "JS_ToInt64 E v w = (case to_i64 E v of
     None \<Rightarrow> (None, snd (JS_ThrowTypeError ''cannot convert to number'' w))
   | Some i \<Rightarrow> (Some i, w))"

definition JS_ToIndex :: "jsenv \<Rightarrow> jsval \<Rightarrow> 'z rt_scheme \<Rightarrow> int option \<times> 'z rt_scheme" where
  "JS_ToIndex E v w = (case to_index E v of
     None \<Rightarrow> (None, snd (JS_ThrowRangeError ''invalid array index'' w))
   | Some i \<Rightarrow> (Some i, w))"

lemmas conv_defs [rt_defs] = JS_ToCString_def JS_FreeCString_def JS_ToInt32_def
  JS_ToUint32_def JS_ToInt64_def JS_ToIndex_def

section \<open>Class instances, promises and calls\<close>

definition JS_NewObjectClass :: "nat \<Rightarrow> 'z rt_scheme \<Rightarrow> jsval \<times> 'z rt_scheme" where
  "JS_NewObjectClass cid w =
     (if oom w (tick w) then JS_ThrowOutOfMemory (w\<lparr>tick := Suc (tick w)\<rparr>)
      else (JS_Ref (tick w), w\<lparr>tick := Suc (tick w), refs := (refs w)(tick w := 1),
              funs := (funs w)(tick w := NotFun), opaque := (opaque w)(tick w := (cid, 0))\<rparr>))"

fun JS_SetOpaque :: "jsval \<Rightarrow> nat \<Rightarrow> 'z rt_scheme \<Rightarrow> 'z rt_scheme" where
  "JS_SetOpaque (JS_Ref n) p w = w\<lparr>opaque := (opaque w)(n := (fst (opaque w n), p))\<rparr>"
| "JS_SetOpaque _ p w = w"

fun JS_GetOpaque :: "jsval \<Rightarrow> nat \<Rightarrow> 'z rt_scheme \<Rightarrow> nat" where
  "JS_GetOpaque (JS_Ref n) cid w = (if fst (opaque w n) = cid then snd (opaque w n) else 0)"
| "JS_GetOpaque _ cid w = 0"

definition JS_GetOpaque2 :: "jsval \<Rightarrow> nat \<Rightarrow> 'z rt_scheme \<Rightarrow> nat \<times> 'z rt_scheme" where
  "JS_GetOpaque2 v cid w =
     (let p = JS_GetOpaque v cid w
      in if p = 0 then (0, snd (JS_ThrowTypeError ''invalid class'' w)) else (p, w))"

fun JS_IsFunction :: "jsval \<Rightarrow> 'z rt_scheme \<Rightarrow> bool" where
  "JS_IsFunction (JS_Ref n) w = (funs w n \<noteq> NotFun)"
| "JS_IsFunction _ w = False"

definition JS_NewPromiseCapability ::
    "'z rt_scheme \<Rightarrow> jsval \<times> jsval \<times> jsval \<times> 'z rt_scheme" where
  "JS_NewPromiseCapability w =
     (let n = tick w in
      if oom w n
      then (JS_EXCEPTION, JS_JUNK, JS_JUNK, snd (JS_ThrowOutOfMemory (w\<lparr>tick := Suc n\<rparr>)))
      else (JS_Ref n, JS_Ref (n + 1), JS_Ref (n + 2),
            w\<lparr>tick := n + 3,
              refs := (refs w)(n := 1, n + 1 := 1, n + 2 := 1),
              proms := (proms w)(n := Pending),
              funs := (funs w)(n := NotFun, n + 1 := ResolveFun n, n + 2 := RejectFun n),
              opaque := (opaque w)(n := (0, 0))\<rparr>))"

text \<open>A property read hands out a new reference, or leaves an exception pending.\<close>

definition JS_GetPropertyStr ::
    "jsenv \<Rightarrow> jsval \<Rightarrow> string \<Rightarrow> 'z rt_scheme \<Rightarrow> jsval \<times> 'z rt_scheme" where
  "JS_GetPropertyStr E obj k w =
     (let v = getprop E obj k
      in if JS_IsException v then JS_ThrowTypeError ''property read failed'' w
         else (v, JS_DupValue v w))"

definition arg0 :: "jsval list \<Rightarrow> jsval" where
  "arg0 vs = (case vs of [] \<Rightarrow> JS_UNDEFINED | v # _ \<Rightarrow> v)"

definition argn :: "nat \<Rightarrow> jsval list \<Rightarrow> jsval" where
  "argn i vs = (if i < length vs then vs ! i else JS_UNDEFINED)"

text \<open>
  QuickJS pads the arguments of a C function with undefined up to the count the function is
  declared with, and no further: \<open>argn\<close> is the access of an argument below that count,
  \<open>readable_arg\<close> an access that may be above it.
\<close>

definition readable_arg :: "nat \<Rightarrow> nat \<Rightarrow> jsval list \<Rightarrow> jsval res" where
  "readable_arg declared i argv =
     (if i < max declared (length argv) then Inr (argn i argv) else Inl UninitRead)"

text \<open>
  A resolving function settles its promise if it is still pending and does nothing
  otherwise; a user function is recorded and answers with what the environment says.
\<close>

definition settle :: "nat \<Rightarrow> promise_state \<Rightarrow> 'z rt_scheme \<Rightarrow> 'z rt_scheme" where
  "settle n st w = (if proms w n = Pending then w\<lparr>proms := (proms w)(n := st)\<rparr> else w)"

fun JS_Call :: "jsenv \<Rightarrow> jsval \<Rightarrow> jsval list \<Rightarrow> 'z rt_scheme \<Rightarrow> (jsval \<times> 'z rt_scheme) res" where
  "JS_Call E (JS_Ref f) vs w = (case funs w f of
     ResolveFun n \<Rightarrow> Inr (JS_UNDEFINED, settle n (Fulfilled (arg0 vs)) w)
   | RejectFun n \<Rightarrow> Inr (JS_UNDEFINED, settle n (Rejected (arg0 vs)) w)
   | UserFun \<Rightarrow>
       (let w = w\<lparr>calls := calls w @ [(JS_Ref f, vs)]\<rparr>
        in case user_call E (JS_Ref f) vs of
             Inl e \<Rightarrow> Inr (JS_Throw e w)
           | Inr r \<Rightarrow> Inr (r, JS_DupValue r w))
   | NotFun \<Rightarrow> Inr (JS_ThrowTypeError ''not a function'' w))"
| "JS_Call E JS_JUNK vs w = Inl UninitRead"
| "JS_Call E v vs w = Inr (JS_ThrowTypeError ''not a function'' w)"

definition JS_EnqueueJob :: "nat \<Rightarrow> jsval list \<Rightarrow> 'z rt_scheme \<Rightarrow> int \<times> 'z rt_scheme" where
  "JS_EnqueueJob job vs w =
     (if oom w (tick w) then (-1, snd (JS_ThrowOutOfMemory (w\<lparr>tick := Suc (tick w)\<rparr>)))
      else (0, (fold JS_DupValue vs w)\<lparr>tick := Suc (tick w), jobs := jobs w @ [(job, vs)]\<rparr>))"

lemmas object_defs [rt_defs] = JS_NewObjectClass_def JS_GetOpaque2_def
  JS_NewPromiseCapability_def JS_GetPropertyStr_def arg0_def argn_def readable_arg_def settle_def JS_EnqueueJob_def

section \<open>libuv handles\<close>

definition uv_handle_init :: "nat \<Rightarrow> nat \<Rightarrow> 'z rt_scheme \<Rightarrow> 'z rt_scheme" where
  "uv_handle_init p k w = w\<lparr>hnd := (hnd w)(p := (hnd w p)(k := HOpen))\<rparr>"

definition uv_is_closing :: "nat \<Rightarrow> nat \<Rightarrow> 'z rt_scheme \<Rightarrow> bool" where
  "uv_is_closing p k w = (hnd w p k = HClosing \<or> hnd w p k = HClosed)"

definition uv_close :: "nat \<Rightarrow> nat \<Rightarrow> 'z rt_scheme \<Rightarrow> 'z rt_scheme res" where
  "uv_close p k w = (case hnd w p k of
     HOpen \<Rightarrow> Inr (w\<lparr>hnd := (hnd w)(p := (hnd w p)(k := HClosing))\<rparr>)
   | HNone \<Rightarrow> Inl UninitRead
   | _ \<Rightarrow> Inl AbortCalled)"

text \<open>
  The closing phase of the event loop: the handle is taken off the loop, then its close
  callback runs. A close request is served once.
\<close>

definition uv_finish_close :: "nat \<Rightarrow> nat \<Rightarrow> 'z rt_scheme \<Rightarrow> 'z rt_scheme" where
  "uv_finish_close p k w = w\<lparr>hnd := (hnd w)(p := (hnd w p)(k := HClosed))\<rparr>"

lemmas handle_defs [rt_defs] = uv_handle_init_def uv_is_closing_def uv_close_def
  uv_finish_close_def

section \<open>Facts the component proofs share\<close>

lemma JS_DupValue_frame [simp]:
  "proms (JS_DupValue v w) = proms w" "funs (JS_DupValue v w) = funs w"
  "opaque (JS_DupValue v w) = opaque w" "blk (JS_DupValue v w) = blk w"
  "hnd (JS_DupValue v w) = hnd w" "tick (JS_DupValue v w) = tick w"
  "oom (JS_DupValue v w) = oom w" "exn (JS_DupValue v w) = exn w"
  "calls (JS_DupValue v w) = calls w" "jobs (JS_DupValue v w) = jobs w"
  "rt.more (JS_DupValue v w) = rt.more w"
  by (cases v; simp)+

lemma JS_FreeValue_frame:
  assumes "JS_FreeValue v w = Inr w'"
  shows "proms w' = proms w" "funs w' = funs w" "opaque w' = opaque w" "blk w' = blk w"
    "hnd w' = hnd w" "tick w' = tick w" "oom w' = oom w" "exn w' = exn w"
    "calls w' = calls w" "jobs w' = jobs w" "rt.more w' = rt.more w"
  using assms by (cases v; auto split: if_splits)+

lemma JS_FreeValue_upd:
  assumes "JS_FreeValue v w = Inr w'"
  shows "w' = w\<lparr>refs := refs w'\<rparr>"
  using assms by (cases v) (auto split: if_splits)

text \<open>Both operations only move the reference count of their value.\<close>

definition inc_ref :: "jsval \<Rightarrow> (nat \<Rightarrow> nat) \<Rightarrow> nat \<Rightarrow> nat" where
  "inc_ref v rf n = (if v = JS_Ref n then Suc (rf n) else rf n)"

definition dec_ref :: "jsval \<Rightarrow> (nat \<Rightarrow> nat) \<Rightarrow> nat \<Rightarrow> nat" where
  "dec_ref v rf n = (if v = JS_Ref n then rf n - 1 else rf n)"

lemma JS_DupValue_eq: "JS_DupValue v w = w\<lparr>refs := inc_ref v (refs w)\<rparr>"
  by (cases v) (auto simp: inc_ref_def fun_eq_iff intro!: rt.equality)

lemma dec_inc_ref [simp]: "dec_ref v (inc_ref v rf) = rf"
  by (simp add: fun_eq_iff dec_ref_def inc_ref_def)

lemma dec_inc_swap [simp]: "dec_ref v (inc_ref u (inc_ref v rf)) = inc_ref u rf"
  by (auto simp: fun_eq_iff dec_ref_def inc_ref_def)

lemma free_dup: "v \<noteq> JS_JUNK \<Longrightarrow> JS_FreeValue v (JS_DupValue v w) = Inr w"
  by (cases v) auto

text \<open>Releasing a reference that is owned never fails.\<close>

definition owned :: "jsval \<Rightarrow> nat \<Rightarrow> 'z rt_scheme \<Rightarrow> bool" where
  "owned v k w = (case v of JS_Ref n \<Rightarrow> k \<le> refs w n | JS_JUNK \<Rightarrow> False | _ \<Rightarrow> True)"

lemma owned_simps [simp]:
  "owned (JS_Ref n) k w \<longleftrightarrow> k \<le> refs w n" "\<not> owned JS_JUNK k w"
  "owned JS_UNDEFINED k w" "owned JS_NULL k w" "owned JS_EXCEPTION k w" "owned (JS_Int i) k w"
  "owned (JS_Bool b) k w" "owned (JS_Str s) k w" "owned (JS_ErrorObj m ps) k w"
  by (auto simp: owned_def)

lemma JS_FreeValue_eq:
  "owned v 1 w \<Longrightarrow> JS_FreeValue v w = Inr (w\<lparr>refs := dec_ref v (refs w)\<rparr>)"
  by (cases v) (auto simp: owned_def dec_ref_def fun_eq_iff intro!: rt.equality)

lemma owned_inc: "v \<noteq> JS_JUNK \<Longrightarrow> owned v 1 (w\<lparr>refs := inc_ref v rf\<rparr>)"
  by (cases v) (auto simp: owned_def inc_ref_def)

lemma JS_FreeValue_owned: "owned v 1 w \<Longrightarrow> \<exists>w'. JS_FreeValue v w = Inr w'"
  by (cases v) (auto simp: owned_def)

text \<open>A list of values with one owned reference per occurrence.\<close>

definition owns :: "jsval list \<Rightarrow> 'z rt_scheme \<Rightarrow> bool" where
  "owns vs w \<longleftrightarrow> JS_JUNK \<notin> set vs \<and> (\<forall>n. count_list vs (JS_Ref n) \<le> refs w n)"

lemma owns_Nil [simp]: "owns [] w"
  by (simp add: owns_def)

lemma owns_Cons:
  assumes "owns (v # vs) w"
  shows "owned v 1 w"
proof (cases v)
  case (JS_Ref n)
  have "count_list (v # vs) (JS_Ref n) \<le> refs w n"
    using assms by (simp only: owns_def)
  then show ?thesis by (simp add: JS_Ref owned_def)
qed (use assms in \<open>auto simp: owns_def owned_def\<close>)

lemma owns_tail:
  assumes "owns (v # vs) w"
  shows "owns vs (w\<lparr>refs := dec_ref v (refs w)\<rparr>)"
proof -
  have "count_list vs (JS_Ref n) \<le> dec_ref v (refs w) n" for n
  proof -
    have "count_list (v # vs) (JS_Ref n) \<le> refs w n"
      using assms by (simp only: owns_def)
    then show ?thesis by (auto simp: dec_ref_def split: if_splits)
  qed
  then show ?thesis using assms by (simp add: owns_def)
qed

lemma forE_free:
  "owns vs w \<Longrightarrow> forE JS_FreeValue vs w =
     Inr (w\<lparr>refs := (\<lambda>n. refs w n - count_list vs (JS_Ref n))\<rparr>)"
proof (induction vs arbitrary: w)
  case (Cons v vs)
  have "(\<lambda>n. dec_ref v (refs w) n - count_list vs (JS_Ref n)) =
      (\<lambda>n. refs w n - count_list (v # vs) (JS_Ref n))"
    by (rule ext) (simp add: dec_ref_def)
  then show ?case
    using Cons.IH [OF owns_tail [OF Cons.prems]]
    by (simp add: JS_FreeValue_eq [OF owns_Cons [OF Cons.prems]])
qed simp

lemma count_list_append: "count_list (xs @ ys) a = count_list xs a + count_list ys a"
  by (induction xs) auto

lemma owns_append:
  assumes "owns (xs @ ys) w"
  shows "owns xs w" "owns ys (w\<lparr>refs := (\<lambda>n. refs w n - count_list xs (JS_Ref n))\<rparr>)"
proof -
  have "count_list xs (JS_Ref n) + count_list ys (JS_Ref n) \<le> refs w n" for n
    using assms by (simp add: owns_def count_list_append)
  from le_trans [OF le_add1 this] add_leD2 [OF this] this
  have "count_list xs (JS_Ref n) \<le> refs w n"
    "count_list ys (JS_Ref n) \<le> refs w n - count_list xs (JS_Ref n)" for n
    by (auto intro: Nat.le_diff_conv2 [THEN iffD2] simp: add.commute le_diff_conv2)
  then show "owns xs w" "owns ys (w\<lparr>refs := (\<lambda>n. refs w n - count_list xs (JS_Ref n))\<rparr>)"
    using assms by (simp_all add: owns_def)
qed

lemma owns_cong: "refs w' = refs w \<Longrightarrow> owns vs w' = owns vs w"
  by (simp add: owns_def)

lemma owned_cong: "refs w' = refs w \<Longrightarrow> owned v k w' = owned v k w"
  by (cases v) (simp_all add: owned_def)

lemma fold_dup:
  "fold JS_DupValue vs w = w\<lparr>refs := (\<lambda>n. refs w n + count_list vs (JS_Ref n))\<rparr>"
proof (induction vs arbitrary: w)
  case (Cons v vs)
  have "(\<lambda>n. inc_ref v (refs w) n + count_list vs (JS_Ref n)) =
      (\<lambda>n. refs w n + count_list (v # vs) (JS_Ref n))"
    by (rule ext) (simp add: inc_ref_def)
  then show ?case using Cons.IH [of "JS_DupValue v w"] by (simp add: JS_DupValue_eq [of v w])
qed simp

text \<open>
  Steps that the components cannot observe: they print, or borrow and give back a C string.
  Blocks above the clock are free.
\<close>

definition fresh_blk :: "'z rt_scheme \<Rightarrow> bool" where
  "fresh_blk w \<longleftrightarrow> (\<forall>p. tick w < p \<longrightarrow> blk w p = NoBlock)"

definition unobs :: "'z rt_scheme \<Rightarrow> 'z rt_scheme \<Rightarrow> bool" where
  "unobs w w' \<longleftrightarrow> refs w' = refs w \<and> proms w' = proms w \<and> funs w' = funs w \<and>
     opaque w' = opaque w \<and> oom w' = oom w \<and> blk w' = blk w \<and> calls w' = calls w \<and>
     jobs w' = jobs w \<and> rt.more w' = rt.more w \<and> tick w \<le> tick w' \<and>
     (\<forall>p\<le>tick w. hnd w' p = hnd w p)"

lemma unobs_refl [simp]: "unobs w w"
  by (simp add: unobs_def)

lemma unobs_trans: "unobs w1 w2 \<Longrightarrow> unobs w2 w3 \<Longrightarrow> unobs w1 w3"
  by (auto simp: unobs_def)

lemma unobs_fresh: "unobs w w' \<Longrightarrow> fresh_blk w \<Longrightarrow> fresh_blk w'"
  by (auto simp: unobs_def fresh_blk_def)

end
