(* ===== verification/Utils.thy ===== *)
theory Utils
  imports Engine
begin

text \<open>
  The helpers every module of the runtime uses: error objects (ijerror.c), printing of
  uncaught errors, calls into user handlers, the promise bookkeeping IJJSPromise and its
  operations, byte arrays that take over a C buffer, and the conversion between address
  objects and socket addresses (ijutils.c).
\<close>

section \<open>ijerror.c\<close>

definition JS_NewError :: "'z rt_scheme \<Rightarrow> jsval \<times> 'z rt_scheme" where
  "JS_NewError w =
     (if oom w (tick w) then JS_ThrowOutOfMemory (w\<lparr>tick := Suc (tick w)\<rparr>)
      else (JS_ErrorObj ''Error'' [], w\<lparr>tick := Suc (tick w)\<rparr>))"

text \<open>Defining a property on a value that is not an object has no effect.\<close>

fun JS_DefineProp :: "jsval \<Rightarrow> string \<Rightarrow> jsval \<Rightarrow> jsval" where
  "JS_DefineProp (JS_ErrorObj nm ps) k v = JS_ErrorObj nm (ps @ [(k, v)])"
| "JS_DefineProp (JS_Object ps) k v = JS_Object (ps @ [(k, v)])"
| "JS_DefineProp x k v = x"

definition ijNewError :: "jsenv \<Rightarrow> int \<Rightarrow> 'z rt_scheme \<Rightarrow> jsval \<times> 'z rt_scheme" where
  "ijNewError E err w =
     (let (obj, w) = JS_NewError w;
          obj = JS_DefineProp obj ''message'' (JS_Str (uv_strerror E err));
          obj = JS_DefineProp obj ''errno'' (JS_NewInt32 err)
      in (obj, w))"

definition ijErrorConstructor ::
    "jsenv \<Rightarrow> jsval list \<Rightarrow> 'z rt_scheme \<Rightarrow> jsval \<times> 'z rt_scheme" where
  "ijErrorConstructor E argv w = (case JS_ToInt32 E (argn 0 argv) w of
     (None, w) \<Rightarrow> (JS_EXCEPTION, w)
   | (Some err, w) \<Rightarrow> ijNewError E err w)"

definition ijErrorStrError ::
    "jsenv \<Rightarrow> jsval list \<Rightarrow> 'z rt_scheme \<Rightarrow> jsval \<times> 'z rt_scheme" where
  "ijErrorStrError E argv w = (case JS_ToInt32 E (argn 0 argv) w of
     (None, w) \<Rightarrow> (JS_EXCEPTION, w)
   | (Some err, w) \<Rightarrow> (JS_Str (uv_strerror E err), w))"

definition ijThrowErrno :: "jsenv \<Rightarrow> int \<Rightarrow> 'z rt_scheme \<Rightarrow> jsval \<times> 'z rt_scheme" where
  "ijThrowErrno E err w =
     (let (obj, w) = ijNewError E err w;
          obj = (if JS_IsException obj then JS_NULL else obj)
      in JS_Throw obj w)"

lemmas error_defs [handler_defs] = JS_NewError_def ijNewError_def ijErrorConstructor_def
  ijErrorStrError_def ijThrowErrno_def

section \<open>Printing errors and calling handlers\<close>

definition ijDumpObj :: "jsenv \<Rightarrow> jsval \<Rightarrow> 'z rt_scheme \<Rightarrow> 'z rt_scheme res" where
  "ijDumpObj E val w = (case JS_ToCString E val w of
     (p, str, w) \<Rightarrow>
       if p \<noteq> 0 then JS_FreeCString (p, 0) (w\<lparr>stderr := stderr w @ [str]\<rparr>)
       else Inr (w\<lparr>stderr := stderr w @ [''[exception]'']\<rparr>))"

fun JS_IsError :: "jsval \<Rightarrow> bool" where
  "JS_IsError (JS_ErrorObj nm ps) = True"
| "JS_IsError _ = False"

definition ijDumpError1 :: "jsenv \<Rightarrow> jsval \<Rightarrow> 'z rt_scheme \<Rightarrow> 'z rt_scheme res" where
  "ijDumpError1 E exception_val w =
     bindE (ijDumpObj E exception_val w) (\<lambda>w.
     if JS_IsError exception_val
     then (let (val, w) = JS_GetPropertyStr E exception_val ''stack'' w
           in bindE (if \<not> JS_IsUndefined val then ijDumpObj E val w else Inr w) (\<lambda>w.
              JS_FreeValue val w))
     else Inr w)"

definition ijDumpError :: "jsenv \<Rightarrow> 'z rt_scheme \<Rightarrow> 'z rt_scheme res" where
  "ijDumpError E w =
     (let (exception_val, w) = JS_GetException w
      in bindE (ijDumpError1 E exception_val w) (\<lambda>w. JS_FreeValue exception_val w))"

definition ijCallHandler :: "jsenv \<Rightarrow> jsval \<Rightarrow> 'z rt_scheme \<Rightarrow> 'z rt_scheme res" where
  "ijCallHandler E func w =
     (let func1 = func; w = JS_DupValue func w
      in bindE (JS_Call E func1 [] w) (\<lambda>(ret, w).
         bindE (JS_FreeValue func1 w) (\<lambda>w.
         bindE (if JS_IsException ret then ijDumpError E w else Inr w) (\<lambda>w.
         JS_FreeValue ret w))))"

text \<open>
  A table of property atoms: each atom is released, then the table.
\<close>

definition ijFreePropEnum :: "nat \<Rightarrow> jsval list \<Rightarrow> 'z rt_scheme \<Rightarrow> 'z rt_scheme res" where
  "ijFreePropEnum tab atoms w =
     (if tab \<noteq> 0 then bindE (forE JS_FreeValue atoms w) (\<lambda>w. js_free tab w) else Inr w)"

lemmas dump_defs [handler_defs] = ijDumpObj_def ijDumpError1_def ijDumpError_def
  ijCallHandler_def ijFreePropEnum_def

section \<open>Promises held by C structures\<close>

record IJJSPromise =
  pr_p :: jsval
  pr_rfuncs0 :: jsval
  pr_rfuncs1 :: jsval
  pr_valid :: bool

text \<open>What a request block from js\_malloc holds before ijInitPromise runs.\<close>

definition uninit_promise :: "jsenv \<Rightarrow> IJJSPromise" where
  "uninit_promise E = \<lparr>pr_p = JS_JUNK, pr_rfuncs0 = JS_JUNK, pr_rfuncs1 = JS_JUNK,
     pr_valid = junk E\<rparr>"

definition ijInitPromise ::
    "IJJSPromise \<Rightarrow> 'z rt_scheme \<Rightarrow> jsval \<times> IJJSPromise \<times> 'z rt_scheme" where
  "ijInitPromise p w = (case JS_NewPromiseCapability w of
     (pp, f0, f1, w) \<Rightarrow>
       if JS_IsException pp then (JS_EXCEPTION, p\<lparr>pr_p := pp\<rparr>, w)
       else (let w = JS_DupValue f0 w; w = JS_DupValue f1 w
             in (pp, p\<lparr>pr_p := pp, pr_rfuncs0 := f0, pr_rfuncs1 := f1, pr_valid := True\<rparr>,
                 JS_DupValue pp w)))"

definition ijIsPromisePending :: "IJJSPromise \<Rightarrow> bool" where
  "ijIsPromisePending p = (\<not> JS_IsUndefined (pr_p p))"

definition ijFreePromise ::
    "IJJSPromise \<Rightarrow> 'z rt_scheme \<Rightarrow> (IJJSPromise \<times> 'z rt_scheme) res" where
  "ijFreePromise p w =
     bindE (JS_FreeValue (pr_rfuncs0 p) w) (\<lambda>w.
     bindE (JS_FreeValue (pr_rfuncs1 p) w) (\<lambda>w.
     bindE (JS_FreeValue (pr_p p) w) (\<lambda>w.
     Inr (p\<lparr>pr_valid := False\<rparr>, w))))"

text \<open>The same three releases, from a finalizer.\<close>

definition ijFreePromiseRT ::
    "IJJSPromise \<Rightarrow> 'z rt_scheme \<Rightarrow> (IJJSPromise \<times> 'z rt_scheme) res" where
  "ijFreePromiseRT p w =
     bindE (JS_FreeValueRT (pr_rfuncs0 p) w) (\<lambda>w.
     bindE (JS_FreeValueRT (pr_rfuncs1 p) w) (\<lambda>w.
     bindE (JS_FreeValueRT (pr_p p) w) (\<lambda>w.
     Inr (p\<lparr>pr_valid := False\<rparr>, w))))"

definition ijClearPromise :: "IJJSPromise \<Rightarrow> IJJSPromise" where
  "ijClearPromise p = p\<lparr>pr_p := JS_UNDEFINED, pr_rfuncs0 := JS_UNDEFINED,
     pr_rfuncs1 := JS_UNDEFINED, pr_valid := False\<rparr>"

text \<open>The values a marker visits: all three while the promise is valid, none otherwise.\<close>

definition ijMarkPromise :: "IJJSPromise \<Rightarrow> jsval list" where
  "ijMarkPromise p =
     (if \<not> pr_valid p then [] else [pr_p p, pr_rfuncs0 p, pr_rfuncs1 p])"

definition ijSettlePromise ::
    "jsenv \<Rightarrow> IJJSPromise \<Rightarrow> bool \<Rightarrow> jsval list \<Rightarrow> 'z rt_scheme
       \<Rightarrow> (IJJSPromise \<times> 'z rt_scheme) res" where
  "ijSettlePromise E p is_reject argv w =
     (if \<not> pr_valid p then Inr (p, w)
      else
        bindE (JS_Call E (if is_reject then pr_rfuncs1 p else pr_rfuncs0 p) argv w) (\<lambda>(ret, w).
        bindE (forE JS_FreeValue argv w) (\<lambda>w.
        bindE (JS_FreeValue ret w) (\<lambda>w.
        bindE (JS_FreeValue (pr_rfuncs0 p) w) (\<lambda>w.
        bindE (JS_FreeValue (pr_rfuncs1 p) w) (\<lambda>w.
        ijFreePromise p w))))))"

definition ijResolvePromise ::
    "jsenv \<Rightarrow> IJJSPromise \<Rightarrow> jsval list \<Rightarrow> 'z rt_scheme \<Rightarrow> (IJJSPromise \<times> 'z rt_scheme) res" where
  "ijResolvePromise E p argv w = ijSettlePromise E p False argv w"

definition ijRejectPromise ::
    "jsenv \<Rightarrow> IJJSPromise \<Rightarrow> jsval list \<Rightarrow> 'z rt_scheme \<Rightarrow> (IJJSPromise \<times> 'z rt_scheme) res" where
  "ijRejectPromise E p argv w = ijSettlePromise E p True argv w"

definition ijSettledPromise ::
    "jsenv \<Rightarrow> bool \<Rightarrow> jsval list \<Rightarrow> 'z rt_scheme \<Rightarrow> (jsval \<times> 'z rt_scheme) res" where
  "ijSettledPromise E is_reject argv w = (case JS_NewPromiseCapability w of
     (promise, f0, f1, w) \<Rightarrow>
       if JS_IsException promise then Inr (JS_EXCEPTION, w)
       else
         bindE (JS_Call E (if is_reject then f1 else f0) argv w) (\<lambda>(ret, w).
         bindE (forE JS_FreeValue argv w) (\<lambda>w.
         bindE (JS_FreeValue ret w) (\<lambda>w.
         bindE (JS_FreeValue f0 w) (\<lambda>w.
         bindE (JS_FreeValue f1 w) (\<lambda>w.
         Inr (promise, w)))))))"

definition ijNewResolvedPromise ::
    "jsenv \<Rightarrow> jsval list \<Rightarrow> 'z rt_scheme \<Rightarrow> (jsval \<times> 'z rt_scheme) res" where
  "ijNewResolvedPromise E argv w = ijSettledPromise E False argv w"

definition ijNewRejectedPromise ::
    "jsenv \<Rightarrow> jsval list \<Rightarrow> 'z rt_scheme \<Rightarrow> (jsval \<times> 'z rt_scheme) res" where
  "ijNewRejectedPromise E argv w = ijSettledPromise E True argv w"

lemmas promise_defs [handler_defs] = uninit_promise_def ijInitPromise_def
  ijIsPromisePending_def ijFreePromise_def ijFreePromiseRT_def ijClearPromise_def
  ijMarkPromise_def ijSettlePromise_def ijResolvePromise_def ijRejectPromise_def
  ijSettledPromise_def ijNewResolvedPromise_def ijNewRejectedPromise_def

section \<open>Byte arrays over a C buffer\<close>

text \<open>
  The array takes the buffer over: from then on the engine releases it, through ijBufFree,
  when the array dies.
\<close>

definition ijBufFree :: "nat \<Rightarrow> 'z rt_scheme \<Rightarrow> 'z rt_scheme res" where
  "ijBufFree ptr w = free_block EngineOwned ptr w"

definition JS_NewArrayBuffer :: "nat \<Rightarrow> string \<Rightarrow> 'z rt_scheme \<Rightarrow> jsval \<times> 'z rt_scheme" where
  "JS_NewArrayBuffer p data w =
     (if oom w (tick w) then JS_ThrowOutOfMemory (w\<lparr>tick := Suc (tick w)\<rparr>)
      else (JS_ArrayBuffer data,
            w\<lparr>tick := Suc (tick w),
              blk := (if blk w p = JsBlock then (blk w)(p := EngineOwned) else blk w)\<rparr>))"

definition ijNewUint8Array ::
    "nat \<Rightarrow> string \<Rightarrow> 'z rt_scheme \<Rightarrow> (jsval \<times> 'z rt_scheme) res" where
  "ijNewUint8Array p data w = (case JS_NewArrayBuffer p data w of
     (abuf, w) \<Rightarrow>
       if JS_IsException abuf then Inr (abuf, w)
       else if oom w (tick w)
       then bindE (ijBufFree p w) (\<lambda>w.
            Inr (JS_ThrowOutOfMemory (w\<lparr>tick := Suc (tick w)\<rparr>)))
       else Inr (JS_Uint8Array data 0 (length data), w\<lparr>tick := Suc (tick w)\<rparr>))"

lemmas buffer_defs [handler_defs] = ijBufFree_def JS_NewArrayBuffer_def ijNewUint8Array_def

section \<open>Arguments the I/O classes share\<close>

text \<open>The bytes of a string or of a typed array; a string borrows a C string.\<close>

fun typed_array_bytes :: "jsval \<Rightarrow> string option" where
  "typed_array_bytes (JS_Uint8Array buf off len) = Some (take len (drop off buf))"
| "typed_array_bytes _ = None"

definition js_data ::
    "jsenv \<Rightarrow> jsval \<Rightarrow> 'z rt_scheme \<Rightarrow> (bool \<times> nat \<times> string) option \<times> 'z rt_scheme" where
  "js_data E jsData w =
     (if JS_IsString jsData
      then (case JS_ToCString E jsData w of (buf, str, w) \<Rightarrow>
              if buf = 0 then (None, w) else (Some (True, buf, str), w))
      else (case typed_array_bytes jsData of
              None \<Rightarrow> (None, snd (JS_ThrowTypeError ''not a TypedArray'' w))
            | Some bytes \<Rightarrow> (Some (False, 0, bytes), w)))"

definition IJJS_DEFAULt_READ_SIZE :: int where "IJJS_DEFAULt_READ_SIZE = 65536"

definition AF_UNSPEC :: int where "AF_UNSPEC = 0"

text \<open>What ijClearPromise leaves.\<close>

definition clear_promise :: IJJSPromise where
  "clear_promise = \<lparr>pr_p = JS_UNDEFINED, pr_rfuncs0 = JS_UNDEFINED, pr_rfuncs1 = JS_UNDEFINED,
     pr_valid = False\<rparr>"

section \<open>Addresses\<close>

datatype sockaddr =
    SockIn "32 word" "16 word"
  | SockIn6 "128 word" "16 word" "32 word" "32 word"
  | SockOther int

text \<open>The textual forms are libuv's uv\_inet\_pton, uv\_ip4\_name and uv\_ip6\_name.\<close>

record netenv =
  inet_pton4 :: "string \<Rightarrow> 32 word option"
  inet_pton6 :: "string \<Rightarrow> 128 word option"
  ip4_name :: "32 word \<Rightarrow> string"
  ip6_name :: "128 word \<Rightarrow> string"
  af_inet6 :: int
  uv_EAFNOSUPPORT :: int

definition AF_INET :: int where "AF_INET = 2"

text \<open>htons takes a 16-bit argument: the port is cut to its low 16 bits.\<close>

definition htons :: "int \<Rightarrow> 16 word" where
  "htons port = word_of_int port"

definition ijObj2Addr ::
    "jsenv \<Rightarrow> netenv \<Rightarrow> jsval \<Rightarrow> 'z rt_scheme \<Rightarrow> (int \<times> sockaddr option \<times> 'z rt_scheme) res" where
  "ijObj2Addr E N obj w =
     (let (js_ip, w) = JS_GetPropertyStr E obj ''ip'' w in
      case JS_ToCString E js_ip w of (p, ip, w) \<Rightarrow>
      bindE (JS_FreeValue js_ip w) (\<lambda>w.
      if p = 0 then Inr (-1, None, w)
      else (let (js_port, w) = JS_GetPropertyStr E obj ''port'' w in
        case JS_ToUint32 E js_port w of (r, w) \<Rightarrow>
        bindE (JS_FreeValue js_port w) (\<lambda>w.
        case r of None \<Rightarrow> Inr (-1, None, w)
        | Some port \<Rightarrow>
          (case inet_pton4 N ip of
             Some a \<Rightarrow> bindE (JS_FreeCString (p, 0) w)
                         (\<lambda>w. Inr (0, Some (SockIn a (htons port)), w))
           | None \<Rightarrow>
             (case inet_pton6 N ip of
                Some a \<Rightarrow> bindE (JS_FreeCString (p, 0) w)
                            (\<lambda>w. Inr (0, Some (SockIn6 a (htons port) 0 0), w))
              | None \<Rightarrow>
                (let w = snd (ijThrowErrno E (uv_EAFNOSUPPORT N) w)
                 in bindE (JS_FreeCString (p, 0) w) (\<lambda>w. Inr (-1, None, w)))))))))"

fun ijAddr2Obj :: "netenv \<Rightarrow> sockaddr \<Rightarrow> jsval" where
  "ijAddr2Obj N (SockIn a port) =
     JS_Object [(''family'', JS_NewInt32 AF_INET), (''ip'', JS_Str (ip4_name N a)),
                (''port'', JS_NewInt32 (uint port))]"
| "ijAddr2Obj N (SockIn6 a port flow scope) =
     JS_Object [(''family'', JS_NewInt32 (af_inet6 N)), (''ip'', JS_Str (ip6_name N a)),
                (''port'', JS_NewInt32 (uint port)), (''flowinfo'', JS_NewInt32 (uint flow)),
                (''scopeId'', JS_NewInt32 (uint scope))]"
| "ijAddr2Obj N (SockOther f) = JS_UNDEFINED"

lemmas addr_defs [handler_defs] = ijObj2Addr_def htons_def AF_INET_def

text \<open>
  What libuv documents of the textual forms: parsing inverts printing, and an IPv6 text is
  not an IPv4 text. What QuickJS does with the plain object ijAddr2Obj builds: reading a
  property gives the stored value, a string converts to itself, a non-negative number to
  itself.
\<close>

definition netenv_ok :: "netenv \<Rightarrow> bool" where
  "netenv_ok N \<longleftrightarrow>
     (\<forall>a. inet_pton4 N (ip4_name N a) = Some a) \<and>
     (\<forall>a. inet_pton6 N (ip6_name N a) = Some a \<and> inet_pton4 N (ip6_name N a) = None)"

definition plain_reads :: "jsenv \<Rightarrow> bool" where
  "plain_reads E \<longleftrightarrow>
     (\<forall>ps k s. map_of ps k = Some (JS_Str s) \<longrightarrow> getprop E (JS_Object ps) k = JS_Str s) \<and>
     (\<forall>ps k i. map_of ps k = Some (JS_Int i) \<longrightarrow> getprop E (JS_Object ps) k = JS_Int i) \<and>
     (\<forall>s. to_cstr E (JS_Str s) = Some s) \<and>
     (\<forall>i. 0 \<le> i \<and> i < 2 ^ 32 \<longrightarrow> to_u32 E (JS_Int i) = Some i)"

text \<open>An address with the fields ijObj2Addr zeroes cleared.\<close>

fun canonical_addr :: "sockaddr \<Rightarrow> sockaddr" where
  "canonical_addr (SockIn6 a port flow scope) = SockIn6 a port 0 0"
| "canonical_addr sa = sa"

text \<open>A concrete textual form, in unary.\<close>

definition unary_netenv :: netenv where
  "unary_netenv = \<lparr>
     inet_pton4 = (\<lambda>s. if s \<noteq> [] \<and> hd s = CHR ''4'' then Some (of_nat (length s - 1)) else None),
     inet_pton6 = (\<lambda>s. if s \<noteq> [] \<and> hd s = CHR ''6'' then Some (of_nat (length s - 1)) else None),
     ip4_name = (\<lambda>a. CHR ''4'' # replicate (unat a) CHR ''1''),
     ip6_name = (\<lambda>a. CHR ''6'' # replicate (unat a) CHR ''1''),
     af_inet6 = 10, uv_EAFNOSUPPORT = -97\<rparr>"

lemma unary_netenv_ok: "netenv_ok unary_netenv"
  by (simp add: netenv_ok_def unary_netenv_def)

lemma plain_env_reads: "plain_reads plain_env"
  by (auto simp: plain_reads_def plain_env_def)

section \<open>Printing and calling leave no trace\<close>

lemma ijDumpObj_unobs:
  assumes "fresh_blk w"
  shows "\<exists>w'. ijDumpObj E v w = Inr w' \<and> unobs w w'"
  using assms
  by (auto simp: ijDumpObj_def JS_ToCString_def JS_FreeCString_def free_block_def
      handles_quiet_def unobs_def fresh_blk_def throw_defs fun_eq_iff split: option.splits)

lemma unobs_free:
  assumes "unobs (w\<lparr>refs := inc_ref v (refs w)\<rparr>) w'" "v \<noteq> JS_JUNK"
  shows "\<exists>w2. JS_FreeValue v w' = Inr w2 \<and> unobs w w2"
proof -
  have r: "refs w' = inc_ref v (refs w)" using assms(1) by (simp add: unobs_def)
  then have "owned v 1 w'"
    using assms(2) by (cases v) (auto simp: owned_def inc_ref_def)
  then have "JS_FreeValue v w' = Inr (w'\<lparr>refs := refs w\<rparr>)"
    by (simp add: JS_FreeValue_eq r)
  moreover have "unobs w (w'\<lparr>refs := refs w\<rparr>)"
    using assms(1) by (cases v) (simp_all add: unobs_def)
  ultimately show ?thesis by blast
qed

lemma ijDumpError1_unobs:
  assumes "fresh_blk w" "jsenv_ok E"
  shows "\<exists>w'. ijDumpError1 E v w = Inr w' \<and> unobs w w'"
proof -
  obtain w1 where w1: "ijDumpObj E v w = Inr w1" "unobs w w1"
    using ijDumpObj_unobs [OF assms(1)] by blast
  show ?thesis
  proof (cases "JS_IsError v")
    case True
    obtain val w2 where g: "JS_GetPropertyStr E v ''stack'' w1 = (val, w2)" by fastforce
    have val: "val \<noteq> JS_JUNK"
      using g assms(2) by (auto simp: JS_GetPropertyStr_def jsenv_ok_def throw_defs Let_def
          split: if_splits)
    have "unobs (w1\<lparr>refs := inc_ref val (refs w1)\<rparr>) w2"
      using g by (auto simp: JS_GetPropertyStr_def Let_def throw_defs JS_DupValue_eq unobs_def
          inc_ref_def fun_eq_iff split: if_splits)
    moreover have "fresh_blk w2"
      using calculation unobs_fresh [OF w1(2) assms(1)]
      by (auto simp: fresh_blk_def unobs_def)
    then obtain w3 where w3: "ijDumpObj E val w2 = Inr w3" "unobs w2 w3"
      using ijDumpObj_unobs by blast
    ultimately have "unobs (w1\<lparr>refs := inc_ref val (refs w1)\<rparr>) w3"
      and u2: "unobs (w1\<lparr>refs := inc_ref val (refs w1)\<rparr>) w2"
      by (blast intro: unobs_trans)+
    with unobs_free [OF _ val] obtain w4 where "JS_FreeValue val w3 = Inr w4" "unobs w1 w4"
      by blast
    moreover obtain w5 where "JS_FreeValue val w2 = Inr w5" "unobs w1 w5"
      using unobs_free [OF u2 val] by blast
    ultimately show ?thesis
      using w1 w3 g True by (auto simp: ijDumpError1_def intro: unobs_trans)
  qed (use w1 in \<open>simp add: ijDumpError1_def\<close>)
qed

lemma ijDumpError_unobs:
  assumes "fresh_blk w" "jsenv_ok E" "exn w \<noteq> Some JS_JUNK"
  shows "\<exists>w'. ijDumpError E w = Inr w' \<and> unobs w w'"
proof -
  obtain v w1 where g: "JS_GetException w = (v, w1)" by fastforce
  have v: "v \<noteq> JS_JUNK" "unobs (w\<lparr>refs := inc_ref v (refs w)\<rparr>) w1"
    using g assms(3) by (auto simp: JS_GetException_def JS_DupValue_eq unobs_def inc_ref_def
        fun_eq_iff split: option.splits)
  then have "fresh_blk w1" using assms(1) by (auto simp: fresh_blk_def unobs_def)
  then obtain w2 where w2: "ijDumpError1 E v w1 = Inr w2" "unobs w1 w2"
    using ijDumpError1_unobs assms(2) by blast
  with unobs_free [OF unobs_trans [OF v(2) w2(2)] v(1)] show ?thesis
    by (simp add: ijDumpError_def g)
qed

text \<open>
  Calling a user function the way ijCallHandler and the timers do: a reference is taken for
  the duration of the call, an exception is printed, the result is released. The only
  trace left is the call itself.
\<close>

lemma call_release:
  assumes "fresh_blk w" "jsenv_ok E" "funs w f = UserFun"
  shows "\<exists>w'. bindE (JS_Call E (JS_Ref f) vs (JS_DupValue (JS_Ref f) w)) (\<lambda>(ret, w).
      bindE (JS_FreeValue (JS_Ref f) w) (\<lambda>w.
      bindE (if JS_IsException ret then ijDumpError E w else Inr w) (\<lambda>w.
      JS_FreeValue ret w))) = Inr w' \<and> unobs (w\<lparr>calls := calls w @ [(JS_Ref f, vs)]\<rparr>) w'"
proof (cases "user_call E (JS_Ref f) vs")
  case (Inl e)
  let ?w = "w\<lparr>calls := calls w @ [(JS_Ref f, vs)], exn := Some e\<rparr>"
  have "e \<noteq> JS_JUNK" using Inl assms(2) by (auto simp: jsenv_ok_def)
  then obtain w' where "ijDumpError E ?w = Inr w'" "unobs ?w w'"
    using ijDumpError_unobs [of ?w E] assms(1,2) by (auto simp: fresh_blk_def)
  then show ?thesis
    using assms(3) Inl by (simp add: JS_Throw_def unobs_def)
next
  case (Inr r)
  have r: "r \<noteq> JS_JUNK" "r \<noteq> JS_EXCEPTION" using Inr assms(2) by (auto simp: jsenv_ok_def)
  let ?w = "w\<lparr>calls := calls w @ [(JS_Ref f, vs)]\<rparr>"
  have "JS_FreeValue (JS_Ref f) (?w\<lparr>refs := inc_ref r (inc_ref (JS_Ref f) (refs w))\<rparr>)
      = Inr (?w\<lparr>refs := inc_ref r (refs w)\<rparr>)"
    by (subst JS_FreeValue_eq) (auto simp: inc_ref_def)
  moreover have "JS_FreeValue r (?w\<lparr>refs := inc_ref r (refs w)\<rparr>) = Inr ?w"
    using JS_FreeValue_eq [OF owned_inc [where v = r and w = ?w and rf = "refs w", OF r(1)]] by simp
  ultimately show ?thesis
    using assms(3) Inr r by (simp add: JS_DupValue_eq del: JS_FreeValue.simps)
qed

lemma ijCallHandler_calls:
  assumes "fresh_blk w" "jsenv_ok E" "funs w f = UserFun"
  shows "\<exists>w'. ijCallHandler E (JS_Ref f) w = Inr w' \<and>
    unobs (w\<lparr>calls := calls w @ [(JS_Ref f, [])]\<rparr>) w'"
  unfolding ijCallHandler_def Let_def by (rule call_release [OF assms])

section \<open>The promise protocol\<close>

text \<open>
  What a structure holds between ijInitPromise and the settling call: the promise, one
  reference of it, and two references of each of its resolving functions.
\<close>

definition promise_live :: "nat \<Rightarrow> nat \<Rightarrow> nat \<Rightarrow> IJJSPromise \<Rightarrow> 'z rt_scheme \<Rightarrow> bool" where
  "promise_live p r0 r1 pr w \<longleftrightarrow>
     pr_p pr = JS_Ref p \<and> pr_rfuncs0 pr = JS_Ref r0 \<and> pr_rfuncs1 pr = JS_Ref r1 \<and>
     pr_valid pr \<and> distinct [p, r0, r1] \<and>
     1 \<le> refs w p \<and> 2 \<le> refs w r0 \<and> 2 \<le> refs w r1 \<and>
     funs w r0 = ResolveFun p \<and> funs w r1 = RejectFun p \<and> proms w p = Pending"

text \<open>The references a settling call gives back: the promise's and the argument's.\<close>

definition settled_refs :: "nat \<Rightarrow> nat \<Rightarrow> nat \<Rightarrow> jsval \<Rightarrow> (nat \<Rightarrow> nat) \<Rightarrow> nat \<Rightarrow> nat" where
  "settled_refs p r0 r1 v rf = (\<lambda>n.
     if n = p then rf n - 1 else if n = r0 \<or> n = r1 then rf n - 2
     else if v = JS_Ref n then rf n - 1 else rf n)"

definition settled_state :: "bool \<Rightarrow> jsval \<Rightarrow> promise_state" where
  "settled_state is_reject v = (if is_reject then Rejected v else Fulfilled v)"

lemma ijSettlePromise_live:
  assumes "promise_live p r0 r1 pr w" "owned v 1 w"
    and "v \<notin> {JS_Ref p, JS_Ref r0, JS_Ref r1}"
  shows "ijSettlePromise E pr rej [v] w =
    Inr (pr\<lparr>pr_valid := False\<rparr>, w\<lparr>refs := settled_refs p r0 r1 v (refs w),
      proms := (proms w)(p := settled_state rej v)\<rparr>)"
proof -
  have free: "JS_FreeValue v w' = Inr (w'\<lparr>refs := dec_ref v (refs w')\<rparr>)"
    if "refs w' = refs w" for w' :: "'a rt_scheme"
    using assms(2) that by (intro JS_FreeValue_eq) (cases v; simp add: owned_def)
  have dec: "dec_ref v rf n = (if v = JS_Ref n then rf n - 1 else rf n)" for rf n
    by (simp add: dec_ref_def)
  show ?thesis
    using assms(1,3)
    by (simp add: promise_live_def ijSettlePromise_def ijFreePromise_def settle_def arg0_def
        settled_state_def free dec)
       (auto simp: settled_refs_def dec fun_eq_iff intro!: rt.equality)
qed

lemma ijInitPromise_live:
  assumes "\<not> oom w (tick w)"
  shows "ijInitPromise pr w =
    (let p = tick w in
     (JS_Ref p, pr\<lparr>pr_p := JS_Ref p, pr_rfuncs0 := JS_Ref (p + 1),
        pr_rfuncs1 := JS_Ref (p + 2), pr_valid := True\<rparr>,
      w\<lparr>tick := p + 3, refs := (refs w)(p := 2, p + 1 := 2, p + 2 := 2),
        proms := (proms w)(p := Pending),
        funs := (funs w)(p := NotFun, p + 1 := ResolveFun p, p + 2 := RejectFun p),
        opaque := (opaque w)(p := (0, 0))\<rparr>))"
  using assms by (auto simp: ijInitPromise_def JS_NewPromiseCapability_def Let_def fun_eq_iff
      intro!: rt.equality)

lemma promise_live_init:
  assumes "ijInitPromise pr w = (JS_Ref p, pr1, w1)"
  shows "p = tick w" "promise_live p (p + 1) (p + 2) pr1 w1"
    "refs w1 = (refs w)(p := 2, p + 1 := 2, p + 2 := 2)"
proof -
  have ok: "\<not> oom w (tick w)"
    using assms by (auto simp: ijInitPromise_def JS_NewPromiseCapability_def)
  show "p = tick w" "promise_live p (p + 1) (p + 2) pr1 w1"
    "refs w1 = (refs w)(p := 2, p + 1 := 2, p + 2 := 2)"
    using assms by (auto simp: ijInitPromise_live [OF ok] Let_def promise_live_def)
qed

text \<open>C2. Settling a promise that a C structure holds releases exactly the references the
  structure owns (one of the promise, two of each resolving function, one of the argument),
  fulfils or rejects the promise with the argument, and marks the structure so that every
  later settling call, of either kind and with any arguments, changes nothing.\<close>

theorem promise_settled_once:
  assumes "promise_live p r0 r1 pr w" "owned v 1 w"
    and "v \<notin> {JS_Ref p, JS_Ref r0, JS_Ref r1}"
  shows "\<exists>pr1 w1. ijSettlePromise E pr rej [v] w = Inr (pr1, w1) \<and>
    refs w1 = settled_refs p r0 r1 v (refs w) \<and>
    proms w1 = (proms w)(p := settled_state rej v) \<and>
    ijMarkPromise pr1 = [] \<and>
    (\<forall>rej' vs. ijSettlePromise E pr1 rej' vs w1 = Inr (pr1, w1))"
  unfolding ijSettlePromise_live [OF assms]
  by (simp add: ijSettlePromise_def ijMarkPromise_def)

definition demo_promise :: "jsval \<times> IJJSPromise \<times> rt" where
  "demo_promise = ijInitPromise (uninit_promise plain_env) rt0"

theorem promise_settled_once_witness:
  "\<exists>pr1 w1. ijSettlePromise plain_env (fst (snd demo_promise)) True [JS_Int 7]
      (snd (snd demo_promise)) = Inr (pr1, w1) \<and>
    proms w1 = (proms rt0)(0 := Rejected (JS_Int 7)) \<and> refs w1 0 = 1 \<and> refs w1 1 = 0 \<and>
    refs w1 2 = 0"
proof -
  have "promise_live 0 1 2 (fst (snd demo_promise)) (snd (snd demo_promise))"
    by (simp add: demo_promise_def ijInitPromise_live rt0_def promise_live_def Let_def)
  moreover have "owned (JS_Int 7) 1 (snd (snd demo_promise))" by (simp add: owned_def)
  ultimately show ?thesis
    using promise_settled_once [of 0 1 2 "fst (snd demo_promise)" "snd (snd demo_promise)"
        "JS_Int 7" plain_env True]
    by (auto simp: demo_promise_def ijInitPromise_live rt0_def settled_refs_def
        settled_state_def Let_def)
qed

text \<open>C15. A whole promise cycle is balanced: ijInitPromise followed by ijResolvePromise or
  ijRejectPromise leaves the caller with exactly one reference of the settled promise, no
  reference of its resolving functions, and one reference less of the argument; nothing
  else changes hands.\<close>

theorem promise_cycle_balanced:
  assumes "ijInitPromise pr w = (JS_Ref p, pr1, w1)"
    and "owned v 1 w" "\<forall>n. v = JS_Ref n \<longrightarrow> n < tick w"
  shows "\<exists>w2. (if rej then ijRejectPromise E pr1 [v] w1 else ijResolvePromise E pr1 [v] w1)
      = Inr (pr1\<lparr>pr_valid := False\<rparr>, w2) \<and>
    proms w2 p = settled_state rej v \<and>
    refs w2 = (\<lambda>n. if n = p then 1 else if n = p + 1 \<or> n = p + 2 then 0
                   else if v = JS_Ref n then refs w n - 1 else refs w n)"
proof -
  note init = promise_live_init [OF assms(1)]
  have "v \<notin> {JS_Ref p, JS_Ref (p + 1), JS_Ref (p + 2)}"
    using assms(3) init(1) by auto
  moreover have "owned v 1 w1"
    using assms(2,3) init(1,3) by (cases v) (auto simp: owned_def)
  ultimately have "ijSettlePromise E pr1 rej [v] w1 = Inr (pr1\<lparr>pr_valid := False\<rparr>,
      w1\<lparr>refs := settled_refs p (p + 1) (p + 2) v (refs w1),
         proms := (proms w1)(p := settled_state rej v)\<rparr>)"
    by (intro ijSettlePromise_live [OF init(2)])
  then show ?thesis
    by (auto simp: ijRejectPromise_def ijResolvePromise_def init(3) settled_refs_def
        fun_eq_iff)
qed

theorem promise_cycle_balanced_witness:
  "\<exists>w2. ijResolvePromise plain_env (fst (snd demo_promise)) [JS_Int 3] (snd (snd demo_promise))
     = Inr ((fst (snd demo_promise))\<lparr>pr_valid := False\<rparr>, w2) \<and>
     proms w2 0 = Fulfilled (JS_Int 3) \<and> refs w2 0 = 1 \<and> refs w2 1 = 0"
  using promise_cycle_balanced [of "uninit_promise plain_env" rt0 0 "fst (snd demo_promise)"
      "snd (snd demo_promise)" "JS_Int 3" False plain_env]
  by (auto simp: demo_promise_def ijInitPromise_live rt0_def owned_def settled_state_def
      Let_def)

text \<open>Freeing a pending promise instead of settling it (what the finalizers of streams,
  UDP sockets and processes do) leaves one reference of each resolving function behind: the
  promise stays pending and the functions are never released.\<close>

theorem free_pending_promise_leaks:
  assumes "ijInitPromise pr w = (JS_Ref p, pr1, w1)"
  shows "\<exists>pr2 w2. ijFreePromiseRT pr1 w1 = Inr (pr2, w2) \<and> proms w2 p = Pending \<and>
    refs w2 (p + 1) = 1 \<and> refs w2 (p + 2) = 1 \<and>
    (\<forall>vs. ijResolvePromise E pr2 vs w2 = Inr (pr2, w2))"
proof -
  note init = promise_live_init [OF assms]
  show ?thesis
    using init(2,3) by (auto simp: promise_live_def ijFreePromiseRT_def
        ijResolvePromise_def ijSettlePromise_def)
qed

theorem free_pending_promise_leaks_witness:
  "\<exists>pr2 w2. ijFreePromiseRT (fst (snd demo_promise)) (snd (snd demo_promise)) = Inr (pr2, w2) \<and>
     refs w2 1 = 1 \<and> refs w2 2 = 1"
proof -
  have "ijInitPromise (uninit_promise plain_env) rt0 =
      (JS_Ref 0, fst (snd demo_promise), snd (snd demo_promise))"
    by (simp add: demo_promise_def ijInitPromise_live rt0_def Let_def)
  from free_pending_promise_leaks [OF this, of plain_env] show ?thesis
    by (auto simp: numeral_2_eq_2)
qed

section \<open>Addresses survive the round trip through JavaScript\<close>

lemma port_s32: "to_s32 (uint (port :: 16 word)) = uint port"
  using uint_lt2p [of port] by (intro to_s32_id) (auto intro: order_trans [of _ 0])

lemma port_u32: "uint (port :: 16 word) < 4294967296"
  using uint_lt2p [of port] by simp

text \<open>C16. Converting a socket address to an address object and back gives the same address,
  with the IPv6 flow information and scope cleared, for any faithful textual form of the
  addresses; no reference and no C string is left behind.\<close>

theorem addr_roundtrip:
  assumes "netenv_ok N" "plain_reads E" "\<forall>f. sa \<noteq> SockOther f"
    and "blk w (Suc (tick w)) = NoBlock"
  shows "\<exists>w'. ijObj2Addr E N (ijAddr2Obj N sa) w = Inr (0, Some (canonical_addr sa), w') \<and>
    refs w' = refs w \<and> blk w' = blk w \<and> exn w' = exn w"
  using assms
  by (cases sa)
     (auto simp: netenv_ok_def plain_reads_def JS_NewInt32_def port_s32 port_u32
       ijObj2Addr_def JS_GetPropertyStr_def JS_ToCString_def JS_ToUint32_def
       JS_FreeCString_def free_block_def handles_quiet_def htons_def fun_eq_iff)

theorem addr_roundtrip_witness:
  "\<exists>w'. ijObj2Addr plain_env unary_netenv (ijAddr2Obj unary_netenv (SockIn6 5 80 1 2)) rt0
     = Inr (0, Some (SockIn6 5 80 0 0), w') \<and> refs w' = refs rt0 \<and> blk w' = blk rt0 \<and>
     exn w' = exn rt0"
  using addr_roundtrip [OF unary_netenv_ok plain_env_reads, of "SockIn6 5 80 1 2" rt0]
  by (simp add: rt0_def)

text \<open>A port above 65535 is not refused: ijObj2Addr keeps its low 16 bits only, so the
  socket address carries the port modulo 65536.\<close>

theorem port_truncated:
  assumes "getprop E obj ''ip'' = JS_Str ip" "to_cstr E (JS_Str ip) = Some ip"
    and "getprop E obj ''port'' = JS_Int port" "to_u32 E (JS_Int port) = Some port"
    and "inet_pton4 N ip = Some a"
  shows "\<exists>pt w'. ijObj2Addr E N obj w = Inr (0, Some (SockIn a pt), w') \<and>
    uint pt = port mod 65536"
  using assms
  by (auto simp: ijObj2Addr_def JS_GetPropertyStr_def JS_ToCString_def JS_ToUint32_def
      JS_FreeCString_def free_block_def handles_quiet_def htons_def uint_word_of_int)

theorem port_truncated_witness:
  "\<exists>pt w'. ijObj2Addr plain_env unary_netenv
      (JS_Object [(''ip'', JS_Str ''411''), (''port'', JS_Int 65616)]) rt0
      = Inr (0, Some (SockIn 2 pt), w') \<and> uint pt = 80"
  using port_truncated [of plain_env
      "JS_Object [(''ip'', JS_Str ''411''), (''port'', JS_Int 65616)]" "''411''" 65616
      unary_netenv 2 rt0]
  by (simp add: plain_env_def unary_netenv_def)

end
