(* ===== verification/Jobs.thy ===== *)
theory Jobs
  imports Utils
begin

text \<open>
  The pending-job queue (promise reactions and other microtasks) as ijvm.c runs it:
  ijExecuteJobs executes jobs until the queue is empty or a job throws. What a job does is
  user code, the parameter \<open>J\<close>: it gets the job, its arguments and the state, and may
  enqueue further jobs.
\<close>

type_synonym 'z job_sem = "nat \<Rightarrow> jsval list \<Rightarrow> 'z rt_scheme \<Rightarrow> jsval \<times> 'z rt_scheme"

text \<open>The engine's side: take the first job, run it, release its arguments and its result.\<close>

definition JS_ExecutePendingJob :: "'z job_sem \<Rightarrow> 'z rt_scheme \<Rightarrow> (int \<times> 'z rt_scheme) res" where
  "JS_ExecutePendingJob J w = (case jobs w of
     [] \<Rightarrow> Inr (0, w)
   | (job, vs) # rest \<Rightarrow>
       (case J job vs (w\<lparr>jobs := rest\<rparr>) of (ret, w) \<Rightarrow>
        bindE (forE JS_FreeValue vs w) (\<lambda>w.
        bindE (JS_FreeValue ret w) (\<lambda>w.
        Inr (if JS_IsException ret then -1 else 1, w)))))"

partial_function (option) ijExecuteJobs ::
    "jsenv \<Rightarrow> 'z job_sem \<Rightarrow> 'z rt_scheme \<Rightarrow> 'z rt_scheme res option" where
  "ijExecuteJobs E J w = (case JS_ExecutePendingJob J w of
     Inl c \<Rightarrow> Some (Inl c)
   | Inr (err, w) \<Rightarrow>
       if err \<le> 0 then Some (if err < 0 then ijDumpError E w else Inr w)
       else ijExecuteJobs E J w)"

section \<open>Draining the queue\<close>

lemma forE_free_frame:
  "forE JS_FreeValue vs w = Inr w' \<Longrightarrow>
     jobs w' = jobs w \<and> exn w' = exn w \<and> blk w' = blk w \<and> hnd w' = hnd w \<and>
     proms w' = proms w \<and> funs w' = funs w \<and> opaque w' = opaque w \<and> tick w' = tick w \<and>
     rt.more w' = rt.more w"
proof (induction vs arbitrary: w)
  case (Cons v vs)
  then obtain w1 where "JS_FreeValue v w = Inr w1" "forE JS_FreeValue vs w1 = Inr w'"
    by auto
  then show ?case
    using Cons.IH [of w1] JS_FreeValue_frame [of v w w1] by simp
qed simp

lemma JS_ExecutePendingJob_jobs:
  assumes "JS_ExecutePendingJob J w = Inr (err, w')" "0 < err"
  obtains job vs rest where "jobs w = (job, vs) # rest"
    "jobs w' = jobs (snd (J job vs (w\<lparr>jobs := rest\<rparr>)))"
proof (cases "jobs w")
  case (Cons a rest)
  obtain job vs where a: "a = (job, vs)" by (cases a)
  obtain ret w1 where J: "J job vs (w\<lparr>jobs := rest\<rparr>) = (ret, w1)" by fastforce
  obtain w2 where w2: "forE JS_FreeValue vs w1 = Inr w2" "JS_FreeValue ret w2 = Inr w'"
    using assms(1) Cons a J by (auto simp: JS_ExecutePendingJob_def)
  then have "jobs w' = jobs w1"
    using forE_free_frame [OF w2(1)] JS_FreeValue_frame(10) [OF w2(2)] by simp
  with J show ?thesis by (intro that [of job vs rest]) (simp_all add: Cons a)
qed (use assms in \<open>simp add: JS_ExecutePendingJob_def\<close>)

text \<open>A job semantics under which the queue runs dry, and one whose jobs never throw.\<close>

definition jobs_shrink :: "((nat \<times> jsval list) list \<Rightarrow> nat) \<Rightarrow> 'z job_sem \<Rightarrow> bool" where
  "jobs_shrink m J \<longleftrightarrow> (\<forall>w job vs rest. jobs w = (job, vs) # rest \<longrightarrow>
     m (jobs (snd (J job vs (w\<lparr>jobs := rest\<rparr>)))) < m (jobs w))"

definition jobs_quiet :: "'z job_sem \<Rightarrow> bool" where
  "jobs_quiet J \<longleftrightarrow> (\<forall>job vs w. fst (J job vs w) \<noteq> JS_EXCEPTION)"

lemma execute_terminates:
  assumes "jobs_shrink m J"
  shows "\<exists>r. ijExecuteJobs E J w = Some r"
proof (induction "m (jobs w)" arbitrary: w rule: less_induct)
  case less
  show ?case
  proof (cases "JS_ExecutePendingJob J w")
    case (Inr x)
    obtain err w1 where x: "x = (err, w1)" by (cases x)
    show ?thesis
    proof (cases "err \<le> 0")
      case False
      with JS_ExecutePendingJob_jobs [OF Inr [unfolded x]] assms
      have "m (jobs w1) < m (jobs w)" unfolding jobs_shrink_def by (metis not_le)
      from less [OF this] False show ?thesis
        by (subst ijExecuteJobs.simps) (simp add: Inr x)
    qed (subst ijExecuteJobs.simps, simp add: Inr x)
  qed (subst ijExecuteJobs.simps, simp)
qed

lemma execute_quiet_raw:
  assumes "ijExecuteJobs E J w = Some y"
  shows "jobs_quiet J \<longrightarrow> (\<forall>w'. y = Inr w' \<longrightarrow> jobs w' = [])"
proof (rule ijExecuteJobs.raw_induct [OF _ assms], goal_cases)
  case (1 rec E J w y)
  show ?case
  proof (cases "JS_ExecutePendingJob J w")
    case (Inr x)
    obtain err w1 where x: "x = (err, w1)" by (cases x)
    have "jobs_quiet J \<Longrightarrow> \<not> err < 0"
      using Inr x by (auto simp: JS_ExecutePendingJob_def jobs_quiet_def
          split: list.splits prod.splits if_splits) (metis fst_conv)
    moreover have "err = 0 \<Longrightarrow> jobs w1 = []"
      using Inr x by (auto simp: JS_ExecutePendingJob_def split: list.splits prod.splits
          if_splits)
    ultimately show ?thesis
      using 1 Inr x by (auto split: if_splits)
  qed (use 1 in auto)
qed

text \<open>C10. ijExecuteJobs returns whenever some measure of the queue shrinks with every job,
  and when no job throws it leaves the queue empty: microtasks that enqueue further
  microtasks are all run before control goes back to the event loop.\<close>

theorem execute_jobs_drains:
  assumes "jobs_shrink m J"
  shows "\<exists>r. ijExecuteJobs E J w = Some r \<and>
    (jobs_quiet J \<longrightarrow> (\<forall>w'. r = Inr w' \<longrightarrow> jobs w' = []))"
  using execute_terminates [OF assms, of E w] execute_quiet_raw [of E J w] by blast

text \<open>Job \<open>Suc n\<close> enqueues job \<open>n\<close>; job 0 does nothing.\<close>

fun countdown :: "nat \<Rightarrow> jsval list \<Rightarrow> 'z rt_scheme \<Rightarrow> jsval \<times> 'z rt_scheme" where
  "countdown (Suc n) vs w = (JS_UNDEFINED, w\<lparr>jobs := jobs w @ [(n, [])]\<rparr>)"
| "countdown 0 vs w = (JS_UNDEFINED, w)"

definition pending_size :: "(nat \<times> jsval list) list \<Rightarrow> nat" where
  "pending_size js = sum_list (map (\<lambda>x. Suc (fst x)) js)"

lemma countdown_shrinks: "jobs_shrink pending_size countdown"
  unfolding jobs_shrink_def
proof (intro allI impI)
  fix w :: "'z rt_scheme" and job vs rest assume "jobs w = (job, vs) # rest"
  then show "pending_size (jobs (snd (countdown job vs (w\<lparr>jobs := rest\<rparr>))))
      < pending_size (jobs w)"
    by (cases job) (auto simp: pending_size_def)
qed

lemma countdown_quiet: "jobs_quiet countdown"
  unfolding jobs_quiet_def
proof (intro allI)
  fix job vs and w :: "'z rt_scheme"
  show "fst (countdown job vs w) \<noteq> JS_EXCEPTION" by (cases job) auto
qed

theorem execute_jobs_drains_witness:
  "\<exists>r. ijExecuteJobs plain_env countdown (rt0\<lparr>jobs := [(2, []), (1, [])]\<rparr>) = Some r \<and>
     (\<forall>w'. r = Inr w' \<longrightarrow> jobs w' = [])"
  using execute_jobs_drains [OF countdown_shrinks] countdown_quiet by blast

text \<open>A job that throws stops the round: its exception is printed, and the jobs behind it
  stay queued for the next round.\<close>

theorem execute_jobs_stops_at_throw:
  assumes "jobs w = (job, []) # rest"
    and "J job [] (w\<lparr>jobs := rest\<rparr>) = (JS_EXCEPTION, w1)"
  shows "ijExecuteJobs E J w = Some (ijDumpError E w1)"
  using assms by (subst ijExecuteJobs.simps) (simp add: JS_ExecutePendingJob_def)

theorem execute_jobs_stops_at_throw_witness:
  "ijExecuteJobs plain_env (\<lambda>job vs w. JS_Throw (JS_Str ''boom'') w)
     (rt0\<lparr>jobs := [(1, []), (2, [])]\<rparr>)
   = Some (ijDumpError plain_env (rt0\<lparr>jobs := [(2, [])], exn := Some (JS_Str ''boom'')\<rparr>))"
  by (rule execute_jobs_stops_at_throw [of _ 1 "[(2, [])]"]) (simp_all add: JS_Throw_def)

end
