(* ===== verification/Div128.thy ===== *)
theory Div128
  imports Prelude
begin

text \<open>
  m.c: 128-bit unsigned division for targets whose compiler has none, by the shift and
  subtract method on 64-bit halves. The theorem is that it computes quotient and remainder
  and never divides by zero or shifts by 64 or more, for every divisor other than 0.
\<close>

unbundle bit_operations_syntax

section \<open>Data\<close>

text \<open>The union utwords: a 128-bit word seen as its two halves.\<close>

record utwords =
  s_low :: "64 word"
  s_high :: "64 word"

definition all_of :: "utwords \<Rightarrow> 128 word" where
  "all_of u = push_bit 64 (ucast (s_high u)) OR ucast (s_low u)"

definition of_all :: "128 word \<Rightarrow> utwords" where
  "of_all a = \<lparr>s_low = ucast a, s_high = ucast (drop_bit 64 a)\<rparr>"

definition n_udword_bits :: nat where "n_udword_bits = 64"
definition n_utword_bits :: nat where "n_utword_bits = 128"

text \<open>The compiler's \<open>__builtin_clzll\<close> and \<open>__builtin_ctzll\<close>, which are defined for
  arguments other than 0.\<close>

fun clz_from :: "nat \<Rightarrow> 64 word \<Rightarrow> nat" where
  "clz_from 0 x = 64"
| "clz_from (Suc k) x = (if bit x k then 63 - k else clz_from k x)"

definition clzll :: "64 word \<Rightarrow> nat res" where
  "clzll x = (if x = 0 then Inl UninitRead else Inr (clz_from 64 x))"

fun ctz_upto :: "nat \<Rightarrow> nat \<Rightarrow> 64 word \<Rightarrow> nat" where
  "ctz_upto 0 k x = k"
| "ctz_upto (Suc n) k x = (if bit x k then k else ctz_upto n (Suc k) x)"

definition ctzll :: "64 word \<Rightarrow> nat res" where
  "ctzll x = (if x = 0 then Inl UninitRead else Inr (ctz_upto 64 0 x))"

text \<open>A 64-bit shift by 64 or more is undefined.\<close>

definition shl :: "64 word \<Rightarrow> nat \<Rightarrow> 64 word res" where
  "shl x k = (if k < n_udword_bits then Inr (push_bit k x) else Inl BadShift)"

definition shr :: "64 word \<Rightarrow> nat \<Rightarrow> 64 word res" where
  "shr x k = (if k < n_udword_bits then Inr (drop_bit k x) else Inl BadShift)"

definition div64 :: "64 word \<Rightarrow> 64 word \<Rightarrow> 64 word res" where
  "div64 x y = (if y = 0 then Inl DivByZero else Inr (x div y))"

definition mod64 :: "64 word \<Rightarrow> 64 word \<Rightarrow> 64 word res" where
  "mod64 x y = (if y = 0 then Inl DivByZero else Inr (x mod y))"

text \<open>The subtraction of two leading-zero counts is in unsigned, so it wraps.\<close>

definition sub_unsigned :: "nat \<Rightarrow> nat \<Rightarrow> nat" where
  "sub_unsigned x y = nat ((int x - int y) mod 2 ^ 32)"

section \<open>The loop\<close>

definition loop_body ::
    "128 word \<Rightarrow> utwords \<Rightarrow> utwords \<Rightarrow> 32 word \<Rightarrow> utwords \<times> utwords \<times> 32 word" where
  "loop_body d q r carry =
     (let r = r\<lparr>s_high := push_bit 1 (s_high r) OR drop_bit 63 (s_low r)\<rparr>;
          r = r\<lparr>s_low := push_bit 1 (s_low r) OR drop_bit 63 (s_high q)\<rparr>;
          q = q\<lparr>s_high := push_bit 1 (s_high q) OR drop_bit 63 (s_low q)\<rparr>;
          q = q\<lparr>s_low := push_bit 1 (s_low q) OR ucast carry\<rparr>;
          s = signed_drop_bit 127 (d - all_of r - 1)
      in (q, of_all (all_of r - (d AND s)), ucast (s AND 1)))"

primrec divloop ::
    "nat \<Rightarrow> 128 word \<Rightarrow> utwords \<Rightarrow> utwords \<Rightarrow> 32 word \<Rightarrow> utwords \<times> utwords \<times> 32 word" where
  "divloop 0 d q r carry = (q, r, carry)"
| "divloop (Suc sr) d q r carry =
     (case loop_body d q r carry of (q, r, carry) \<Rightarrow> divloop sr d q r carry)"

definition finish_div ::
    "nat \<Rightarrow> 128 word \<Rightarrow> utwords \<Rightarrow> utwords \<Rightarrow> (128 word \<times> 128 word) res" where
  "finish_div sr d q r =
     (case divloop sr d q r 0 of (q, r, carry) \<Rightarrow>
        Inr (push_bit 1 (all_of q) OR ucast carry, all_of r))"

section \<open>The special cases\<close>

text \<open>\<open>split_low\<close> sets up quotient and remainder for a shift by fewer than 64.\<close>

definition split_low :: "nat \<Rightarrow> utwords \<Rightarrow> (utwords \<times> utwords) res" where
  "split_low sr n =
     bindE (shl (s_low n) (n_udword_bits - sr)) (\<lambda>qh.
     bindE (shr (s_high n) sr) (\<lambda>rh.
     bindE (shl (s_high n) (n_udword_bits - sr)) (\<lambda>x.
     bindE (shr (s_low n) sr) (\<lambda>y.
     Inr (\<lparr>s_low = 0, s_high = qh\<rparr>, \<lparr>s_low = x OR y, s_high = rh\<rparr>)))))"

definition udivmodti4 :: "128 word \<Rightarrow> 128 word \<Rightarrow> (128 word \<times> 128 word) res" where
  "udivmodti4 a b = (let n = of_all a; d = of_all b in
     if s_high n = 0 then
       if s_high d = 0 then
         bindE (mod64 (s_low n) (s_low d)) (\<lambda>rem.
         bindE (div64 (s_low n) (s_low d)) (\<lambda>q. Inr (ucast q, ucast rem)))
       else Inr (0, ucast (s_low n))
     else if s_low d = 0 then
       if s_high d = 0 then
         bindE (mod64 (s_high n) (s_low d)) (\<lambda>rem.
         bindE (div64 (s_high n) (s_low d)) (\<lambda>q. Inr (ucast q, ucast rem)))
       else if s_low n = 0 then
         bindE (mod64 (s_high n) (s_high d)) (\<lambda>rh.
         bindE (div64 (s_high n) (s_high d)) (\<lambda>q.
         Inr (ucast q, all_of \<lparr>s_low = 0, s_high = rh\<rparr>)))
       else if s_high d AND (s_high d - 1) = 0 then
         bindE (ctzll (s_high d)) (\<lambda>k.
         bindE (shr (s_high n) k) (\<lambda>q.
         Inr (ucast q, all_of \<lparr>s_low = s_low n, s_high = s_high n AND (s_high d - 1)\<rparr>)))
       else
         bindE (clzll (s_high d)) (\<lambda>cd.
         bindE (clzll (s_high n)) (\<lambda>cn.
         let sr = sub_unsigned cd cn in
         if sr > n_udword_bits - 2 then Inr (0, a)
         else bindE (split_low (sr + 1) n) (\<lambda>(q, r). finish_div (sr + 1) b q r)))
     else if s_high d = 0 then
       if s_low d AND (s_low d - 1) = 0 then
         (let rem = ucast (s_low n AND (s_low d - 1)) in
          if s_low d = 1 then Inr (a, rem)
          else
            bindE (ctzll (s_low d)) (\<lambda>sr.
            bindE (shr (s_high n) sr) (\<lambda>qh.
            bindE (shl (s_high n) (n_udword_bits - sr)) (\<lambda>x.
            bindE (shr (s_low n) sr) (\<lambda>y.
            Inr (all_of \<lparr>s_low = x OR y, s_high = qh\<rparr>, rem))))))
       else
         bindE (clzll (s_low d)) (\<lambda>cd.
         bindE (clzll (s_high n)) (\<lambda>cn.
         let sr = 1 + n_udword_bits + cd - cn in
         if sr = n_udword_bits then
           finish_div sr b \<lparr>s_low = 0, s_high = s_low n\<rparr> \<lparr>s_low = s_high n, s_high = 0\<rparr>
         else if sr < n_udword_bits then
           bindE (split_low sr n) (\<lambda>(q, r). finish_div sr b q r)
         else
           bindE (shl (s_low n) (n_utword_bits - sr)) (\<lambda>ql.
           bindE (shl (s_high n) (n_utword_bits - sr)) (\<lambda>x.
           bindE (shr (s_low n) (sr - n_udword_bits)) (\<lambda>y.
           bindE (shr (s_high n) (sr - n_udword_bits)) (\<lambda>rl.
           finish_div sr b \<lparr>s_low = ql, s_high = x OR y\<rparr> \<lparr>s_low = rl, s_high = 0\<rparr>))))))
     else
       bindE (clzll (s_high d)) (\<lambda>cd.
       bindE (clzll (s_high n)) (\<lambda>cn.
       let sr = sub_unsigned cd cn in
       if sr > n_udword_bits - 1 then Inr (0, a)
       else if sr + 1 = n_udword_bits then
         finish_div (sr + 1) b \<lparr>s_low = 0, s_high = s_low n\<rparr> \<lparr>s_low = s_high n, s_high = 0\<rparr>
       else bindE (split_low (sr + 1) n) (\<lambda>(q, r). finish_div (sr + 1) b q r))))"

definition umodti3 :: "128 word \<Rightarrow> 128 word \<Rightarrow> 128 word res" where
  "umodti3 a b = bindE (udivmodti4 a b) (\<lambda>(q, r). Inr r)"

definition udivti3 :: "128 word \<Rightarrow> 128 word \<Rightarrow> 128 word res" where
  "udivti3 a b = bindE (udivmodti4 a b) (\<lambda>(q, r). Inr q)"

section \<open>Halves and whole\<close>

lemma unat_lt2p: "unat (x :: 'a::len word) < 2 ^ LENGTH('a)"
  by (rule unsigned_less)

lemma unat_drop: "unat (drop_bit k x) = unat x div 2 ^ k" for x :: "'a::len word"
  unfolding unsigned_drop_bit_eq using unat_lt2p [of x] by (simp add: drop_bit_eq_div take_bit_eq_mod)

lemma unat_push: "unat (push_bit k x) = unat x * 2 ^ k mod 2 ^ 128" for x :: "128 word"
  unfolding unsigned_push_bit_eq take_bit_eq_mod by (simp add: push_bit_eq_mult)

lemma surj_utwords: "\<lparr>s_low = s_low u, s_high = s_high u\<rparr> = u"
  by simp

lemma all_of_all [simp]: "all_of (of_all a) = a"
  by (rule bit_word_eqI) (auto simp: all_of_def of_all_def bit_simps)

lemma of_all_of [simp]: "of_all (all_of u) = u"
proof -
  have "s_low (of_all (all_of u)) = s_low u"
    by (rule bit_word_eqI) (auto simp: all_of_def of_all_def bit_simps)
  moreover have "s_high (of_all (all_of u)) = s_high u"
    by (rule bit_word_eqI) (auto simp: all_of_def of_all_def bit_simps dest: bit_imp_le_length)
  ultimately show ?thesis by simp
qed

lemma unat_cast_up: "unat (ucast (x :: 64 word) :: 128 word) = unat x"
proof -
  have "unat x < 2 ^ 64" using unat_lt2p [of x] by simp
  then have "unat x < 2 ^ 128" by simp
  then show ?thesis unfolding unsigned_ucast_eq take_bit_eq_mod by simp
qed

lemma unat_all_of: "unat (all_of u) = unat (s_high u) * 2 ^ 64 + unat (s_low u)"
proof -
  let ?h = "push_bit 64 (ucast (s_high u)) :: 128 word" and ?l = "ucast (s_low u) :: 128 word"
  have b: "unat (s_high u) < 2 ^ 64" "unat (s_low u) < 2 ^ 64"
    using unat_lt2p [of "s_high u"] unat_lt2p [of "s_low u"] by simp_all
  have "?h AND ?l = 0"
    by (rule bit_word_eqI) (auto simp: bit_simps dest: bit_imp_le_length)
  then have "all_of u = ?h + ?l" by (simp add: all_of_def disjunctive_add_eq_or)
  moreover have "unat ?l = unat (s_low u)"
    using b by (simp add: unat_cast_up)
  moreover have "unat ?h = unat (s_high u) * 2 ^ 64"
    using b unfolding unsigned_push_bit_eq unat_cast_up take_bit_eq_mod
    by (simp add: push_bit_eq_mult)
  ultimately show ?thesis using b by (simp add: unat_word_ariths)
qed

lemma bit_all_of:
  "bit (all_of u) n = (if n < 64 then bit (s_low u) n else bit (s_high u) (n - 64))"
  by (auto simp: all_of_def bit_simps dest: bit_imp_le_length)

lemma bit_out: "\<not> n < LENGTH('a) \<Longrightarrow> \<not> bit (x :: 'a::len word) n"
  using bit_imp_le_length by blast

lemma shl_halves:
  assumes "0 < k" "k < 64"
  shows "all_of \<lparr>s_low = push_bit k l OR c, s_high = push_bit k h OR drop_bit (64 - k) l\<rparr> =
    push_bit k (all_of \<lparr>s_low = l, s_high = h\<rparr>) OR ucast c"
proof (rule bit_word_eqI)
  fix n :: nat
  assume n: "n < LENGTH(128)"
  let ?L = "all_of \<lparr>s_low = push_bit k l OR c, s_high = push_bit k h OR drop_bit (64 - k) l\<rparr>"
  let ?R = "push_bit k (all_of \<lparr>s_low = l, s_high = h\<rparr>) OR ucast c"
  have e: "n - 64 - k = n - (64 + k)" "n - k - 64 = n - (64 + k)" by simp_all
  have L: "bit ?L n = (if n < 64 then k \<le> n \<and> bit l (n - k) \<or> bit c n
      else 64 + k \<le> n \<and> bit h (n - (64 + k)) \<or> bit l (n - k))"
  proof (cases "n < 64")
    case False
    then have f: "64 - k + (n - 64) = n - k" "k \<le> n - 64 \<longleftrightarrow> 64 + k \<le> n" "n - 64 < 64"
      using assms n by auto
    show ?thesis using False f
      by (simp only: bit_all_of utwords.select_convs bit_or_iff bit_push_bit_iff bit_drop_bit_eq
          comp_apply e if_False simp_thms) (simp add: f(3))
  qed (simp add: bit_all_of bit_or_iff bit_push_bit_iff)
  have R: "bit ?R n = (k \<le> n \<and> (if n < 64 + k then bit l (n - k) else bit h (n - (64 + k)))
      \<or> bit c n)"
    using n assms by (auto simp: bit_all_of bit_or_iff bit_push_bit_iff bit_ucast_iff add.commute)
  have "\<not> n < 64 \<Longrightarrow> \<not> bit c n" by (rule bit_out) simp
  moreover have "64 + k \<le> n \<Longrightarrow> \<not> bit l (n - k)" by (rule bit_out) simp
  ultimately show "bit ?L n = bit ?R n" unfolding L R using assms by auto
qed

lemma shl1_halves:
  "all_of \<lparr>s_low = push_bit 1 l OR c, s_high = push_bit 1 h OR drop_bit 63 l\<rparr> =
    push_bit 1 (all_of \<lparr>s_low = l, s_high = h\<rparr>) OR ucast c"
  using shl_halves [of 1 l c h] by simp

lemma unat_shl1_or:
  fixes x y :: "128 word"
  assumes "unat y \<le> 1"
  shows "unat (push_bit 1 x OR y) = (2 * unat x + unat y) mod 2 ^ 128"
proof -
  have "unat y = 0 \<or> unat y = unat (1 :: 128 word)" using assms by (simp add: le_Suc_eq)
  then have "y = 0 \<or> y = 1" unfolding word_unat_eq_iff by simp
  moreover have "push_bit 1 x OR 1 = push_bit 1 x + 1" by (simp add: or_one_eq)
  ultimately show ?thesis
    by (auto simp: unat_word_ariths push_bit_eq_mult mult.commute mod_simps)
qed

lemma sign_mask:
  fixes x :: "128 word"
  shows "signed_drop_bit 127 x = (if bit x 127 then -1 else 0)"
proof (rule bit_word_eqI)
  fix n :: nat
  assume "n < LENGTH(128)"
  then show "bit (signed_drop_bit 127 x) n = bit (if bit x 127 then -1 else 0 :: 128 word) n"
    by (cases "n = 0") (auto simp: bit_signed_drop_bit_iff)
qed

lemma top_bit:
  fixes x :: "128 word"
  shows "bit x 127 \<longleftrightarrow> 2 ^ 127 \<le> unat x"
proof -
  have "unat x div 2 ^ 127 < 2" using unat_lt2p [of x] by (simp add: div_less_iff_less_mult)
  then have "odd (unat x div 2 ^ 127) \<longleftrightarrow> unat x div 2 ^ 127 \<noteq> 0" 
    by (cases "unat x div 2 ^ 127") auto
  moreover have "bit x 127 \<longleftrightarrow> odd (unat x div 2 ^ 127)"
    by (simp only: bit_iff_odd [symmetric] bit_unsigned_iff) simp
  ultimately show ?thesis by (simp add: div_eq_0_iff not_less)
qed

lemma sign_of_difference:
  fixes d r :: "128 word"
  assumes "unat d \<le> unat r + 2 ^ 127" "unat r < unat d + 2 ^ 127"
  shows "bit (d - r - 1) 127 \<longleftrightarrow> unat d \<le> unat r"
proof -
  have b: "0 \<le> uint d" "uint d < 2 ^ 128" "0 \<le> uint r" "uint r < 2 ^ 128"
    using uint_bounded [of d] uint_bounded [of r] by simp_all
  have e: "int (unat x) = uint x" for x :: "128 word" by simp
  have p: "(2 ^ 128 :: int) = 2 ^ 127 + 2 ^ 127" by simp
  define i where "i = uint d - uint r - 1"
  have u: "uint (d - r - 1) = i mod 2 ^ 128"
    by (simp add: i_def uint_word_ariths mod_simps)
  show ?thesis
  proof (cases "uint d \<le> uint r")
    case True
    have "0 \<le> i + 2 ^ 128" unfolding i_def using b by linarith
    moreover have "i + 2 ^ 128 < 2 ^ 128" unfolding i_def using True by linarith
    ultimately have "i mod 2 ^ 128 = i + 2 ^ 128" by (metis mod_add_self2 mod_pos_pos_trivial)
    moreover have "int (unat r) < int (unat d + 2 ^ 127)" using assms(2) by (simp only: of_nat_less_iff)
    ultimately have "int (2 ^ 127) \<le> int (unat (d - r - 1))"
      unfolding of_nat_add e u unfolding i_def using p by (simp only: of_nat_power of_nat_numeral; linarith)
    moreover have "int (unat d) \<le> int (unat r)" unfolding e using True .
    ultimately show ?thesis unfolding top_bit of_nat_le_iff of_nat_less_iff by linarith
  next
    case False
    have "0 \<le> i" unfolding i_def using False by linarith
    moreover have "i < 2 ^ 128" unfolding i_def using b by linarith
    ultimately have "i mod 2 ^ 128 = i" by (rule mod_pos_pos_trivial)
    moreover have "int (unat d) \<le> int (unat r + 2 ^ 127)" using assms(1) by (simp only: of_nat_le_iff)
    ultimately have "int (unat (d - r - 1)) < int (2 ^ 127)"
      unfolding of_nat_add e u unfolding i_def using p by (simp only: of_nat_power of_nat_numeral; linarith)
    moreover have "int (unat r) < int (unat d)" unfolding e using False by linarith
    ultimately show ?thesis unfolding top_bit of_nat_le_iff of_nat_less_iff by linarith
  qed
qed

section \<open>The loop divides\<close>

lemma loop_body_nat:
  assumes "loop_body d q r carry = (q', r', carry')" "unat carry \<le> 1"
    and "x = 2 * unat (all_of r) + unat (all_of q) div 2 ^ 127" "x < 2 ^ 128"
    and "unat d \<le> x + 2 ^ 127" "x < unat d + 2 ^ 127"
  shows "unat (all_of q') = (2 * unat (all_of q) + unat carry) mod 2 ^ 128"
    and "unat (all_of r') = (if unat d \<le> x then x - unat d else x)"
    and "unat carry' = of_bool (unat d \<le> x)"
proof -
  let ?q = "\<lparr>s_low = push_bit 1 (s_low q) OR ucast carry,
      s_high = push_bit 1 (s_high q) OR drop_bit 63 (s_low q)\<rparr>"
  let ?r = "\<lparr>s_low = push_bit 1 (s_low r) OR drop_bit 63 (s_high q),
      s_high = push_bit 1 (s_high r) OR drop_bit 63 (s_low r)\<rparr>"
  let ?s = "signed_drop_bit 127 (d - all_of ?r - 1)"
  have "loop_body d q r carry = (?q, of_all (all_of ?r - (d AND ?s)), ucast (?s AND 1))"
    unfolding loop_body_def Let_def
    by (cases q; cases r) (simp only: utwords.select_convs utwords.update_convs)
  then have st: "q' = ?q" "r' = of_all (all_of ?r - (d AND ?s))" "carry' = ucast (?s AND 1)"
    using assms(1) by (simp_all only: prod.inject)
  have "unat (ucast carry :: 64 word) = unat carry"
    using assms(2) unfolding unsigned_ucast_eq take_bit_eq_mod by simp
  then have c: "unat (ucast (ucast carry :: 64 word) :: 128 word) = unat carry"
    by (simp only: unat_cast_up)
  then show "unat (all_of q') = (2 * unat (all_of q) + unat carry) mod 2 ^ 128"
    using assms(2) unfolding st shl1_halves by (subst unat_shl1_or) (simp_all add: surj_utwords)
  have h: "unat (s_high q) div 2 ^ 63 = unat (all_of q) div 2 ^ 127"
  proof -
    have "(unat (s_high q) * 2 ^ 64 + unat (s_low q)) div 2 ^ 64 = unat (s_high q)"
      using unat_lt2p [of "s_low q"] by simp
    moreover have "(2 ^ 127 :: nat) = 2 ^ 64 * 2 ^ 63" by (simp flip: power_add)
    ultimately show ?thesis by (simp only: unat_all_of div_mult2_eq)
  qed
  have "unat (all_of q) div 2 ^ 127 < 2"
    using unat_lt2p [of "all_of q"] by (simp add: div_less_iff_less_mult)
  moreover have d63: "unat (ucast (drop_bit 63 (s_high q)) :: 128 word) = unat (all_of q) div 2 ^ 127"
    unfolding unat_cast_up h [symmetric] by (rule unat_drop)
  ultimately have x: "unat (all_of ?r) = x"
    unfolding shl1_halves using assms(3,4) by (subst unat_shl1_or) (simp_all add: surj_utwords)
  have bit: "bit (d - all_of ?r - 1) 127 \<longleftrightarrow> unat d \<le> x"
    by (subst sign_of_difference) (use assms(5,6) x in simp_all)
  show "unat (all_of r') = (if unat d \<le> x then x - unat d else x)"
  proof (cases "unat d \<le> x")
    case True
    then have "all_of r' = all_of ?r - d" unfolding st sign_mask using bit by simp
    moreover have "d \<le> all_of ?r" unfolding word_le_nat_alt x using True .
    ultimately show ?thesis using True by (simp only: unat_sub x if_True)
  next
    case False
    then have "all_of r' = all_of ?r" unfolding st sign_mask using bit by simp
    then show ?thesis using False by (simp only: x if_False)
  qed
  show "unat carry' = of_bool (unat d \<le> x)"
    unfolding st sign_mask using bit by (cases "unat d \<le> x") simp_all
qed

text \<open>
  One round on naturals: \<open>2 * q + carry\<close> holds the \<open>sr\<close> bits of the numerator still to be
  shifted in (\<open>A\<close>) above the bits of the quotient found so far (\<open>P\<close>).
\<close>

lemma split_double:
  fixes q c A P m :: nat
  assumes "2 * q + c = A * 2 ^ (128 - m) + P" "c \<le> 1" "P < 2 ^ (128 - m)" "m < 128"
  shows "q div 2 ^ 127 = A div 2 ^ m"
    and "(2 * q + c) mod 2 ^ 128 = A mod 2 ^ m * 2 ^ (128 - m) + P"
proof -
  have e: "(2 ^ 128 :: nat) = 2 ^ (128 - m) * 2 ^ m" using assms(4) by (simp flip: power_add)
  have "(2 * q + c) div 2 = q" using assms(2) by (cases c) auto
  then have "q div 2 ^ 127 = (2 * q + c) div (2 * 2 ^ 127)" by (simp only: div_mult2_eq)
  also have "\<dots> = (A * 2 ^ (128 - m) + P) div 2 ^ 128" using assms(1) by simp
  also have "\<dots> = A div 2 ^ m" unfolding e div_mult2_eq using assms(3) by simp
  finally show "q div 2 ^ 127 = A div 2 ^ m" .
  have "(A * 2 ^ (128 - m) + P) mod 2 ^ 128 =
      2 ^ (128 - m) * ((A * 2 ^ (128 - m) + P) div 2 ^ (128 - m) mod 2 ^ m) +
      (A * 2 ^ (128 - m) + P) mod 2 ^ (128 - m)"
    unfolding e by (rule mod_mult2_eq)
  also have "\<dots> = A mod 2 ^ m * 2 ^ (128 - m) + P" using assms(3) by simp
  finally show "(2 * q + c) mod 2 ^ 128 = A mod 2 ^ m * 2 ^ (128 - m) + P"
    using assms(1) by simp
qed

lemma divloop_correct:
  assumes "unat d < 2 ^ 127" "unat (all_of r) < unat d" "unat carry \<le> 1" "sr \<le> 127"
    and "2 * unat (all_of q) + unat carry = A * 2 ^ (129 - sr) + P"
    and "A < 2 ^ sr" "P < 2 ^ (128 - sr)"
    and "divloop sr d q r carry = (q', r', carry')"
  shows "(2 * unat (all_of q') + unat carry') mod 2 ^ 128 =
      P * 2 ^ sr + (unat (all_of r) * 2 ^ sr + A) div unat d \<and>
    unat (all_of r') = (unat (all_of r) * 2 ^ sr + A) mod unat d \<and> unat carry' \<le> 1"
  using assms
proof (induction sr arbitrary: q r carry A P)
  case 0
  then show ?case by simp
next
  case (Suc m)
  let ?D = "unat d" and ?R = "unat (all_of r)"
  obtain q1 r1 c1 where b: "loop_body d q r carry = (q1, r1, c1)" by (cases "loop_body d q r carry")
  define x where "x = 2 * ?R + unat (all_of q) div 2 ^ 127"
  have m: "129 - Suc m = 128 - m" "m < 128" using Suc.prems(4) by simp_all
  have e: "129 - m = Suc (128 - m)" "128 - m = Suc (128 - Suc m)" using Suc.prems(4) by simp_all
  have P: "P < 2 ^ (128 - m)"
    using Suc.prems(7) by (rule order.strict_trans2) (simp add: power_increasing)
  note sd = split_double [OF Suc.prems(5) [unfolded m(1)] Suc.prems(3) P m(2)]
  have Ad: "A div 2 ^ m < 2" using Suc.prems(6) by (simp add: less_mult_imp_div_less)
  then have x2: "x < 2 * ?D" unfolding x_def sd(1) using Suc.prems(2) by linarith
  then have x3: "x < 2 ^ 128" "?D \<le> x + 2 ^ 127" "x < ?D + 2 ^ 127" using Suc.prems(1) by simp_all
  note step = loop_body_nat [OF b Suc.prems(3) x_def x3]
  have r1: "unat (all_of r1) < ?D" unfolding step(2) using x2 by auto
  have split: "?R * 2 ^ Suc m + A = x * 2 ^ m + A mod 2 ^ m"
    unfolding x_def sd(1) using div_mult_mod_eq [of A "2 ^ m"] by (simp add: algebra_simps)
  have c: "x = of_bool (?D \<le> x) * ?D + unat (all_of r1)" unfolding step(2) by simp
  have "2 * unat (all_of q1) + unat c1 = A mod 2 ^ m * 2 ^ (129 - m) + (2 * P + of_bool (?D \<le> x))"
    unfolding step(1,3) sd(2) e(1) by simp
  moreover have "2 * P + of_bool (?D \<le> x) < 2 ^ (128 - m)"
    using Suc.prems(7) unfolding e(2) by (simp add: of_bool_def)
  ultimately have ih: "(2 * unat (all_of q') + unat carry') mod 2 ^ 128 =
      (2 * P + of_bool (?D \<le> x)) * 2 ^ m + (unat (all_of r1) * 2 ^ m + A mod 2 ^ m) div ?D \<and>
    unat (all_of r') = (unat (all_of r1) * 2 ^ m + A mod 2 ^ m) mod ?D \<and> unat carry' \<le> 1"
    using Suc.prems(1,4,8) r1 b step(3) by (intro Suc.IH) simp_all
  have tot: "?R * 2 ^ Suc m + A =
      of_bool (?D \<le> x) * 2 ^ m * ?D + (unat (all_of r1) * 2 ^ m + A mod 2 ^ m)"
    unfolding split by (subst c) (simp add: algebra_simps)
  have "?D \<noteq> 0" using Suc.prems(2) by simp
  note dm = div_mult_self3 [OF this] mod_mult_self3 [of _ ?D]
  show ?case using ih unfolding tot dm by (simp add: algebra_simps)
qed

lemma shifted_out:
  fixes N sr :: nat
  assumes "sr \<le> 128"
  shows "N * 2 ^ (128 - sr) mod 2 ^ 128 = N mod 2 ^ sr * 2 ^ (128 - sr)"
proof -
  have "(2 ^ 128 :: nat) = 2 ^ sr * 2 ^ (128 - sr)" using assms by (simp flip: power_add)
  then show ?thesis by (simp only: mult_mod_left [symmetric])
qed

lemma word_divmod:
  fixes n d :: "128 word"
  shows "unat x = unat n div unat d \<Longrightarrow> x = n div d" "unat x = unat n mod unat d \<Longrightarrow> x = n mod d"
  by (simp_all add: word_unat_eq_iff unat_div_distrib unat_mod_distrib)

text \<open>What the branches have to set up, and that the loop then yields quotient and remainder.\<close>

lemma finish_div_correct:
  fixes n d :: "128 word"
  assumes "1 \<le> sr" "sr \<le> 127"
    and "unat (all_of r) = unat n div 2 ^ sr"
    and "unat (all_of q) = unat n * 2 ^ (128 - sr) mod 2 ^ 128"
    and "unat n div 2 ^ sr < unat d"
    and "unat d < 2 ^ 127 \<or> sr = 1 \<and> 2 ^ 127 \<le> unat n"
  shows "finish_div sr d q r = Inr (n div d, n mod d)"
proof -
  obtain q' r' c' where l: "divloop sr d q r 0 = (q', r', c')" by (cases "divloop sr d q r 0")
  have Q: "unat (all_of q) = unat n mod 2 ^ sr * 2 ^ (128 - sr)"
    unfolding assms(4) using assms(2) by (intro shifted_out) simp
  have "(2 * unat (all_of q') + unat c') mod 2 ^ 128 = unat n div unat d \<and>
    unat (all_of r') = unat n mod unat d \<and> unat c' \<le> 1"
  proof (cases "unat d < 2 ^ 127")
    case True
    have e: "129 - sr = Suc (128 - sr)" using assms(2) by simp
    have "2 * unat (all_of q) + unat (0 :: 32 word) = unat n mod 2 ^ sr * 2 ^ (129 - sr) + 0"
      unfolding Q e by simp
    from divloop_correct [OF True _ _ assms(2) this _ _ l] show ?thesis
      using assms(3,5) by (simp add: div_mult_mod_eq)
  next
    case False
    then have sr: "sr = 1" "2 ^ 127 \<le> unat n" using assms(6) by simp_all
    have b: "loop_body d q r 0 = (q', r', c')" using l sr by (simp split: prod.splits)
    have "unat (all_of q) div 2 ^ 127 = unat n mod 2" unfolding Q sr by simp
    then have x: "unat n = 2 * unat (all_of r) + unat (all_of q) div 2 ^ 127"
      using assms(3) sr(1) by simp
    have lt: "unat n < 2 ^ 128" "unat d < 2 ^ 128" using unat_lt2p [of n] unat_lt2p [of d] by simp_all
    note step = loop_body_nat [OF b _ x]
    have "2 * (unat n mod 2 * 2 ^ 127) mod 2 ^ 128 = (0 :: nat)" by simp
    then have q0: "unat (all_of q') = 0" using step(1) lt sr(2) False unfolding Q sr by simp
    have "unat n div unat d = of_bool (unat d \<le> unat n)"
      using lt False by (auto simp: div_nat_eqI)
    moreover have "unat n mod unat d = (if unat d \<le> unat n then unat n - unat d else unat n)"
      using lt False by (auto simp: le_mod_geq)
    ultimately show ?thesis using step(2,3) q0 lt sr(2) False by simp
  qed
  note res = this
  have "unat (ucast c' :: 128 word) = unat c'"
    using res unfolding unsigned_ucast_eq take_bit_eq_mod by simp
  then have "unat (push_bit 1 (all_of q') OR ucast c') = unat n div unat d"
    using res by (subst unat_shl1_or) simp_all
  then have "push_bit 1 (all_of q') OR ucast c' = n div d" by (rule word_divmod)
  moreover have "all_of r' = n mod d" using res by (intro word_divmod) simp
  ultimately show ?thesis using l unfolding finish_div_def by (simp only: prod.case)
qed

section \<open>Leading and trailing zeros\<close>

lemma bit_nat: "bit x n \<longleftrightarrow> odd (unat x div 2 ^ n)" for x :: "64 word"
proof (cases "n < 64")
  case True then show ?thesis
    unfolding bit_iff_odd [symmetric] bit_unsigned_iff by simp
next
  case False
  then have "(2 ^ 64 :: nat) \<le> 2 ^ n" by (intro power_increasing) simp_all
  moreover have "unat x < 2 ^ 64" using unat_lt2p [of x] by simp
  ultimately have "unat x < 2 ^ n" by (rule order.strict_trans2 [rotated])
  then show ?thesis using False by (simp add: bit_out)
qed

lemma clz_from_bounds:
  assumes "x \<noteq> 0" "unat x < 2 ^ k" "k \<le> 64"
  shows "clz_from k x \<le> 63 \<and> 2 ^ (63 - clz_from k x) \<le> unat x \<and> unat x < 2 ^ (64 - clz_from k x)"
  using assms
proof (induction k)
  case 0
  then show ?case by (simp add: unat_eq_0)
next
  case (Suc k)
  have q: "unat x div 2 ^ k < 2" using Suc.prems(2) by (simp add: less_mult_imp_div_less)
  show ?case
  proof (cases "bit x k")
    case True
    then have "unat x div 2 ^ k \<noteq> 0" unfolding bit_nat by (metis even_zero)
    then have "2 ^ k \<le> unat x" by (metis div_less not_less)
    moreover have "63 - (63 - k) = k" "64 - (63 - k) = Suc k" using Suc.prems(3) by simp_all
    ultimately show ?thesis using True Suc.prems(2) by simp
  next
    case False
    then have "unat x div 2 ^ k = 0" using q by (auto simp: bit_nat less_2_cases_iff)
    then have "unat x < 2 ^ k" by (simp add: div_eq_0_iff)
    then show ?thesis using False Suc by simp
  qed
qed

lemma clzll_bounds:
  assumes "x \<noteq> 0"
  obtains c where "clzll x = Inr c" "c \<le> 63" "2 ^ (63 - c) \<le> unat x" "unat x < 2 ^ (64 - c)"
  using clz_from_bounds [OF assms, of 64] unat_lt2p [of x] assms by (auto simp: clzll_def)

lemma ctz_of_power: "unat x = 2 ^ e \<Longrightarrow> k \<le> e \<Longrightarrow> e < k + n \<Longrightarrow> ctz_upto n k x = e"
proof (induction n arbitrary: k)
  case (Suc n)
  show ?case
  proof (cases "k = e")
    case True
    then show ?thesis using Suc.prems(1) by (simp add: bit_nat)
  next
    case False
    then have "e = Suc (e - Suc k) + k" using Suc.prems(2) by simp
    then have "(2 ^ e :: nat) = 2 ^ Suc (e - Suc k) * 2 ^ k" by (metis power_add)
    then have "\<not> bit x k" using Suc.prems(1) by (simp add: bit_nat)
    then show ?thesis using False Suc by simp
  qed
qed simp

text \<open>The test \<open>x & (x - 1) == 0\<close> recognises the powers of two.\<close>

lemma power_of_two:
  assumes "x AND (x - 1) = 0" "x \<noteq> (0 :: 64 word)"
  obtains k where "ctzll x = Inr k" "k \<le> 63" "unat x = 2 ^ k"
proof -
  obtain c where c: "c \<le> 63" "2 ^ (63 - c) \<le> unat x" "unat x < 2 ^ (64 - c)"
    using clzll_bounds [OF assms(2)] by blast
  define e where "e = 63 - c"
  have e': "64 - c = Suc (63 - c)" using c(1) by simp
  have e: "2 ^ e \<le> unat x" "unat x < 2 * 2 ^ e" "e \<le> 63"
    using c by (simp_all add: e_def e' flip: power_Suc)
  have top: "bit y e" if "2 ^ e \<le> unat y" "unat y < 2 * 2 ^ e" for y :: "64 word"
  proof -
    have "unat y div 2 ^ e = 1" using that by (intro div_nat_eqI) simp_all
    then show ?thesis by (simp add: bit_nat)
  qed
  have "unat x = 2 ^ e"
  proof (rule ccontr)
    assume "unat x \<noteq> 2 ^ e"
    moreover have "unat (x - 1) = unat x - 1" using assms(2) by (simp add: unat_minus_one)
    ultimately have "bit (x - 1) e" using e by (intro top) simp_all
    with top [OF e(1,2)] have "bit (x AND (x - 1)) e" by (simp add: bit_and_iff)
    with assms(1) show False by simp
  qed
  then show thesis using that [of e] e(3) assms(2) by (simp add: ctzll_def ctz_of_power)
qed

section \<open>The branches\<close>

declare n_udword_bits_def [simp] n_utword_bits_def [simp]

lemma shr_halves:
  assumes "0 < k" "k < 64"
  shows "all_of \<lparr>s_low = push_bit (64 - k) h OR drop_bit k l, s_high = drop_bit k h\<rparr> =
    drop_bit k (all_of \<lparr>s_low = l, s_high = h\<rparr>)"
proof (rule bit_word_eqI)
  fix n :: nat
  assume "n < LENGTH(128)"
  have a: "64 - k \<le> n \<longleftrightarrow> \<not> k + n < 64" "n - (64 - k) = k + n - 64"
    "\<not> n < 64 \<Longrightarrow> k + (n - 64) = k + n - 64" using assms by auto
  have "\<not> k + n < 64 \<Longrightarrow> \<not> bit l (k + n)" by (rule bit_out) simp
  then show "bit (all_of \<lparr>s_low = push_bit (64 - k) h OR drop_bit k l, s_high = drop_bit k h\<rparr>) n =
      bit (drop_bit k (all_of \<lparr>s_low = l, s_high = h\<rparr>)) n"
    using a by (auto simp: bit_all_of bit_or_iff bit_push_bit_iff bit_drop_bit_eq)
qed

lemma shl_past_low:
  assumes "64 \<le> k"
  shows "all_of \<lparr>s_low = 0, s_high = push_bit (k - 64) l\<rparr> = push_bit k (all_of \<lparr>s_low = l, s_high = h\<rparr>)"
proof (rule bit_word_eqI)
  fix n :: nat
  assume "n < LENGTH(128)"
  then have "n - k < 64" "n - 64 < 64" "k - 64 \<le> n - 64 \<and> \<not> n < 64 \<longleftrightarrow> k \<le> n"
    "k \<le> n \<Longrightarrow> n - 64 - (k - 64) = n - k" "n < 64 \<Longrightarrow> \<not> k \<le> n" using assms by auto
  then show "bit (all_of \<lparr>s_low = 0, s_high = push_bit (k - 64) l\<rparr>) n =
      bit (push_bit k (all_of \<lparr>s_low = l, s_high = h\<rparr>)) n"
    using \<open>n < LENGTH(128)\<close> by (auto simp: bit_all_of bit_push_bit_iff)
qed

lemma shr_past_low:
  assumes "64 \<le> k"
  shows "all_of \<lparr>s_low = drop_bit (k - 64) h, s_high = 0\<rparr> = drop_bit k (all_of \<lparr>s_low = l, s_high = h\<rparr>)"
proof (rule bit_word_eqI)
  fix n :: nat
  have "k - 64 + n = k + n - 64" "\<not> k + n < 64" using assms by auto
  moreover have "\<not> n < 64 \<Longrightarrow> \<not> bit h (k + n - 64)" using assms by (intro bit_out) simp
  ultimately show "bit (all_of \<lparr>s_low = drop_bit (k - 64) h, s_high = 0\<rparr>) n =
      bit (drop_bit k (all_of \<lparr>s_low = l, s_high = h\<rparr>)) n"
    by (auto simp: bit_all_of bit_drop_bit_eq)
qed

text \<open>The quotient and remainder registers as the comments of the source describe them.\<close>

definition set_up :: "nat \<Rightarrow> 128 word \<Rightarrow> utwords \<Rightarrow> utwords \<Rightarrow> bool" where
  "set_up sr n q r \<longleftrightarrow> all_of q = push_bit (128 - sr) n \<and> all_of r = drop_bit sr n"

lemma split_low_set_up:
  assumes "1 \<le> sr" "sr \<le> 63"
  obtains q r where "split_low sr (of_all n) = Inr (q, r)" "set_up sr n q r"
proof -
  obtain l h where n: "of_all n = \<lparr>s_low = l, s_high = h\<rparr>" by (cases "of_all n")
  then have a: "all_of \<lparr>s_low = l, s_high = h\<rparr> = n" by (metis all_of_all)
  have "128 - sr - 64 = 64 - sr" using assms by simp
  then show thesis
    using that assms shr_halves [of sr h l] shl_past_low [of "128 - sr" l h]
    by (simp add: split_low_def n shl_def shr_def set_up_def a)
qed

lemma whole_set_up:
  assumes "of_all n = \<lparr>s_low = l, s_high = h\<rparr>"
  shows "set_up 64 n \<lparr>s_low = 0, s_high = l\<rparr> \<lparr>s_low = h, s_high = 0\<rparr>"
    and "65 \<le> sr \<Longrightarrow> sr \<le> 127 \<Longrightarrow>
      set_up sr n \<lparr>s_low = push_bit (128 - sr) l,
          s_high = push_bit (128 - sr) h OR drop_bit (sr - 64) l\<rparr>
        \<lparr>s_low = drop_bit (sr - 64) h, s_high = 0\<rparr>"
proof -
  have a: "all_of \<lparr>s_low = l, s_high = h\<rparr> = n" using assms by (metis all_of_all)
  show "set_up 64 n \<lparr>s_low = 0, s_high = l\<rparr> \<lparr>s_low = h, s_high = 0\<rparr>"
    using shl_past_low [of 64 l h] shr_past_low [of 64 h l] by (simp add: set_up_def a)
  assume sr: "65 \<le> sr" "sr \<le> 127"
  then have e: "64 - (128 - sr) = sr - 64" by simp
  show "set_up sr n \<lparr>s_low = push_bit (128 - sr) l,
          s_high = push_bit (128 - sr) h OR drop_bit (sr - 64) l\<rparr>
        \<lparr>s_low = drop_bit (sr - 64) h, s_high = 0\<rparr>"
    using shl_halves [of "128 - sr" l 0 h] shr_past_low [of sr h l] sr
    by (simp add: set_up_def a e)
qed

lemma finish_set_up:
  fixes n d :: "128 word"
  assumes "set_up sr n q r" "1 \<le> sr" "sr \<le> 127" "2 ^ e \<le> unat d" "unat d < 2 ^ Suc e"
    and "unat n < 2 ^ (e + sr)" "e \<le> 126 \<or> sr = 1 \<and> 2 ^ 127 \<le> unat n"
  shows "finish_div sr d q r = Inr (n div d, n mod d)"
proof (rule finish_div_correct [OF assms(2,3)])
  show "unat (all_of r) = unat n div 2 ^ sr"
    using assms(1) by (simp only: set_up_def unat_drop)
  show "unat (all_of q) = unat n * 2 ^ (128 - sr) mod 2 ^ 128"
    using assms(1) by (simp only: set_up_def unat_push)
  have "unat n div 2 ^ sr < 2 ^ e" using assms(6) by (simp add: less_mult_imp_div_less power_add)
  then show "unat n div 2 ^ sr < unat d" using assms(4) by simp
  show "unat d < 2 ^ 127 \<or> sr = 1 \<and> 2 ^ 127 \<le> unat n"
  proof (cases "e \<le> 126")
    case True
    then have "(2 ^ Suc e :: nat) \<le> 2 ^ 127" by (intro power_increasing) simp_all
    then show ?thesis using assms(5) by simp
  qed (use assms(7) in simp)
qed

lemma sub_unsigned_cases:
  assumes "cd \<le> 63" "cn \<le> 63"
  shows "sub_unsigned cd cn = (if cn \<le> cd then cd - cn else 2 ^ 32 + cd - cn)"
proof (cases "cn \<le> cd")
  case False
  have "(int cd - int cn) mod 2 ^ 32 = (int cd - int cn + 2 ^ 32) mod 2 ^ 32" by simp
  also have "\<dots> = int cd - int cn + 2 ^ 32" using assms False by (intro mod_pos_pos_trivial) simp_all
  finally show ?thesis using assms False by (simp add: sub_unsigned_def)
qed (use assms in \<open>simp add: sub_unsigned_def\<close>)

lemma sub_unsigned_large:
  assumes "cd < cn" "cn \<le> 63"
  shows "63 < sub_unsigned cd cn" "62 < sub_unsigned cd cn"
  using assms by (auto simp: sub_unsigned_cases)

lemma unat_halves: "unat a = unat (s_high (of_all a)) * 2 ^ 64 + unat (s_low (of_all a))"
  using unat_all_of [of "of_all a"] by simp

lemma lt64: "unat (x :: 64 word) < 2 ^ 64"
  using unat_lt2p [of x] by simp

lemma word_mask: "unat (x AND (y - 1)) = unat x mod 2 ^ k" if "unat y = 2 ^ k" "k \<le> 63"
  for x y :: "64 word"
proof -
  have "y = of_nat (unat y)" by simp
  then have "y = 2 ^ k" using that(1) by simp
  then have "x AND (y - 1) = take_bit k x" by (simp add: take_bit_eq_mask mask_eq_exp_minus_1)
  then show ?thesis by (simp only: unsigned_take_bit_eq) (simp add: take_bit_eq_mod)
qed

lemma high_bound:
  assumes "unat (s_high (of_all a)) < 2 ^ (64 - c)" "2 ^ (63 - c) \<le> unat (s_high (of_all a))" "c \<le> 63"
  shows "unat a < 2 ^ (128 - c)" "2 ^ (127 - c) \<le> unat a"
proof -
  have e: "(2 ^ (128 - c) :: nat) = 2 ^ (64 - c) * 2 ^ 64" "(2 ^ (127 - c) :: nat) = 2 ^ (63 - c) * 2 ^ 64"
    unfolding power_add [symmetric] using assms(3) by simp_all
  have "Suc (unat (s_high (of_all a))) * 2 ^ 64 \<le> 2 ^ (128 - c)"
    unfolding e using assms(1) by (intro mult_right_mono) simp_all
  then show "unat a < 2 ^ (128 - c)"
    using lt64 [of "s_low (of_all a)"] by (subst unat_halves) simp
  have "2 ^ (63 - c) * 2 ^ 64 \<le> unat (s_high (of_all a)) * 2 ^ 64"
    using assms(2) by (rule mult_right_mono) simp
  then show "2 ^ (127 - c) \<le> unat a" unfolding e by (subst unat_halves) (rule trans_le_add1)
qed

lemma less_divmod:
  fixes a b :: "128 word"
  assumes "unat a < unat b"
  shows "a div b = 0" "a mod b = a"
proof -
  have "unat (0 :: 128 word) = unat a div unat b" using assms by simp
  from word_divmod(1) [OF this] show "a div b = 0" by simp
  have "unat a = unat a mod unat b" using assms by simp
  from word_divmod(2) [OF this] show "a mod b = a" by simp
qed

lemma high_compare:
  assumes "cn \<le> 63" "unat (s_high (of_all a)) < 2 ^ (64 - cn)" "cd < cn"
    and "2 ^ (63 - cd) \<le> unat (s_high (of_all b))" 
  shows "unat a < unat b"
proof -
  have "(2 ^ (64 - cn) :: nat) \<le> 2 ^ (63 - cd)" using assms(1,3) by (intro power_increasing) simp_all
  then have "Suc (unat (s_high (of_all a))) \<le> unat (s_high (of_all b))"
    using assms(2,4) by linarith
  then have "Suc (unat (s_high (of_all a))) * 2 ^ 64 \<le> unat (s_high (of_all b)) * 2 ^ 64"
    by (rule mult_right_mono) simp
  then show ?thesis
    using lt64 [of "s_low (of_all a)"] unat_halves [of a] unat_halves [of b] by simp
qed

text \<open>Both operands reach into the upper half.\<close>

lemma finish_high:
  assumes "cd \<le> 63" "2 ^ (63 - cd) \<le> unat (s_high (of_all b))" "unat (s_high (of_all b)) < 2 ^ (64 - cd)"
    and "cn \<le> 63" "2 ^ (63 - cn) \<le> unat (s_high (of_all a))" "unat (s_high (of_all a)) < 2 ^ (64 - cn)"
    and "cn \<le> cd" "set_up (Suc (cd - cn)) a q r"
  shows "finish_div (Suc (cd - cn)) b q r = Inr (a div b, a mod b)"
proof (rule finish_set_up [OF assms(8), where e = "127 - cd"])
  note a = high_bound [OF assms(6,5,4)] and b = high_bound [OF assms(3,2,1)]
  show "1 \<le> Suc (cd - cn)" "Suc (cd - cn) \<le> 127" using assms(1) by simp_all
  show "2 ^ (127 - cd) \<le> unat b" by (rule b)
  have e: "Suc (127 - cd) = 128 - cd" "127 - cd + Suc (cd - cn) = 128 - cn" using assms(1,7) by simp_all
  show "unat b < 2 ^ Suc (127 - cd)" "unat a < 2 ^ (127 - cd + Suc (cd - cn))"
    unfolding e by (rule a(1) b(1))+
  show "127 - cd \<le> 126 \<or> Suc (cd - cn) = 1 \<and> 2 ^ 127 \<le> unat a"
    using a(2) assms(1,7) by (cases cd) simp_all
qed

lemma divmod_upper:
  assumes "s_low (of_all b) = 0" "s_high (of_all b) \<noteq> 0"
  shows "unat a div unat b = unat (s_high (of_all a)) div unat (s_high (of_all b))"
    and "unat a mod unat b = unat (s_high (of_all a)) mod unat (s_high (of_all b)) * 2 ^ 64 +
      unat (s_low (of_all a))"
proof -
  have b: "unat b = 2 ^ 64 * unat (s_high (of_all b))"
    using assms(1) by (subst unat_halves) simp
  have h: "unat a div 2 ^ 64 = unat (s_high (of_all a))" "unat a mod 2 ^ 64 = unat (s_low (of_all a))"
    using lt64 [of "s_low (of_all a)"] by (subst unat_halves; simp)+
  show "unat a div unat b = unat (s_high (of_all a)) div unat (s_high (of_all b))"
    unfolding b div_mult2_eq h ..
  show "unat a mod unat b = unat (s_high (of_all a)) mod unat (s_high (of_all b)) * 2 ^ 64 +
      unat (s_low (of_all a))"
    unfolding b mod_mult2_eq h by (simp only: mult.commute)
qed

lemma divmod_lower:
  assumes "s_high (of_all b) = 0"
  shows "unat b = unat (s_low (of_all b))"
  using assms by (subst unat_halves) simp

lemma divmod_lower_power:
  assumes "s_high (of_all b) = 0" "unat (s_low (of_all b)) = 2 ^ k" "k \<le> 63"
  shows "a mod b = ucast (s_low (of_all a) AND (s_low (of_all b) - 1))" "a div b = drop_bit k a"
proof -
  have b: "unat b = 2 ^ k" using divmod_lower [OF assms(1)] assms(2) by simp
  have "(2 ^ 64 :: nat) = 2 ^ (64 - k) * 2 ^ k" using assms(3) by (simp flip: power_add)
  then have "unat a mod 2 ^ k = unat (s_low (of_all a)) mod 2 ^ k"
    by (subst unat_halves) (metis mod_mult_self3 mult.assoc)
  then have "unat (ucast (s_low (of_all a) AND (s_low (of_all b) - 1)) :: 128 word) = unat a mod unat b"
    unfolding unat_cast_up word_mask [OF assms(2,3)] b by simp
  from word_divmod(2) [OF this]
  show "a mod b = ucast (s_low (of_all a) AND (s_low (of_all b) - 1))" by simp
  have "unat (drop_bit k a) = unat a div unat b" unfolding b by (rule unat_drop)
  from word_divmod(1) [OF this] show "a div b = drop_bit k a" by simp
qed

text \<open>The branch for a divisor in the lower half that is no power of two.\<close>

lemma finish_low:
  assumes "cd \<le> 62" "2 ^ (63 - cd) \<le> unat b" "unat b < 2 ^ (64 - cd)"
    and "cn \<le> 63" "unat a < 2 ^ (128 - cn)" "set_up (65 + cd - cn) a q r"
  shows "finish_div (65 + cd - cn) b q r = Inr (a div b, a mod b)"
proof (rule finish_set_up [OF assms(6), where e = "63 - cd"])
  show "1 \<le> 65 + cd - cn" "65 + cd - cn \<le> 127" "63 - cd \<le> 126 \<or> 65 + cd - cn = 1 \<and> 2 ^ 127 \<le> unat a"
    using assms(1,4) by auto
  show "2 ^ (63 - cd) \<le> unat b" by (rule assms(2))
  have e: "Suc (63 - cd) = 64 - cd" "63 - cd + (65 + cd - cn) = 128 - cn" using assms(1,4) by simp_all
  show "unat b < 2 ^ Suc (63 - cd)" "unat a < 2 ^ (63 - cd + (65 + cd - cn))"
    unfolding e by (rule assms(3,5))+
qed

lemma not_one_clz:
  assumes "x AND (x - 1) \<noteq> 0" "2 ^ (63 - c) \<le> unat x" "unat x < 2 ^ (64 - c)" "c \<le> 63"
  shows "c \<le> 62"
proof (rule ccontr)
  assume "\<not> c \<le> 62"
  then have "c = 63" using assms(4) by simp
  then have "unat x = 1" using assms(2,3) by simp
  then have "x = 1" by (simp add: word_unat_eq_iff)
  with assms(1) show False by simp
qed

section \<open>Correctness\<close>

text \<open>The two branches for a small numerator.\<close>

lemma divmod_small:
  assumes "s_high (of_all a) = 0" "b \<noteq> 0"
  shows "udivmodti4 a b = Inr (a div b, a mod b)"
proof (cases "s_high (of_all b) = 0")
  case True
  have l: "unat b = unat (s_low (of_all b))" "unat a = unat (s_low (of_all a))"
    using divmod_lower True assms(1) by blast+
  then have "s_low (of_all b) \<noteq> 0" using assms(2) by (auto simp: word_unat_eq_iff)
  moreover have "ucast (s_low (of_all a) div s_low (of_all b)) = a div b"
    by (rule word_divmod) (simp only: unat_cast_up l unat_div_distrib)
  moreover have "ucast (s_low (of_all a) mod s_low (of_all b)) = a mod b"
    by (rule word_divmod) (simp only: unat_cast_up l unat_mod_distrib)
  ultimately show ?thesis using True assms(1) by (simp add: udivmodti4_def div64_def mod64_def)
next
  case False
  have "ucast (s_low (of_all a)) = a"
    unfolding word_unat_eq_iff unat_cast_up using divmod_lower [OF assms(1)] by simp
  moreover have "0 < unat (s_high (of_all b))" using False by (simp add: word_gt_0 unat_gt_0)
  then have "1 * 2 ^ 64 \<le> unat (s_high (of_all b)) * 2 ^ 64" by (intro mult_right_mono) simp_all
  then have "unat a < unat b"
    using divmod_lower [OF assms(1)] lt64 [of "s_low (of_all a)"] unat_halves [of b] by linarith
  ultimately show ?thesis
    using False assms(1) less_divmod [of a b] by (simp add: udivmodti4_def Let_def)
qed

lemma divmod_upper_only:
  assumes "s_high (of_all a) \<noteq> 0" "s_low (of_all b) = 0" "b \<noteq> 0"
  shows "udivmodti4 a b = Inr (a div b, a mod b)"
proof -
  have h: "s_high (of_all b) \<noteq> 0" using assms(2,3) unat_halves [of b] by (auto simp: word_unat_eq_iff)
  note dm = divmod_upper [OF assms(2) h, of a]
  consider (zero) "s_low (of_all a) = 0"
    | (power) "s_low (of_all a) \<noteq> 0" "s_high (of_all b) AND (s_high (of_all b) - 1) = 0"
    | (loop) "s_low (of_all a) \<noteq> 0" "s_high (of_all b) AND (s_high (of_all b) - 1) \<noteq> 0" by blast
  then show ?thesis
  proof cases
    case zero
    have "ucast (s_high (of_all a) div s_high (of_all b)) = a div b"
      by (rule word_divmod) (simp only: unat_cast_up dm unat_div_distrib)
    moreover have "all_of \<lparr>s_low = 0, s_high = s_high (of_all a) mod s_high (of_all b)\<rparr> = a mod b"
      by (rule word_divmod)
         (simp only: unat_all_of utwords.select_convs dm zero unat_mod_distrib unsigned_0)
    ultimately show ?thesis
      using zero assms h by (simp add: udivmodti4_def div64_def mod64_def)
  next
    case power
    obtain k where k: "ctzll (s_high (of_all b)) = Inr k" "k \<le> 63" "unat (s_high (of_all b)) = 2 ^ k"
      using power_of_two [OF power(2) h] by blast
    have "ucast (drop_bit k (s_high (of_all a))) = a div b"
      by (rule word_divmod) (simp only: unat_cast_up dm unat_drop k)
    moreover have "all_of \<lparr>s_low = s_low (of_all a),
        s_high = s_high (of_all a) AND (s_high (of_all b) - 1)\<rparr> = a mod b"
      by (rule word_divmod)
         (simp only: unat_all_of utwords.select_convs dm word_mask [OF k(3,2)] k(3))
    ultimately show ?thesis
      using power assms h k by (simp add: udivmodti4_def shr_def)
  next
    case loop
    obtain cd where d: "clzll (s_high (of_all b)) = Inr cd" "cd \<le> 63"
      "2 ^ (63 - cd) \<le> unat (s_high (of_all b))" "unat (s_high (of_all b)) < 2 ^ (64 - cd)"
      using clzll_bounds [OF h] by blast
    obtain cn where n: "clzll (s_high (of_all a)) = Inr cn" "cn \<le> 63"
      "2 ^ (63 - cn) \<le> unat (s_high (of_all a))" "unat (s_high (of_all a)) < 2 ^ (64 - cn)"
      using clzll_bounds [OF assms(1)] by blast
    have cd: "cd \<le> 62" using not_one_clz [OF loop(2) d(3,4,2)] .
    show ?thesis
    proof (cases "cn \<le> cd")
      case True
      have le: "1 \<le> Suc (cd - cn)" "Suc (cd - cn) \<le> 63" using cd by simp_all
      obtain q r where s: "split_low (Suc (cd - cn)) (of_all a) = Inr (q, r)"
        "set_up (Suc (cd - cn)) a q r" by (rule split_low_set_up [OF le])
      from le show ?thesis
        using s finish_high [OF d(2,3,4) n(2,3,4) True s(2)] True loop assms h n d
        by (simp add: udivmodti4_def sub_unsigned_cases Let_def)
    next
      case False
      then have "cd < cn" by simp
      then show ?thesis
        using less_divmod [OF high_compare [OF n(2,4) _ d(3)]] loop assms h n d
        by (simp add: udivmodti4_def sub_unsigned_large Let_def)
    qed
  qed
qed

lemma divmod_lower_only:
  assumes "s_high (of_all a) \<noteq> 0" "s_low (of_all b) \<noteq> 0" "s_high (of_all b) = 0"
  shows "udivmodti4 a b = Inr (a div b, a mod b)"
proof (cases "s_low (of_all b) AND (s_low (of_all b) - 1) = 0")
  case True
  obtain k where k: "ctzll (s_low (of_all b)) = Inr k" "k \<le> 63" "unat (s_low (of_all b)) = 2 ^ k"
    using power_of_two [OF True assms(2)] by blast
  note dm = divmod_lower_power [OF assms(3) k(3,2), of a]
  show ?thesis
  proof (cases "k = 0")
    case True
    then have "s_low (of_all b) = 1" using k(3) by (simp add: word_unat_eq_iff)
    then show ?thesis using assms dm True by (simp add: udivmodti4_def Let_def)
  next
    case False
    then have "s_low (of_all b) \<noteq> 1" using k(3) by (auto simp: word_unat_eq_iff)
    moreover have "all_of \<lparr>s_low = push_bit (64 - k) (s_high (of_all a)) OR drop_bit k (s_low (of_all a)),
        s_high = drop_bit k (s_high (of_all a))\<rparr> = drop_bit k a"
      using shr_halves [of k "s_high (of_all a)" "s_low (of_all a)"] False k(2) by (simp add: surj_utwords)
    ultimately show ?thesis
      using assms True k False dm by (simp add: udivmodti4_def Let_def shl_def shr_def)
  qed
next
  case False
  obtain cd where d: "clzll (s_low (of_all b)) = Inr cd" "cd \<le> 63"
    "2 ^ (63 - cd) \<le> unat (s_low (of_all b))" "unat (s_low (of_all b)) < 2 ^ (64 - cd)"
    using clzll_bounds [OF assms(2)] by blast
  obtain cn where n: "clzll (s_high (of_all a)) = Inr cn" "cn \<le> 63"
    "2 ^ (63 - cn) \<le> unat (s_high (of_all a))" "unat (s_high (of_all a)) < 2 ^ (64 - cn)"
    using clzll_bounds [OF assms(1)] by blast
  have cd: "cd \<le> 62" using not_one_clz [OF False d(3,4,2)] .
  have b: "unat b = unat (s_low (of_all b))" by (rule divmod_lower [OF assms(3)])
  note fin = finish_low [OF cd d(3,4) [folded b] n(2) high_bound(1) [OF n(4,3,2)]]
  have surj: "of_all a = \<lparr>s_low = s_low (of_all a), s_high = s_high (of_all a)\<rparr>" by simp
  have sr: "1 + n_udword_bits + cd - cn = 65 + cd - cn" by simp
  consider "65 + cd - cn = 64" | "65 + cd - cn < 64" | "65 \<le> 65 + cd - cn" by linarith
  then show ?thesis
  proof cases
    case 1
    then show ?thesis
      using fin whole_set_up(1) [OF surj] assms False d n by (simp add: udivmodti4_def Let_def)
  next
    case 2
    then have le: "1 \<le> 65 + cd - cn" "65 + cd - cn \<le> 63" using n(2) by simp_all
    obtain q r where s: "split_low (65 + cd - cn) (of_all a) = Inr (q, r)"
      "set_up (65 + cd - cn) a q r" by (rule split_low_set_up [OF le])
    show ?thesis using fin s 2 assms False d n by (simp add: udivmodti4_def Let_def)
  next
    case 3
    have le: "65 + cd - cn \<le> 127" using cd by simp
    have "128 - (65 + cd - cn) < 64" "65 + cd - cn - 64 < 64" using 3 le by simp_all
    then show ?thesis
      using fin [OF whole_set_up(2) [OF surj 3 le]] 3 assms False d n
      by (simp add: udivmodti4_def Let_def shl_def shr_def)
  qed
qed

lemma divmod_both:
  assumes "s_high (of_all a) \<noteq> 0" "s_low (of_all b) \<noteq> 0" "s_high (of_all b) \<noteq> 0"
  shows "udivmodti4 a b = Inr (a div b, a mod b)"
proof -
  obtain cd where d: "clzll (s_high (of_all b)) = Inr cd" "cd \<le> 63"
    "2 ^ (63 - cd) \<le> unat (s_high (of_all b))" "unat (s_high (of_all b)) < 2 ^ (64 - cd)"
    using clzll_bounds [OF assms(3)] by blast
  obtain cn where n: "clzll (s_high (of_all a)) = Inr cn" "cn \<le> 63"
    "2 ^ (63 - cn) \<le> unat (s_high (of_all a))" "unat (s_high (of_all a)) < 2 ^ (64 - cn)"
    using clzll_bounds [OF assms(1)] by blast
  have surj: "of_all a = \<lparr>s_low = s_low (of_all a), s_high = s_high (of_all a)\<rparr>" by simp
  consider "cd < cn" | "cn \<le> cd" "cd - cn = 63" | "cn \<le> cd" "cd - cn \<le> 62" using d(2) by linarith
  then show ?thesis
  proof cases
    case 1
    then show ?thesis
      using less_divmod [OF high_compare [OF n(2,4) _ d(3)]] assms n d
      by (simp add: udivmodti4_def sub_unsigned_large Let_def)
  next
    case 2
    then have "set_up (Suc (cd - cn)) a \<lparr>s_low = 0, s_high = s_low (of_all a)\<rparr>
        \<lparr>s_low = s_high (of_all a), s_high = 0\<rparr>" using whole_set_up(1) [OF surj] by simp
    from finish_high [OF d(2,3,4) n(2,3,4) 2(1) this] 2 show ?thesis
      using assms n d by (simp add: udivmodti4_def sub_unsigned_cases Let_def)
  next
    case 3
    have le: "1 \<le> Suc (cd - cn)" "Suc (cd - cn) \<le> 63" using 3 by simp_all
    obtain q r where s: "split_low (Suc (cd - cn)) (of_all a) = Inr (q, r)"
      "set_up (Suc (cd - cn)) a q r" by (rule split_low_set_up [OF le])
    show ?thesis
      using s finish_high [OF d(2,3,4) n(2,3,4) 3(1) s(2)] 3 assms n d
      by (simp add: udivmodti4_def sub_unsigned_cases Let_def)
  qed
qed

text \<open>C17. 128-bit division is correct: for every numerator and every divisor other than 0,
  \<open>__udivmodti4\<close> returns the quotient and stores the remainder, no branch divides by zero or
  shifts by the operand width, and \<open>__udivti3\<close> and \<open>__umodti3\<close> return the two parts. A divisor of 0 is a
  division by zero.\<close>

theorem udivmodti4_correct:
  assumes "b \<noteq> 0"
  shows "udivmodti4 a b = Inr (a div b, a mod b) \<and> udivti3 a b = Inr (a div b) \<and>
    umodti3 a b = Inr (a mod b) \<and> udivmodti4 a 0 = Inl DivByZero"
proof -
  have "udivmodti4 a b = Inr (a div b, a mod b)"
    using divmod_small divmod_upper_only divmod_lower_only divmod_both assms by blast
  moreover have "udivmodti4 a 0 = Inl DivByZero"
    by (simp add: udivmodti4_def of_all_def mod64_def Let_def)
  ultimately show ?thesis by (simp add: udivti3_def umodti3_def)
qed

theorem udivmodti4_correct_witness:
  "udivmodti4 (2 ^ 127 + 12345) (2 ^ 70 + 7) =
     Inr ((2 ^ 127 + 12345) div (2 ^ 70 + 7), (2 ^ 127 + 12345) mod (2 ^ 70 + 7))"
  using udivmodti4_correct [of "2 ^ 70 + 7" "2 ^ 127 + 12345"] by simp

end
