(* ===== verification/Alloc.thy ===== *)
theory Alloc
  imports Prelude
begin

text \<open>
  The allocator ijvm.c hands to QuickJS: jemalloc behind a count of blocks, a count of bytes
  and a limit, kept in size\_t arithmetic. The contract \<open>malloc_functions\<close> is what QuickJS
  expects of its JSMallocFunctions; the functions of ijvm.c are shown to meet it together with
  the exact accounting of the live blocks.
\<close>

unbundle bit_operations_syntax

section \<open>Data\<close>

text \<open>
  JSMallocState. \<open>live\<close> is the state of jemalloc that the code can observe: the usable size
  of every block handed out and not yet given back.
\<close>

record mstate =
  malloc_count :: "64 word"
  malloc_size :: "64 word"
  malloc_limit :: "64 word"
  live :: "nat \<rightharpoonup> 64 word"

text \<open>
  jemalloc: je\_malloc and je\_realloc answer with a block and its usable size, or fail. The
  addresses they choose are not known; 0 is NULL.
\<close>

record jemalloc =
  je_malloc :: "64 word \<Rightarrow> (nat \<rightharpoonup> 64 word) \<Rightarrow> (nat \<times> 64 word) option"
  je_realloc :: "nat \<Rightarrow> 64 word \<Rightarrow> (nat \<rightharpoonup> 64 word) \<Rightarrow> (nat \<times> 64 word) option"

definition je_ok :: "jemalloc \<Rightarrow> bool" where
  "je_ok J \<longleftrightarrow>
     (\<forall>n m p u. je_malloc J n m = Some (p, u) \<longrightarrow> p \<noteq> 0 \<and> p \<notin> dom m \<and> n \<le> u) \<and>
     (\<forall>q n m p u. je_realloc J q n m = Some (p, u) \<longrightarrow>
        p \<noteq> 0 \<and> (p = q \<or> p \<notin> dom m) \<and> n \<le> u)"

definition JE_MALLOC_OVERHEAD :: "64 word" where "JE_MALLOC_OVERHEAD = 8"

text \<open>Asking for the size of a block that is not live is a use after free.\<close>

definition je_def_malloc_usable_size :: "nat \<Rightarrow> mstate \<Rightarrow> 64 word res" where
  "je_def_malloc_usable_size ptr s =
     (case live s ptr of None \<Rightarrow> Inl UseAfterFree | Some u \<Rightarrow> Inr u)"

section \<open>The functions\<close>

definition je_def_malloc :: "jemalloc \<Rightarrow> 64 word \<Rightarrow> mstate \<Rightarrow> (nat \<times> mstate) res" where
  "je_def_malloc J n s =
     (if n = 0 then Inl AbortCalled
      else if malloc_size s + n > malloc_limit s then Inr (0, s)
      else case je_malloc J n (live s) of
        None \<Rightarrow> Inr (0, s)
      | Some (ptr, u) \<Rightarrow>
          let s = s\<lparr>live := (live s)(ptr \<mapsto> u)\<rparr>;
              s = s\<lparr>malloc_count := malloc_count s + 1\<rparr> in
          bindE (je_def_malloc_usable_size ptr s) (\<lambda>u.
          Inr (ptr, s\<lparr>malloc_size := malloc_size s + (u + JE_MALLOC_OVERHEAD)\<rparr>)))"

definition je_def_free :: "nat \<Rightarrow> mstate \<Rightarrow> mstate res" where
  "je_def_free ptr s =
     (if ptr = 0 then Inr s
      else
        let s = s\<lparr>malloc_count := malloc_count s - 1\<rparr> in
        bindE (je_def_malloc_usable_size ptr s) (\<lambda>u.
        let s = s\<lparr>malloc_size := malloc_size s - (u + JE_MALLOC_OVERHEAD)\<rparr> in
        Inr (s\<lparr>live := (live s)(ptr := None)\<rparr>)))"

definition je_def_realloc :: "jemalloc \<Rightarrow> nat \<Rightarrow> 64 word \<Rightarrow> mstate \<Rightarrow> (nat \<times> mstate) res" where
  "je_def_realloc J ptr n s =
     (if ptr = 0 then (if n = 0 then Inr (0, s) else je_def_malloc J n s)
      else
        bindE (je_def_malloc_usable_size ptr s) (\<lambda>old_size.
        if n = 0 then
          let s = s\<lparr>malloc_count := malloc_count s - 1\<rparr>;
              s = s\<lparr>malloc_size := malloc_size s - (old_size + JE_MALLOC_OVERHEAD)\<rparr>
          in Inr (0, s\<lparr>live := (live s)(ptr := None)\<rparr>)
        else if malloc_size s + n - old_size > malloc_limit s then Inr (0, s)
        else case je_realloc J ptr n (live s) of
          None \<Rightarrow> Inr (0, s)
        | Some (q, u) \<Rightarrow>
            let s = s\<lparr>live := (live s)(ptr := None, q \<mapsto> u)\<rparr> in
            bindE (je_def_malloc_usable_size q s) (\<lambda>u.
            Inr (q, s\<lparr>malloc_size := malloc_size s + (u - old_size)\<rparr>))))"

section \<open>The contract\<close>

datatype mem_op = MAlloc "64 word" | MFree nat | MResize nat "64 word"

text \<open>
  \<open>blocks s\<close> is the set of blocks the engine holds, \<open>inv\<close> the provider's own invariant. An
  allocation fails without effect or yields a block not held before, a release takes back
  exactly one block, a resize replaces a block, fails without effect, or (size 0) releases it.
\<close>

locale malloc_functions =
  fixes alloc :: "64 word \<Rightarrow> 's \<Rightarrow> (nat \<times> 's) res"
    and release :: "nat \<Rightarrow> 's \<Rightarrow> 's res"
    and resize :: "nat \<Rightarrow> 64 word \<Rightarrow> 's \<Rightarrow> (nat \<times> 's) res"
    and blocks :: "'s \<Rightarrow> nat set"
    and inv :: "'s \<Rightarrow> bool"
  assumes alloc_law: "inv s \<Longrightarrow> n \<noteq> 0 \<Longrightarrow>
      \<exists>p s'. alloc n s = Inr (p, s') \<and> inv s' \<and>
        (if p = 0 then s' = s else p \<notin> blocks s \<and> blocks s' = insert p (blocks s))"
    and release_law: "inv s \<Longrightarrow> p \<in> insert 0 (blocks s) \<Longrightarrow>
      \<exists>s'. release p s = Inr s' \<and> inv s' \<and> blocks s' = blocks s - {p}"
    and resize_law: "inv s \<Longrightarrow> p \<in> insert 0 (blocks s) \<Longrightarrow>
      \<exists>q s'. resize p n s = Inr (q, s') \<and> inv s' \<and>
        (if q = 0 then (if n = 0 then blocks s' = blocks s - {p} else s' = s)
         else q \<notin> blocks s - {p} \<and> blocks s' = insert q (blocks s - {p}))"
    and null_law: "inv s \<Longrightarrow> 0 \<notin> blocks s"
begin

fun perform_op :: "mem_op \<Rightarrow> 's \<Rightarrow> 's res" where
  "perform_op (MAlloc n) s = bindE (alloc n s) (\<lambda>(_, s). Inr s)"
| "perform_op (MFree p) s = release p s"
| "perform_op (MResize p n) s = bindE (resize p n s) (\<lambda>(_, s). Inr s)"

fun may_do :: "mem_op \<Rightarrow> 's \<Rightarrow> bool" where
  "may_do (MAlloc n) s = (n \<noteq> 0)"
| "may_do (MFree p) s = (p \<in> insert 0 (blocks s))"
| "may_do (MResize p n) s = (p \<in> insert 0 (blocks s))"

lemma perform_safe:
  assumes "inv s" "may_do op s"
  shows "\<exists>s'. perform_op op s = Inr s' \<and> inv s'"
proof (cases op)
  case (MAlloc n) then show ?thesis using alloc_law [OF assms(1)] assms(2) by fastforce
next
  case (MFree p) then show ?thesis using release_law [OF assms(1)] assms(2) by fastforce
next
  case (MResize p n) then show ?thesis using resize_law [OF assms(1), of p n] assms(2) by fastforce
qed

lemma release_all:
  assumes "inv s" "set ps = blocks s" "distinct ps"
  shows "\<exists>s'. forE release ps s = Inr s' \<and> inv s' \<and> blocks s' = {}"
  using assms
proof (induction ps arbitrary: s)
  case (Cons p ps)
  then obtain s1 where s1: "release p s = Inr s1" "inv s1" "blocks s1 = blocks s - {p}"
    using release_law [of s p] by auto
  moreover have "set ps = blocks s1" using Cons.prems s1(3) by auto
  ultimately show ?case using Cons.IH [of s1] Cons.prems(3) by auto
qed auto

end

section \<open>The accounting is exact\<close>

definition accounted :: "mstate \<Rightarrow> bool" where
  "accounted s \<longleftrightarrow> finite (dom (live s)) \<and> 0 \<notin> dom (live s) \<and>
     malloc_count s = of_nat (card (dom (live s))) \<and>
     malloc_size s = (\<Sum>p\<in>dom (live s). the (live s p) + JE_MALLOC_OVERHEAD)"

definition bytes_of :: "(nat \<rightharpoonup> 64 word) \<Rightarrow> 64 word" where
  "bytes_of m = (\<Sum>p\<in>dom m. the (m p) + JE_MALLOC_OVERHEAD)"

lemma bytes_add:
  assumes "finite (dom m)" "p \<notin> dom m"
  shows "bytes_of (m(p \<mapsto> u)) = bytes_of m + (u + JE_MALLOC_OVERHEAD)"
proof -
  have "(\<Sum>q\<in>dom m. the ((m(p \<mapsto> u)) q) + JE_MALLOC_OVERHEAD) = bytes_of m"
    unfolding bytes_of_def by (rule sum.cong) (use assms in auto)
  then show ?thesis using assms by (simp add: bytes_of_def add.commute)
qed

lemma bytes_remove:
  assumes "finite (dom m)" "m p = Some u"
  shows "bytes_of (m(p := None)) = bytes_of m - (u + JE_MALLOC_OVERHEAD)"
proof -
  have "(m(p := None))(p \<mapsto> u) = m" using assms(2) by auto
  then show ?thesis using bytes_add [of "m(p := None)" p u] assms by simp
qed

lemma accounted_iff:
  "accounted s \<longleftrightarrow> finite (dom (live s)) \<and> 0 \<notin> dom (live s) \<and>
     malloc_count s = of_nat (card (dom (live s))) \<and> malloc_size s = bytes_of (live s)"
  by (simp add: accounted_def bytes_of_def)

lemma malloc_accounted:
  assumes "je_ok J" "accounted s" "n \<noteq> 0"
  shows "\<exists>p s'. je_def_malloc J n s = Inr (p, s') \<and> accounted s' \<and>
    (if p = 0 then s' = s else p \<notin> dom (live s) \<and> dom (live s') = insert p (dom (live s)))"
proof (cases "malloc_size s + n > malloc_limit s")
  case False
  show ?thesis
  proof (cases "je_malloc J n (live s)")
    case (Some x)
    obtain p u where x: "x = (p, u)" by (cases x)
    then have p: "p \<noteq> 0" "p \<notin> dom (live s)" using assms(1) Some by (auto simp: je_ok_def)
    then have "bytes_of ((live s)(p \<mapsto> u)) = bytes_of (live s) + (u + JE_MALLOC_OVERHEAD)"
      using assms(2) by (intro bytes_add) (simp_all add: accounted_iff)
    then show ?thesis
      using False Some x p assms(2,3)
      by (simp add: je_def_malloc_def je_def_malloc_usable_size_def accounted_iff Let_def)
  qed (use False assms in \<open>simp add: je_def_malloc_def\<close>)
qed (use assms in \<open>simp add: je_def_malloc_def\<close>)

lemma free_accounted:
  assumes "accounted s" "p \<in> insert 0 (dom (live s))"
  shows "\<exists>s'. je_def_free p s = Inr s' \<and> accounted s' \<and> dom (live s') = dom (live s) - {p}"
proof (cases "p = 0")
  case False
  then obtain u where u: "live s p = Some u" using assms(2) by auto
  have "of_nat (card (dom (live s) - {p})) = of_nat (card (dom (live s))) - (1 :: 64 word)"
    using assms(1) u by (subst card_Suc_Diff1 [symmetric, where x = p]) (auto simp: accounted_iff)
  then show ?thesis
    using False u assms(1) bytes_remove [of "live s" p u]
    by (simp add: je_def_free_def je_def_malloc_usable_size_def accounted_iff Let_def)
qed (use assms in \<open>auto simp: je_def_free_def accounted_iff\<close>)

lemma realloc_accounted:
  assumes "je_ok J" "accounted s" "p \<in> insert 0 (dom (live s))"
  shows "\<exists>q s'. je_def_realloc J p n s = Inr (q, s') \<and> accounted s' \<and>
    (if q = 0 then (if n = 0 then dom (live s') = dom (live s) - {p} else s' = s)
     else q \<notin> dom (live s) - {p} \<and> dom (live s') = insert q (dom (live s) - {p}))"
proof (cases "p = 0")
  case True
  have "dom (live s) - {0} = dom (live s)" using assms(2) by (auto simp: accounted_iff)
  note d = this
  show ?thesis
  proof (cases "n = 0")
    case False
    from malloc_accounted [OF assms(1,2) False] obtain q s' where "je_def_malloc J n s = Inr (q, s')"
      "accounted s'" "if q = 0 then s' = s else q \<notin> dom (live s) \<and> dom (live s') = insert q (dom (live s))"
      by blast
    then show ?thesis using False True d by (intro exI [of _ q] exI [of _ s']) (simp add: je_def_realloc_def)
  qed (use True assms(2) d in \<open>simp add: je_def_realloc_def\<close>)
next
  case False
  then obtain u where u: "live s p = Some u" using assms(3) by auto
  show ?thesis
  proof (cases "n = 0 \<or> malloc_size s + n - u > malloc_limit s \<or> je_realloc J p n (live s) = None")
    case True
    then show ?thesis
      using False u assms(2) free_accounted [OF assms(2,3)]
      by (auto simp: je_def_realloc_def je_def_malloc_usable_size_def je_def_free_def Let_def)
  next
    case False
    then obtain q v where q: "je_realloc J p n (live s) = Some (q, v)" by auto
    then have "q \<noteq> 0 \<and> (q = p \<or> q \<notin> dom (live s))" using assms(1) unfolding je_ok_def by blast
    then have q': "q \<noteq> 0" "q \<notin> dom ((live s)(p := None))" by auto
    have fin: "finite (dom (live s))" using assms(2) by (simp add: accounted_iff)
    then have b: "bytes_of ((live s)(p := None, q \<mapsto> v)) =
        bytes_of (live s) - (u + JE_MALLOC_OVERHEAD) + (v + JE_MALLOC_OVERHEAD)"
      using bytes_add [OF _ q'(2)] bytes_remove [OF fin u] by simp
    have "card (insert q (dom (live s) - {p})) = card (dom (live s))"
      using q' fin u by (simp add: card.insert_remove) (metis card_Suc_Diff1 domI)
    then show ?thesis
      using False u assms(2) \<open>p \<noteq> 0\<close> q q' b
      by (auto simp: je_def_realloc_def je_def_malloc_usable_size_def accounted_iff Let_def)
  qed
qed

interpretation je: malloc_functions "je_def_malloc J" je_def_free "je_def_realloc J"
  "\<lambda>s. dom (live s)" "\<lambda>s. je_ok J \<and> accounted s" for J
proof
  fix s :: mstate and n p
  assume i: "je_ok J \<and> accounted s"
  show "n \<noteq> 0 \<Longrightarrow> \<exists>p s'. je_def_malloc J n s = Inr (p, s') \<and> (je_ok J \<and> accounted s') \<and>
      (if p = 0 then s' = s else p \<notin> dom (live s) \<and> dom (live s') = insert p (dom (live s)))"
    using malloc_accounted [of J s n] i by blast
  show "p \<in> insert 0 (dom (live s)) \<Longrightarrow> \<exists>s'. je_def_free p s = Inr s' \<and> (je_ok J \<and> accounted s') \<and>
      dom (live s') = dom (live s) - {p}"
    using free_accounted [of s p] i by blast
  show "p \<in> insert 0 (dom (live s)) \<Longrightarrow>
      \<exists>q s'. je_def_realloc J p n s = Inr (q, s') \<and> (je_ok J \<and> accounted s') \<and>
        (if q = 0 then (if n = 0 then dom (live s') = dom (live s) - {p} else s' = s)
         else q \<notin> dom (live s) - {p} \<and> dom (live s') = insert q (dom (live s) - {p}))"
    using realloc_accounted [of J s p n] i by blast
  show "0 \<notin> dom (live s)" using i by (simp add: accounted_iff)
qed

section \<open>Properties\<close>

fun mem_do :: "jemalloc \<Rightarrow> mem_op \<Rightarrow> mstate \<Rightarrow> mstate res" where
  "mem_do J (MAlloc n) s = bindE (je_def_malloc J n s) (\<lambda>(_, s). Inr s)"
| "mem_do J (MFree p) s = je_def_free p s"
| "mem_do J (MResize p n) s = bindE (je_def_realloc J p n s) (\<lambda>(_, s). Inr s)"

fun mem_run :: "jemalloc \<Rightarrow> mem_op list \<Rightarrow> mstate \<Rightarrow> mstate res" where
  "mem_run J [] s = Inr s"
| "mem_run J (op # ops) s = bindE (mem_do J op s) (mem_run J ops)"

text \<open>What QuickJS keeps to: it never asks for 0 bytes, and gives back only blocks it holds.\<close>

fun mem_legal :: "jemalloc \<Rightarrow> mem_op list \<Rightarrow> mstate \<Rightarrow> bool" where
  "mem_legal J [] s = True"
| "mem_legal J (op # ops) s =
     ((case op of MAlloc n \<Rightarrow> n \<noteq> 0 | MFree p \<Rightarrow> p \<in> insert 0 (dom (live s))
       | MResize p n \<Rightarrow> p \<in> insert 0 (dom (live s))) \<and>
      (case mem_do J op s of Inl _ \<Rightarrow> True | Inr s' \<Rightarrow> mem_legal J ops s'))"

lemma mem_do_perform: "mem_do J op s = je.perform_op J op s"
  by (cases op) simp_all

definition no_memory :: "64 word \<Rightarrow> mstate" where
  "no_memory limit = \<lparr>malloc_count = 0, malloc_size = 0, malloc_limit = limit, live = Map.empty\<rparr>"

text \<open>C18. The allocator of the runtime keeps exact books: along every sequence of allocations,
  releases and resizes that QuickJS may perform, whatever addresses jemalloc picks and
  whenever it runs out, nothing crashes, malloc\_count is the number of live blocks and
  malloc\_size the sum of their usable sizes plus the overhead, modulo the width of size\_t;
  and once every live block is released both are back to zero.\<close>

theorem allocator_accounting:
  assumes "je_ok J" "mem_legal J ops (no_memory limit)"
  shows "\<exists>s. mem_run J ops (no_memory limit) = Inr s \<and> accounted s \<and>
    (\<forall>ps. distinct ps \<and> set ps = dom (live s) \<longrightarrow>
      (\<exists>s'. forE je_def_free ps s = Inr s' \<and> malloc_count s' = 0 \<and> malloc_size s' = 0))"
proof -
  have run: "\<exists>s'. mem_run J ops s = Inr s' \<and> accounted s'" if "accounted s" "mem_legal J ops s" for s
    using that
  proof (induction ops arbitrary: s)
    case (Cons op ops)
    have "je.may_do op s" using Cons.prems(2) by (cases op) auto
    then obtain s1 where "mem_do J op s = Inr s1" "accounted s1"
      using je.perform_safe [of J s op] assms(1) Cons.prems(1) by (auto simp: mem_do_perform)
    then show ?case using Cons.IH [of s1] Cons.prems(2) by simp
  qed simp
  have "accounted (no_memory limit)" by (simp add: accounted_def no_memory_def)
  from run [OF this assms(2)] obtain s where s: "mem_run J ops (no_memory limit) = Inr s" "accounted s"
    by blast
  have "\<exists>s'. forE je_def_free ps s = Inr s' \<and> malloc_count s' = 0 \<and> malloc_size s' = 0"
    if "distinct ps" "set ps = dom (live s)" for ps
    using je.release_all [of J s ps] that s(2) assms(1) by (auto simp: accounted_def)
  then show ?thesis using s by blast
qed

definition one_block :: jemalloc where
  "one_block = \<lparr>je_malloc = (\<lambda>n m. if n < 4096 \<and> m 1 = None then Some (1, 4096) else None),
     je_realloc = (\<lambda>q n m. if q \<noteq> 0 \<and> n < 8192 then Some (q, 8192) else None)\<rparr>"

lemma one_block_ok: "je_ok one_block"
  by (auto simp: je_ok_def one_block_def split: if_splits)

theorem allocator_accounting_witness:
  "\<exists>s. mem_run one_block [MAlloc 10, MAlloc 20, MResize 1 5000] (no_memory 100000) = Inr s \<and>
    accounted s \<and> (\<forall>ps. distinct ps \<and> set ps = dom (live s) \<longrightarrow>
      (\<exists>s'. forE je_def_free ps s = Inr s' \<and> malloc_count s' = 0 \<and> malloc_size s' = 0))"
  by (rule allocator_accounting [OF one_block_ok])
     (simp add: no_memory_def one_block_def je_def_malloc_def je_def_realloc_def
       je_def_malloc_usable_size_def JE_MALLOC_OVERHEAD_def split: sum.split)

text \<open>The memory limit: a request that would take the accounted size over the limit is refused
  without effect, and a request that is granted fitted, as long as the size of the request
  does not overflow size\_t when added.\<close>

theorem memory_limit_enforced:
  assumes "n \<noteq> 0" "unat (malloc_size s) + unat n < 2 ^ 64"
    and "je_def_malloc J n s = Inr (p, s')"
  shows "(unat (malloc_limit s) < unat (malloc_size s) + unat n \<longrightarrow> p = 0 \<and> s' = s) \<and>
    (p \<noteq> 0 \<longrightarrow> unat (malloc_size s) + unat n \<le> unat (malloc_limit s) \<and> malloc_limit s' = malloc_limit s)"
proof -
  have "unat (malloc_size s + n) = unat (malloc_size s) + unat n"
    using assms(2) by (simp add: unat_word_ariths)
  then have "malloc_size s + n > malloc_limit s \<longleftrightarrow>
      unat (malloc_limit s) < unat (malloc_size s) + unat n"
    by (simp add: word_less_nat_alt)
  then show ?thesis
    using assms(1,3) by (auto simp: je_def_malloc_def Let_def je_def_malloc_usable_size_def
        split: if_splits option.splits)
qed

theorem memory_limit_enforced_witness:
  "je_def_malloc one_block 10 (no_memory 9) = Inr (0, no_memory 9)"
proof -
  obtain p s' where "je_def_malloc one_block 10 (no_memory 9) = Inr (p, s')"
    by (auto simp: je_def_malloc_def no_memory_def)
  with memory_limit_enforced [OF _ _ this] show ?thesis by (simp add: no_memory_def)
qed

end
