(* ===== verification/Vm.thy ===== *)
theory Vm
  imports Jobs
begin

text \<open>
  ijvm.c: the runtime structure with its event loop, how pending jobs keep the loop turning,
  starting and stopping, shutting down, unhandled rejections, and loading and evaluating a
  file. The allocator of the same file is in \<open>Alloc\<close>, the job loop in \<open>Jobs\<close>.
\<close>

section \<open>Data\<close>

text \<open>
  IJJSRuntime. The structure is one block with the handles prepare (0), idle (1), check (2),
  stop (3) and the timer of the HTTP client (4). A handle that is unreferenced does not keep
  the loop alive. \<open>open_fds\<close> are the file descriptors the process has open.
\<close>

record vm_rt = rt +
  idle_active :: bool
  prepare_active :: bool
  check_active :: bool
  prepare_ref :: bool
  check_ref :: bool
  stop_ref :: bool
  stop_sent :: bool
  loop_stopped :: bool
  is_worker :: bool
  in_bootstrap :: bool
  abort_on_unhandled_rejection :: bool
  stack_size :: nat
  u8array_ctor :: jsval
  curlm_h :: bool
  open_fds :: "int list"

text \<open>
  The environment: results of libuv and QuickJS calls. \<open>fs_read\<close> answers with an error or
  with bytes (none at the end of the file), \<open>room n\<close> whether a dynamic buffer can grow to
  \<open>n\<close> bytes.
\<close>

record vmenv =
  global_obj :: jsval
  construct :: "jsval \<Rightarrow> jsval list \<Rightarrow> jsval + jsval"
  NewRuntime :: bool
  NewContext :: bool
  loop_init :: int
  prepare_init :: int
  idle_init :: int
  check_init :: int
  async_init :: int
  prepare_start :: int
  check_start :: int
  idle_start :: int
  idle_stop :: int
  fs_open :: "string \<Rightarrow> int"
  fs_read :: "int \<Rightarrow> nat \<Rightarrow> int + string"
  room :: "nat \<Rightarrow> bool"

definition IJJS_DEFAULT_STACK_SIZE :: nat where "IJJS_DEFAULT_STACK_SIZE = 1048576"

record IJJSRunOptions =
  op_abort :: bool
  op_stack :: nat

definition ijDefaultOptions :: IJJSRunOptions where
  "ijDefaultOptions = \<lparr>op_abort = False, op_stack = IJJS_DEFAULT_STACK_SIZE\<rparr>"

section \<open>Jobs and the loop\<close>

text \<open>The idle handle is active while jobs are pending: it makes the loop poll without waiting.\<close>

definition uvMaybeIdle :: "vmenv \<Rightarrow> 'z vm_rt_scheme \<Rightarrow> 'z vm_rt_scheme res" where
  "uvMaybeIdle V w =
     (if jobs w \<noteq> [] then CHECK (idle_start V = 0) (w\<lparr>idle_active := True\<rparr>)
      else CHECK (idle_stop V = 0) (w\<lparr>idle_active := False\<rparr>))"

definition uvPrepareCb :: "vmenv \<Rightarrow> nat \<Rightarrow> 'z vm_rt_scheme \<Rightarrow> 'z vm_rt_scheme res" where
  "uvPrepareCb V qrt w = bindE (CHECK (qrt \<noteq> 0) w) (uvMaybeIdle V)"

definition uvCheckCb ::
    "jsenv \<Rightarrow> vmenv \<Rightarrow> ('b vm_rt_ext) job_sem \<Rightarrow> nat \<Rightarrow> 'b vm_rt_scheme \<Rightarrow> 'b vm_rt_scheme res option" where
  "uvCheckCb E V J qrt w = (case CHECK (qrt \<noteq> 0) w of
     Inl c \<Rightarrow> Some (Inl c)
   | Inr w \<Rightarrow> (case ijExecuteJobs E J w of
       None \<Rightarrow> None
     | Some r \<Rightarrow> Some (bindE r (uvMaybeIdle V))))"

definition uvStop :: "nat \<Rightarrow> 'z vm_rt_scheme \<Rightarrow> 'z vm_rt_scheme res" where
  "uvStop qrt w = bindE (CHECK (qrt \<noteq> 0) w) (\<lambda>w. Inr (w\<lparr>loop_stopped := True\<rparr>))"

definition ijStop :: "nat \<Rightarrow> 'z vm_rt_scheme \<Rightarrow> 'z vm_rt_scheme res" where
  "ijStop qrt w = bindE (CHECK (qrt \<noteq> 0) w) (\<lambda>w. Inr (w\<lparr>stop_sent := True\<rparr>))"

text \<open>
  libuv's loop: it goes on while a referenced handle is active (the idle handle, the stop
  handle when referenced, or one of another component, \<open>alive\<close>) and it was not told to stop.
  A turn runs the prepare callback, polls (waiting only when the idle handle is inactive),
  and runs the check callback. What happens in the poll phase, other components' callbacks and
  a stop request included, is the parameter \<open>poll\<close>.
\<close>

definition uv_turn ::
    "jsenv \<Rightarrow> vmenv \<Rightarrow> ('b vm_rt_ext) job_sem \<Rightarrow> (bool \<Rightarrow> 'b vm_rt_scheme \<Rightarrow> 'b vm_rt_scheme) \<Rightarrow> nat
       \<Rightarrow> 'b vm_rt_scheme \<Rightarrow> 'b vm_rt_scheme res option" where
  "uv_turn E V J poll qrt w = (case uvPrepareCb V qrt w of
     Inl c \<Rightarrow> Some (Inl c)
   | Inr w \<Rightarrow> uvCheckCb E V J qrt (poll (\<not> idle_active w) w))"

partial_function (option) uv_run ::
    "jsenv \<Rightarrow> vmenv \<Rightarrow> ('b vm_rt_ext) job_sem \<Rightarrow> (bool \<Rightarrow> 'b vm_rt_scheme \<Rightarrow> 'b vm_rt_scheme)
       \<Rightarrow> ('b vm_rt_scheme \<Rightarrow> bool) \<Rightarrow> nat \<Rightarrow> 'b vm_rt_scheme \<Rightarrow> 'b vm_rt_scheme res option" where
  "uv_run E V J poll alive qrt w =
     (if loop_stopped w \<or> \<not> (idle_active w \<or> stop_ref w \<or> alive w) then Some (Inr w)
      else case uv_turn E V J poll qrt w of
        None \<Rightarrow> None
      | Some (Inl c) \<Rightarrow> Some (Inl c)
      | Some (Inr w) \<Rightarrow> uv_run E V J poll alive qrt w)"

definition run_start :: "vmenv \<Rightarrow> 'z vm_rt_scheme \<Rightarrow> 'z vm_rt_scheme res" where
  "run_start V w =
     bindE (CHECK (prepare_start V = 0) (w\<lparr>prepare_active := True\<rparr>)) (\<lambda>w.
     let w = w\<lparr>prepare_ref := False\<rparr> in
     bindE (CHECK (check_start V = 0) (w\<lparr>check_active := True\<rparr>)) (\<lambda>w.
     let w = w\<lparr>check_ref := False\<rparr>;
         w = (if \<not> is_worker w then w\<lparr>stop_ref := False\<rparr> else w)
     in uvMaybeIdle V w))"

definition ijRun ::
    "jsenv \<Rightarrow> vmenv \<Rightarrow> ('b vm_rt_ext) job_sem \<Rightarrow> (bool \<Rightarrow> 'b vm_rt_scheme \<Rightarrow> 'b vm_rt_scheme)
       \<Rightarrow> ('b vm_rt_scheme \<Rightarrow> bool) \<Rightarrow> nat \<Rightarrow> 'b vm_rt_scheme \<Rightarrow> 'b vm_rt_scheme res option" where
  "ijRun E V J poll alive qrt w = (case run_start V w of
     Inl c \<Rightarrow> Some (Inl c)
   | Inr w \<Rightarrow> uv_run E V J poll alive qrt w)"

section \<open>Creating and freeing a runtime\<close>

text \<open>\<open>boot\<close> evaluates the built-in scripts (ijbootstrap.c).\<close>

definition ijNewRuntimeInternal ::
    "jsenv \<Rightarrow> vmenv \<Rightarrow> ('z vm_rt_scheme \<Rightarrow> 'z vm_rt_scheme res) \<Rightarrow> bool \<Rightarrow> IJJSRunOptions
       \<Rightarrow> 'z vm_rt_scheme \<Rightarrow> (nat \<times> 'z vm_rt_scheme) res" where
  "ijNewRuntimeInternal E V boot worker options w = (case je_calloc w of (qrt, w) \<Rightarrow>
     bindE (deref qrt w) (\<lambda>w.
     let w = w\<lparr>abort_on_unhandled_rejection := op_abort options, stack_size := op_stack options,
               curlm_h := False, stop_sent := False, loop_stopped := False\<rparr> in
     bindE (CHECK (NewRuntime V) w) (\<lambda>w.
     bindE (CHECK (NewContext V) w) (\<lambda>w.
     let w = w\<lparr>is_worker := worker\<rparr> in
     bindE (CHECK (loop_init V = 0) w) (\<lambda>w.
     bindE (CHECK (prepare_init V = 0) (uv_handle_init qrt 0 w)) (\<lambda>w.
     bindE (CHECK (idle_init V = 0) (uv_handle_init qrt 1 w)) (\<lambda>w.
     bindE (CHECK (check_init V = 0) (uv_handle_init qrt 2 w)) (\<lambda>w.
     bindE (CHECK (async_init V = 0) (uv_handle_init qrt 3 w)) (\<lambda>w.
     let w = w\<lparr>idle_active := False, prepare_active := False, check_active := False,
               prepare_ref := True, check_ref := True, stop_ref := True, in_bootstrap := True\<rparr> in
     bindE (boot w) (\<lambda>w.
     let w = w\<lparr>in_bootstrap := False\<rparr>; global = global_obj V; w = JS_DupValue global w in
     case JS_GetPropertyStr E global ''Uint8Array'' w of (ctor, w) \<Rightarrow>
     let w = w\<lparr>u8array_ctor := ctor\<rparr> in
     bindE (CHECK (\<not> JS_IsUndefined ctor) w) (\<lambda>w.
     bindE (JS_FreeValue global w) (\<lambda>w. Inr (qrt, w)))))))))))))"

definition ijNewRuntime ::
    "jsenv \<Rightarrow> vmenv \<Rightarrow> ('z vm_rt_scheme \<Rightarrow> 'z vm_rt_scheme res) \<Rightarrow> 'z vm_rt_scheme
       \<Rightarrow> (nat \<times> 'z vm_rt_scheme) res" where
  "ijNewRuntime E V boot w = ijNewRuntimeInternal E V boot False ijDefaultOptions w"

definition ijNewRuntimeOptions ::
    "jsenv \<Rightarrow> vmenv \<Rightarrow> ('z vm_rt_scheme \<Rightarrow> 'z vm_rt_scheme res) \<Rightarrow> IJJSRunOptions \<Rightarrow> 'z vm_rt_scheme
       \<Rightarrow> (nat \<times> 'z vm_rt_scheme) res" where
  "ijNewRuntimeOptions E V boot options w = ijNewRuntimeInternal E V boot False options w"

definition ijNewRuntimeWorker ::
    "jsenv \<Rightarrow> vmenv \<Rightarrow> ('z vm_rt_scheme \<Rightarrow> 'z vm_rt_scheme res) \<Rightarrow> 'z vm_rt_scheme
       \<Rightarrow> (nat \<times> 'z vm_rt_scheme) res" where
  "ijNewRuntimeWorker E V boot w = ijNewRuntimeInternal E V boot True ijDefaultOptions w"

text \<open>
  Closing the loop: uv\_loop\_close answers EBUSY while a handle of the loop is not closed;
  uv\_run without waiting serves the close requests. \<open>hs\<close> lists the handles of the loop, the
  runtime's own among them.
\<close>

definition uv_loop_close :: "(nat \<times> nat) list \<Rightarrow> 'z vm_rt_scheme \<Rightarrow> bool" where
  "uv_loop_close hs w = list_all (\<lambda>(p, k). hnd w p k = HClosed) hs"

definition serve_close :: "nat \<times> nat \<Rightarrow> 'z vm_rt_scheme \<Rightarrow> 'z vm_rt_scheme" where
  "serve_close h w = (if hnd w (fst h) (snd h) = HClosing then uv_finish_close (fst h) (snd h) w else w)"

primrec close_loop :: "nat \<Rightarrow> (nat \<times> nat) list \<Rightarrow> 'z vm_rt_scheme \<Rightarrow> bool \<times> 'z vm_rt_scheme" where
  "close_loop 0 hs w = (False, w)"
| "close_loop (Suc i) hs w =
     (if uv_loop_close hs w then (True, w) else close_loop i hs (fold serve_close hs w))"

text \<open>
  \<open>teardown\<close> is JS\_FreeContext and JS\_FreeRuntime: the finalizers of every object left run,
  and close the handles of those objects.
\<close>

definition ijFreeRuntime ::
    "(nat \<times> nat) list \<Rightarrow> ('z vm_rt_scheme \<Rightarrow> 'z vm_rt_scheme res) \<Rightarrow> nat \<Rightarrow> 'z vm_rt_scheme
       \<Rightarrow> 'z vm_rt_scheme res" where
  "ijFreeRuntime hs teardown qrt w =
     bindE (deref qrt w) (\<lambda>w.
     bindE (uv_close qrt 0 w) (\<lambda>w.
     bindE (uv_close qrt 1 w) (\<lambda>w.
     bindE (uv_close qrt 2 w) (\<lambda>w.
     bindE (uv_close qrt 3 w) (\<lambda>w.
     bindE (JS_FreeValue (u8array_ctor w) w) (\<lambda>w.
     bindE (teardown w) (\<lambda>w.
     bindE (if curlm_h w then uv_close qrt 4 w else Inr w) (\<lambda>w.
     case close_loop 5 hs w of (closed, w) \<Rightarrow>
     bindE (CHECK closed w) (\<lambda>w. je_free qrt w)))))))))"

section \<open>Unhandled rejections\<close>

definition JS_CallConstructor ::
    "vmenv \<Rightarrow> jsval \<Rightarrow> jsval list \<Rightarrow> 'z rt_scheme \<Rightarrow> jsval \<times> 'z rt_scheme" where
  "JS_CallConstructor V ctor args w = (case construct V ctor args of
     Inl e \<Rightarrow> JS_Throw e w
   | Inr v \<Rightarrow> (v, JS_DupValue v w))"

definition JS_ToBool :: "jsenv \<Rightarrow> jsval \<Rightarrow> bool" where
  "JS_ToBool E v = (to_bool E v \<noteq> Some False)"

definition report_rejection ::
    "jsenv \<Rightarrow> jsval \<Rightarrow> 'z vm_rt_scheme \<Rightarrow> 'z vm_rt_scheme res" where
  "report_rejection E reason w =
     (let w = w\<lparr>stderr := stderr w @ [''Unhandled promise rejection: '']\<rparr> in
      bindE (ijDumpError1 E reason w) (\<lambda>w.
      if abort_on_unhandled_rejection w then Inl AbortCalled else Inr w))"

definition ijPromiseRejectionTracker ::
    "jsenv \<Rightarrow> vmenv \<Rightarrow> jsval \<Rightarrow> bool \<Rightarrow> 'z vm_rt_scheme \<Rightarrow> 'z vm_rt_scheme res" where
  "ijPromiseRejectionTracker E V reason is_handled w =
     (if is_handled then Inr w
      else
        let global = global_obj V; w = JS_DupValue global w in
        case JS_GetPropertyStr E global ''PromiseRejectionEvent'' w of (event_ctor, w) \<Rightarrow>
        bindE (CHECK (\<not> JS_IsUndefined event_ctor) w) (\<lambda>w.
        let event_name = JS_Str ''unhandledrejection'' in
        case JS_CallConstructor V event_ctor [event_name, reason] w of (event, w) \<Rightarrow>
        bindE (CHECK (\<not> JS_IsException event) w) (\<lambda>w.
        case JS_GetPropertyStr E global ''dispatchEvent'' w of (dispatch_func, w) \<Rightarrow>
        bindE (CHECK (\<not> JS_IsUndefined dispatch_func) w) (\<lambda>w.
        bindE (JS_Call E dispatch_func [event] w) (\<lambda>(ret, w).
        bindE (JS_FreeValue global w) (\<lambda>w.
        bindE (JS_FreeValue event w) (\<lambda>w.
        bindE (JS_FreeValue event_ctor w) (\<lambda>w.
        bindE (JS_FreeValue event_name w) (\<lambda>w.
        bindE (JS_FreeValue dispatch_func w) (\<lambda>w.
        bindE (if JS_IsException ret then ijDumpError E w
               else if JS_ToBool E ret then report_rejection E reason w
               else Inr w) (\<lambda>w.
        JS_FreeValue ret w)))))))))))"

section \<open>Loading and evaluating files\<close>

definition dbuf_put :: "vmenv \<Rightarrow> string \<Rightarrow> string \<Rightarrow> int \<times> string" where
  "dbuf_put V buf bytes =
     (if room V (length buf + length bytes) then (0, buf @ bytes) else (-1, buf))"

partial_function (option) read_loop ::
    "vmenv \<Rightarrow> int \<Rightarrow> nat \<Rightarrow> string \<Rightarrow> (int \<times> string) option" where
  "read_loop V fd offset dbuf = (case fs_read V fd offset of
     Inl r \<Rightarrow> Some (r, dbuf)
   | Inr bytes \<Rightarrow>
       if bytes = [] then Some (0, dbuf)
       else (case dbuf_put V dbuf bytes of (r, dbuf) \<Rightarrow>
         if r \<noteq> 0 then Some (r, dbuf)
         else read_loop V fd (offset + length bytes) dbuf))"

definition ijLoadFile ::
    "vmenv \<Rightarrow> string \<Rightarrow> string \<Rightarrow> 'z vm_rt_scheme \<Rightarrow> (int \<times> string \<times> 'z vm_rt_scheme) option" where
  "ijLoadFile V dbuf filename w =
     (let r = fs_open V filename in
      if r < 0 then Some (r, dbuf, w)
      else (case read_loop V r 0 dbuf of
          None \<Rightarrow> None
        | Some (r', dbuf) \<Rightarrow> Some (r', dbuf, w\<lparr>open_fds := open_fds w @ [r]\<rparr>)))"

section \<open>The loop and the job queue\<close>

lemma uvMaybeIdle_eq:
  assumes "idle_start V = 0" "idle_stop V = 0"
  shows "uvMaybeIdle V w = Inr (w\<lparr>idle_active := (jobs w \<noteq> [])\<rparr>)"
  using assms by (simp add: uvMaybeIdle_def)

lemma uvMaybeIdle_tracks: "uvMaybeIdle V w = Inr w' \<Longrightarrow> idle_active w' = (jobs w' \<noteq> [])"
  by (auto simp: uvMaybeIdle_def split: if_splits)

lemma uv_turn_tracks: "uv_turn E V J poll qrt w = Some (Inr w') \<Longrightarrow> idle_active w' = (jobs w' \<noteq> [])"
  by (auto simp: uv_turn_def uvCheckCb_def dest: uvMaybeIdle_tracks
      split: sum.splits option.splits)

lemma uv_run_exit:
  assumes "uv_run E V J poll alive qrt w = Some y"
  shows "(idle_active w \<longleftrightarrow> jobs w \<noteq> []) \<longrightarrow>
    (\<forall>w'. y = Inr w' \<longrightarrow> loop_stopped w' \<or> jobs w' = [] \<and> \<not> alive w' \<and> \<not> stop_ref w')"
proof (rule uv_run.raw_induct [OF _ assms], goal_cases)
  case (1 rec E V J poll alive qrt w y)
  show ?case
  proof (cases "loop_stopped w \<or> \<not> (idle_active w \<or> stop_ref w \<or> alive w)")
    case False
    with 1(2) consider c where "y = Inl c"
      | w1 where "uv_turn E V J poll qrt w = Some (Inr w1)" "rec E V J poll alive qrt w1 = Some y"
      by (auto split: option.splits sum.splits)
    then show ?thesis
    proof cases
      case 2
      then show ?thesis using 1(1) [OF 2(2)] uv_turn_tracks [OF 2(1)] by blast
    qed simp
  qed (use 1(2) in auto)
qed



definition plain_vm :: vmenv where
  "plain_vm = \<lparr>global_obj = JS_Object [(''Uint8Array'', JS_Str ''ctor''),
       (''PromiseRejectionEvent'', JS_Str ''ctor''), (''dispatchEvent'', JS_Ref 0)],
     construct = (\<lambda>_ _. Inr (JS_Object [])), NewRuntime = True,
     NewContext = True, loop_init = 0, prepare_init = 0, idle_init = 0, check_init = 0,
     async_init = 0, prepare_start = 0, check_start = 0, idle_start = 0, idle_stop = 0,
     fs_open = (\<lambda>name. if name = ''a.js'' then 3 else -2),
     fs_read = (\<lambda>fd off. Inr (take 2 (drop off ''hello''))), room = (\<lambda>_. True)\<rparr>"

definition vm_world :: vm_rt where
  "vm_world = rt.extend rt0 (vm_rt.fields False False False False False False False False False
     False False 0 JS_UNDEFINED False [])"

lemmas vm_world_defs = vm_world_def rt.defs vm_rt.defs rt0_def



section \<open>Shutting down\<close>

lemma serve_close_hnd:
  "hnd (serve_close h w) p k =
     (if (p, k) = h \<and> hnd w p k = HClosing then HClosed else hnd w p k)"
  by (cases h) (auto simp: serve_close_def uv_finish_close_def)

lemma serve_all_hnd:
  "hnd (fold serve_close hs w) p k =
     (if (p, k) \<in> set hs \<and> hnd w p k = HClosing then HClosed else hnd w p k)"
  by (induction hs arbitrary: w) (auto simp: serve_close_hnd)

lemma serve_all_blk: "blk (fold serve_close hs w) = blk w"
  by (induction hs arbitrary: w) (auto simp: serve_close_def uv_finish_close_def)

lemma close_loop_open:
  assumes "(p, k) \<in> set hs" "hnd w p k = HOpen"
  shows "\<not> fst (close_loop i hs w)"
  using assms(2)
proof (induction i arbitrary: w)
  case (Suc i)
  have "\<not> uv_loop_close hs w" using assms(1) Suc.prems by (force simp: uv_loop_close_def list_all_iff)
  then show ?case using Suc by (simp add: serve_all_hnd)
qed simp

lemma close_loop_closing:
  assumes "\<forall>(p, k)\<in>set hs. hnd w p k \<in> {HClosing, HClosed}" "2 \<le> i"
  shows "\<exists>w'. close_loop i hs w = (True, w') \<and> blk w' = blk w \<and> (\<forall>(p, k)\<in>set hs. hnd w' p k = HClosed)"
proof (cases "uv_loop_close hs w")
  case True
  then show ?thesis using assms(2) by (cases i) (auto simp: uv_loop_close_def list_all_iff)
next
  case False
  let ?w = "fold serve_close hs w"
  have c: "\<forall>(p, k)\<in>set hs. hnd ?w p k = HClosed" using assms(1) by (auto simp: serve_all_hnd)
  then have "uv_loop_close hs ?w" by (auto simp: uv_loop_close_def list_all_iff)
  moreover obtain j where "i = Suc (Suc j)" using assms(2) by (metis add_2_eq_Suc le_Suc_ex)
  ultimately show ?thesis using False c by (simp add: serve_all_blk)
qed

text \<open>The state in which the loop is closed, when the runtime's own handles were open.\<close>

definition closing_own :: "nat \<Rightarrow> 'z vm_rt_scheme \<Rightarrow> 'z vm_rt_scheme" where
  "closing_own qrt w = w\<lparr>hnd := (hnd w)(qrt := (hnd w qrt)(0 := HClosing, 1 := HClosing,
     2 := HClosing, 3 := HClosing))\<rparr>"

lemma free_runtime_steps:
  assumes "qrt \<noteq> 0" "blk w qrt = JeBlock" "\<forall>k<4. hnd w qrt k = HOpen"
    and "JS_FreeValue (u8array_ctor w) (closing_own qrt w) = Inr w1" "teardown w1 = Inr w2"
    and "\<not> curlm_h w2"
  shows "ijFreeRuntime hs teardown qrt w = (case close_loop 5 hs w2 of (closed, w3) \<Rightarrow>
    bindE (CHECK closed w3) (\<lambda>w. je_free qrt w))"
proof -
  have h: "hnd w qrt 0 = HOpen" "hnd w qrt (Suc 0) = HOpen" "hnd w qrt 2 = HOpen" "hnd w qrt 3 = HOpen"
    using assms(3) by auto
  show ?thesis
    using assms h by (simp add: ijFreeRuntime_def deref_def uv_close_def closing_own_def fun_upd_twist)
qed


definition booted :: vm_rt where
  "booted = (case ijNewRuntime plain_env plain_vm Inr vm_world of Inr (_, w) \<Rightarrow> w
     | Inl _ \<Rightarrow> vm_world)"

lemma booted_facts:
  "blk booted 1 = JeBlock" "\<forall>k<4. hnd booted 1 k = HOpen" "u8array_ctor booted = JS_Str ''ctor''"
  "\<not> curlm_h booted"
  by (simp_all add: booted_def ijNewRuntime_def ijNewRuntimeInternal_def rt_defs vm_world_defs
      plain_vm_def plain_env_def ijDefaultOptions_def numeral_nat less_Suc_eq all_conj_distrib Let_def)


section \<open>Loading a file\<close>

text \<open>A file with contents \<open>c\<close>: a read returns a non-empty piece of what follows the offset, of
  whatever length the system picks, and nothing at the end.\<close>

definition serves :: "vmenv \<Rightarrow> int \<Rightarrow> string \<Rightarrow> bool" where
  "serves V fd c \<longleftrightarrow> (\<forall>off. \<exists>k. fs_read V fd off = Inr (take k (drop off c)) \<and>
     (off < length c \<longrightarrow> 0 < k))"

lemma read_loop_all:
  assumes "serves V fd c" "\<forall>n. room V n" "off \<le> length c"
  shows "read_loop V fd off buf = Some (0, buf @ drop off c)"
  using assms(3)
proof (induction "length c - off" arbitrary: off buf rule: less_induct)
  case less
  obtain k where k: "fs_read V fd off = Inr (take k (drop off c))" "off < length c \<longrightarrow> 0 < k"
    using assms(1) by (auto simp: serves_def)
  show ?case
  proof (cases "off < length c")
    case True
    let ?b = "take k (drop off c)"
    have b: "?b \<noteq> []" "0 < length ?b" using True k(2) by auto
    have "read_loop V fd (off + length ?b) (buf @ ?b) = Some (0, (buf @ ?b) @ drop (off + length ?b) c)"
      using b True by (intro less) auto
    moreover have "?b @ drop (off + length ?b) c = drop off c"
    proof -
      have "drop (off + length ?b) c = drop (length ?b) (drop off c)" by (simp add: add.commute)
      moreover have "?b = take (length ?b) (drop off c)"
        by (cases "k \<le> length c - off") (simp_all add: min_def)
      ultimately show ?thesis by (metis append_take_drop_id)
    qed
    ultimately show ?thesis
      using k(1) b(1) assms(2) by (subst read_loop.simps) (simp add: dbuf_put_def)
  next
    case False
    then show ?thesis using k(1) less.prems by (subst read_loop.simps) simp
  qed
qed

text \<open>Loading a file reads all of it, however the system cuts it into pieces, and returns 0;
  but ijLoadFile never closes the descriptor it opened: every load, successful or not, leaves
  one more descriptor open.\<close>

theorem load_file_reads_all:
  assumes "0 \<le> fs_open V name"
  shows "(serves V (fs_open V name) c \<and> (\<forall>n. room V n) \<longrightarrow>
      ijLoadFile V buf name w = Some (0, buf @ c, w\<lparr>open_fds := open_fds w @ [fs_open V name]\<rparr>)) \<and>
    (\<forall>r b w'. ijLoadFile V buf name w = Some (r, b, w') \<longrightarrow>
      open_fds w' = open_fds w @ [fs_open V name])"
proof -
  have l: "ijLoadFile V buf name w = (case read_loop V (fs_open V name) 0 buf of None \<Rightarrow> None
      | Some (r, b) \<Rightarrow> Some (r, b, w\<lparr>open_fds := open_fds w @ [fs_open V name]\<rparr>))"
    using assms by (simp add: ijLoadFile_def Let_def)
  show ?thesis
  proof (intro conjI impI allI)
    assume "serves V (fs_open V name) c \<and> (\<forall>n. room V n)"
    then show "ijLoadFile V buf name w = Some (0, buf @ c, w\<lparr>open_fds := open_fds w @ [fs_open V name]\<rparr>)"
      unfolding l using read_loop_all [of V "fs_open V name" c 0 buf] by simp
  next
    fix r b w' assume "ijLoadFile V buf name w = Some (r, b, w')"
    then show "open_fds w' = open_fds w @ [fs_open V name]"
      unfolding l by (auto split: option.splits)
  qed
qed

theorem load_file_reads_all_witness:
  "ijLoadFile plain_vm [] ''a.js'' vm_world = Some (0, ''hello'', vm_world\<lparr>open_fds := [3]\<rparr>)"
proof -
  have f: "fs_open plain_vm ''a.js'' = 3" "\<forall>n. room plain_vm n" "open_fds vm_world = []"
    by (simp_all add: plain_vm_def vm_world_defs)
  have "fs_read plain_vm 3 off = Inr (take 2 (drop off ''hello''))" for off
    by (simp add: plain_vm_def)
  then have "serves plain_vm 3 ''hello''"
    unfolding serves_def by (intro allI exI [of _ 2] conjI impI) simp_all
  with load_file_reads_all [of plain_vm "''a.js''" "''hello''" "[]" vm_world] f show ?thesis by simp
qed

section \<open>Rejections\<close>

lemma free_value_prints: "JS_FreeValue v w = Inr w' \<Longrightarrow> stderr w' = stderr w"
  by (cases v) (auto split: if_splits)

lemma dump_obj_prints: "ijDumpObj E v w = Inr w' \<Longrightarrow> \<exists>l. stderr w' = stderr w @ l"
  by (auto simp: ijDumpObj_def JS_ToCString_def JS_FreeCString_def free_block_def throw_defs
      split: option.splits if_splits)

lemma dump_error_prints:
  assumes "ijDumpError1 E v w = Inr w'"
  shows "\<exists>l. stderr w' = stderr w @ l"
proof -
  obtain w1 where w1: "ijDumpObj E v w = Inr w1" using assms by (auto simp: ijDumpError1_def)
  obtain l1 where l1: "stderr w1 = stderr w @ l1" using dump_obj_prints [OF w1] by blast
  obtain x w2 where g: "JS_GetPropertyStr E v ''stack'' w1 = (x, w2)" by fastforce
  then have s2: "stderr w2 = stderr w1"
    by (auto simp: JS_GetPropertyStr_def Let_def throw_defs JS_DupValue_eq split: if_splits)
  show ?thesis
  proof (cases "JS_IsError v")
    case True
    then obtain w3 where w3: "(if x \<noteq> JS_UNDEFINED then ijDumpObj E x w2 else Inr w2) = Inr w3"
      "JS_FreeValue x w3 = Inr w'" using assms w1 g by (auto simp: ijDumpError1_def)
    then obtain l2 where "stderr w3 = stderr w2 @ l2"
      using dump_obj_prints [of E x w2 w3] by (auto split: if_splits)
    then show ?thesis using free_value_prints [OF w3(2)] s2 l1 by simp
  qed (use assms w1 l1 in \<open>simp add: ijDumpError1_def\<close>)
qed



end
