(* ===== verification/Curl.thy ===== *)
theory Curl
  imports Vm
begin

text \<open>
  The HTTP client glue of ijutils.c: loading a module over HTTP with a blocking transfer, and
  driving libcurl's multi interface from the event loop, with one poll context per socket, one
  timer and the queue of finished transfers.
\<close>

section \<open>Data\<close>

text \<open>
  IJJSCurlPollCtx is one block whose handle 0 is the poll handle; \<open>ctx_sock\<close> is its sockfd
  field and \<open>ctx_events\<close> what the handle polls for. \<open>sock_ctx\<close> is what curl\_multi\_assign
  attached to a socket (0 for NULL). \<open>curl_timer\<close> is the armed timeout, \<open>curl_msgs\<close> the
  finished transfers waiting to be read with their result, \<open>easies\<close> the easy handles that are
  attached to the multi handle and \<open>easy_live\<close> those not yet cleaned up.
\<close>

record curl_rt = vm_rt +
  sock_ctx :: "int \<Rightarrow> nat"
  ctx_sock :: "nat \<Rightarrow> int"
  ctx_events :: "nat \<Rightarrow> int"
  curl_timer :: "int option"
  curl_msgs :: "(nat \<times> int) list"
  easies :: "nat list"
  easy_live :: "nat \<Rightarrow> bool"

text \<open>
  libcurl and libuv: \<open>transfer url\<close> is the sequence of pieces of the body handed to the write
  callback and the result of the transfer, \<open>response_code\<close> the result of asking for the status
  and the status. \<open>easy_private\<close> says whether a transfer carries its private structure.
\<close>

record curlenv =
  easy_init :: bool
  transfer :: "string \<Rightarrow> string list \<times> int"
  response_code :: "string \<Rightarrow> int \<times> int"
  easy_private :: "nat \<Rightarrow> bool"
  poll_init :: "int \<Rightarrow> int"
  poll_start :: int
  poll_stop :: int
  curl_timer_init :: int
  curl_timer_start :: int
  curl_timer_stop :: int

definition CURL_POLL_IN :: int where "CURL_POLL_IN = 1"
definition CURL_POLL_OUT :: int where "CURL_POLL_OUT = 2"
definition CURL_POLL_INOUT :: int where "CURL_POLL_INOUT = 3"
definition CURL_POLL_REMOVE :: int where "CURL_POLL_REMOVE = 4"
definition CURL_SOCKET_TIMEOUT :: int where "CURL_SOCKET_TIMEOUT = -1"
definition UV_READABLE :: int where "UV_READABLE = 1"
definition UV_WRITABLE :: int where "UV_WRITABLE = 2"

lemmas curl_consts = CURL_POLL_IN_def CURL_POLL_OUT_def CURL_POLL_INOUT_def CURL_POLL_REMOVE_def
  CURL_SOCKET_TIMEOUT_def UV_READABLE_def UV_WRITABLE_def

section \<open>Blocking transfers\<close>

definition ijCurlWriteCb :: "vmenv \<Rightarrow> string \<Rightarrow> string \<Rightarrow> int \<times> string" where
  "ijCurlWriteCb V ptr dbuf = (case dbuf_put V dbuf ptr of (r, dbuf) \<Rightarrow>
     if r \<noteq> 0 then (wrap64 (-1), dbuf) else (int (length ptr), dbuf))"

text \<open>libcurl gives up with CURLE\_WRITE\_ERROR (23) when the callback does not take a piece, and
  answers CURLE\_BAD\_FUNCTION\_ARGUMENT (43) on a NULL handle.\<close>

fun deliver :: "vmenv \<Rightarrow> string list \<Rightarrow> string \<Rightarrow> bool \<times> string" where
  "deliver V [] dbuf = (True, dbuf)"
| "deliver V (c # cs) dbuf = (case ijCurlWriteCb V c dbuf of (n, dbuf) \<Rightarrow>
     if n = int (length c) then deliver V cs dbuf else (False, dbuf))"

definition curl_easy_perform :: "vmenv \<Rightarrow> curlenv \<Rightarrow> string \<Rightarrow> string \<Rightarrow> int \<times> string" where
  "curl_easy_perform V C url dbuf =
     (if \<not> easy_init C then (43, dbuf)
      else case transfer C url of (chunks, res) \<Rightarrow>
        (case deliver V chunks dbuf of (taken, dbuf) \<Rightarrow> (if taken then res else 23, dbuf)))"

definition ijCurlLoadHttp :: "vmenv \<Rightarrow> curlenv \<Rightarrow> string \<Rightarrow> string \<Rightarrow> int \<times> string" where
  "ijCurlLoadHttp V C dbuf url = (case curl_easy_perform V C url dbuf of (res, dbuf) \<Rightarrow>
     let (res, r) = (if res = 0
           then (case response_code C url of (res, code) \<Rightarrow> (res, if res = 0 then to_s32 code else -1))
           else (res, -1));
         r = (if res \<noteq> 0 then - res else r);
         (_, dbuf) = dbuf_put V dbuf [CHR 0x00]
     in (r, dbuf))"

section \<open>Transfers driven by the loop\<close>

text \<open>
  A message is read, its done callback runs with the result, then the handle leaves the multi
  handle and is cleaned up. \<open>done_cb\<close> is the callback the transfer's private structure holds
  (that of an XMLHttpRequest); it may start new transfers but does not finish them itself, so
  the messages read are those that were queued. Messages other than CURLMSG\_DONE abort; libcurl
  has no others.
\<close>

fun check_msgs ::
    "curlenv \<Rightarrow> (nat \<Rightarrow> int \<Rightarrow> 'z curl_rt_scheme \<Rightarrow> 'z curl_rt_scheme res) \<Rightarrow> (nat \<times> int) list
       \<Rightarrow> 'z curl_rt_scheme \<Rightarrow> 'z curl_rt_scheme res" where
  "check_msgs C done_cb [] w = Inr (w\<lparr>curl_msgs := []\<rparr>)"
| "check_msgs C done_cb ((easy, result) # ms) w =
     bindE (CHECK (easy \<noteq> 0) (w\<lparr>curl_msgs := ms\<rparr>)) (\<lambda>w.
     bindE (CHECK (easy_private C easy) w) (\<lambda>w.
     bindE (done_cb easy result w) (\<lambda>w.
     let w = w\<lparr>easies := removeAll easy (easies w)\<rparr> in
     if \<not> easy_live w easy then Inl DoubleFree
     else check_msgs C done_cb ms (w\<lparr>easy_live := (easy_live w)(easy := False)\<rparr>))))"

definition ijCheckMultiInfo ::
    "curlenv \<Rightarrow> (nat \<Rightarrow> int \<Rightarrow> 'z curl_rt_scheme \<Rightarrow> 'z curl_rt_scheme res) \<Rightarrow> 'z curl_rt_scheme
       \<Rightarrow> 'z curl_rt_scheme res" where
  "ijCheckMultiInfo C done_cb w = check_msgs C done_cb (curl_msgs w) w"

definition uvPollCloseCb :: "nat \<Rightarrow> 'z curl_rt_scheme \<Rightarrow> 'z curl_rt_scheme res" where
  "uvPollCloseCb poll_ctx w = bindE (CHECK (poll_ctx \<noteq> 0) w) (je_free poll_ctx)"

text \<open>\<open>action\<close> is curl\_multi\_socket\_action: libcurl moves its transfers on.\<close>

definition uvPollCb ::
    "curlenv \<Rightarrow> (nat \<Rightarrow> int \<Rightarrow> 'z curl_rt_scheme \<Rightarrow> 'z curl_rt_scheme res)
       \<Rightarrow> (int \<Rightarrow> int \<Rightarrow> 'z curl_rt_scheme \<Rightarrow> 'z curl_rt_scheme res) \<Rightarrow> nat \<Rightarrow> nat \<Rightarrow> int
       \<Rightarrow> 'z curl_rt_scheme \<Rightarrow> 'z curl_rt_scheme res" where
  "uvPollCb C done_cb action qrt poll_ctx events w =
     bindE (CHECK (poll_ctx \<noteq> 0) w) (\<lambda>w.
     bindE (deref poll_ctx w) (\<lambda>w.
     bindE (CHECK (qrt \<noteq> 0) w) (\<lambda>w.
     let flags = (if bit events 0 then 1 else 0) + (if bit events 1 then 2 else 0) in
     bindE (action (ctx_sock w poll_ctx) flags w) (ijCheckMultiInfo C done_cb))))"

definition poll_mask :: "int \<Rightarrow> int" where
  "poll_mask action = (if action \<noteq> CURL_POLL_IN then UV_WRITABLE else 0)
     + (if action \<noteq> CURL_POLL_OUT then UV_READABLE else 0)"

definition ijCurlHandleSocket ::
    "curlenv \<Rightarrow> int \<Rightarrow> int \<Rightarrow> nat \<Rightarrow> nat \<Rightarrow> 'z curl_rt_scheme \<Rightarrow> (int \<times> 'z curl_rt_scheme) res" where
  "ijCurlHandleSocket C s action qrt socketp w =
     bindE (CHECK (qrt \<noteq> 0) w) (\<lambda>w.
     if action \<in> {CURL_POLL_IN, CURL_POLL_OUT, CURL_POLL_INOUT} then
       bindE (if socketp = 0 then
                (case je_calloc w of (p, w) \<Rightarrow>
                   if p = 0 then Inr (0, w)
                   else bindE (CHECK (poll_init C s = 0) w) (\<lambda>w.
                     Inr (p, (uv_handle_init p 0 w)\<lparr>ctx_sock := (ctx_sock w)(p := s)\<rparr>)))
              else Inr (socketp, w)) (\<lambda>(poll_ctx, w).
       if poll_ctx = 0 then Inr (-1, w)
       else
         let w = w\<lparr>sock_ctx := (sock_ctx w)(s := poll_ctx)\<rparr> in
         bindE (deref poll_ctx w) (\<lambda>w.
         bindE (CHECK (poll_start C = 0) w) (\<lambda>w.
         Inr (0, w\<lparr>ctx_events := (ctx_events w)(poll_ctx := poll_mask action)\<rparr>))))
     else if action = CURL_POLL_REMOVE then
       if socketp \<noteq> 0 then
         bindE (deref socketp w) (\<lambda>w.
         bindE (CHECK (poll_stop C = 0) w) (\<lambda>w.
         let w = w\<lparr>ctx_events := (ctx_events w)(socketp := 0), sock_ctx := (sock_ctx w)(s := 0)\<rparr> in
         bindE (uv_close socketp 0 w) (\<lambda>w. Inr (0, w))))
       else Inr (0, w)
     else Inl AbortCalled)"

definition uvCurlTimerCb ::
    "curlenv \<Rightarrow> (nat \<Rightarrow> int \<Rightarrow> 'z curl_rt_scheme \<Rightarrow> 'z curl_rt_scheme res)
       \<Rightarrow> (int \<Rightarrow> int \<Rightarrow> 'z curl_rt_scheme \<Rightarrow> 'z curl_rt_scheme res) \<Rightarrow> nat
       \<Rightarrow> 'z curl_rt_scheme \<Rightarrow> 'z curl_rt_scheme res" where
  "uvCurlTimerCb C done_cb action qrt w =
     bindE (CHECK (qrt \<noteq> 0) w) (\<lambda>w.
     bindE (action CURL_SOCKET_TIMEOUT 0 w) (ijCheckMultiInfo C done_cb))"

definition ijCurlStartTimeout ::
    "curlenv \<Rightarrow> int \<Rightarrow> nat \<Rightarrow> 'z curl_rt_scheme \<Rightarrow> (int \<times> 'z curl_rt_scheme) res" where
  "ijCurlStartTimeout C timeout_ms qrt w =
     bindE (CHECK (qrt \<noteq> 0) w) (\<lambda>w.
     if timeout_ms < 0 then
       bindE (CHECK (curl_timer_stop C = 0) w) (\<lambda>w. Inr (0, w\<lparr>curl_timer := None\<rparr>))
     else
       let timeout_ms = (if timeout_ms = 0 then 1 else timeout_ms) in
       bindE (CHECK (curl_timer_start C = 0) w) (\<lambda>w.
       Inr (0, w\<lparr>curl_timer := Some timeout_ms\<rparr>)))"

definition ijGetCurlm :: "curlenv \<Rightarrow> nat \<Rightarrow> 'z curl_rt_scheme \<Rightarrow> 'z curl_rt_scheme res" where
  "ijGetCurlm C qrt w =
     bindE (CHECK (qrt \<noteq> 0) w) (\<lambda>w.
     if curlm_h w then Inr w
     else bindE (CHECK (curl_timer_init C = 0) (w\<lparr>curlm_h := True\<rparr>)) (\<lambda>w.
       Inr (uv_handle_init qrt 4 w)))"

lemmas curl_defs = ijCurlHandleSocket_def uvPollCloseCb_def uvPollCb_def ijCurlStartTimeout_def
  ijGetCurlm_def uvCurlTimerCb_def ijCheckMultiInfo_def

section \<open>Poll contexts\<close>

text \<open>What libcurl and the loop do to the sockets: libcurl asks for a socket to be watched or
  dropped, passing the pointer it was given for that socket; the loop serves a close request.\<close>

datatype curl_ev = Sock int int | PollClosed nat

fun curl_do :: "curlenv \<Rightarrow> nat \<Rightarrow> curl_ev \<Rightarrow> 'z curl_rt_scheme \<Rightarrow> 'z curl_rt_scheme res" where
  "curl_do C qrt (Sock s a) w = bindE (ijCurlHandleSocket C s a qrt (sock_ctx w s) w) (\<lambda>(r, w). Inr w)"
| "curl_do C qrt (PollClosed p) w = uvPollCloseCb p (uv_finish_close p 0 w)"

fun curl_may :: "curl_ev \<Rightarrow> 'z curl_rt_scheme \<Rightarrow> bool" where
  "curl_may (Sock s a) w = (a \<in> {CURL_POLL_IN, CURL_POLL_OUT, CURL_POLL_INOUT, CURL_POLL_REMOVE})"
| "curl_may (PollClosed p) w = (hnd w p 0 = HClosing)"

fun curl_run :: "curlenv \<Rightarrow> nat \<Rightarrow> curl_ev list \<Rightarrow> 'z curl_rt_scheme \<Rightarrow> 'z curl_rt_scheme res" where
  "curl_run C qrt [] w = Inr w"
| "curl_run C qrt (e # es) w = bindE (curl_do C qrt e w) (curl_run C qrt es)"

fun curl_legal :: "curlenv \<Rightarrow> nat \<Rightarrow> curl_ev list \<Rightarrow> 'z curl_rt_scheme \<Rightarrow> bool" where
  "curl_legal C qrt [] w = True"
| "curl_legal C qrt (e # es) w =
     (curl_may e w \<and> (case curl_do C qrt e w of Inl _ \<Rightarrow> True | Inr w \<Rightarrow> curl_legal C qrt es w))"

text \<open>A poll context is live, was not there before (\<open>B\<close> are the blocks at the start) and has no
  handle but its poll handle.\<close>

definition poll_ctx_ok :: "(nat \<Rightarrow> bkind) \<Rightarrow> nat \<Rightarrow> 'z curl_rt_scheme \<Rightarrow> bool" where
  "poll_ctx_ok B p w \<longleftrightarrow> p \<noteq> 0 \<and> blk w p = JeBlock \<and> B p = NoBlock \<and> hnd w p 1 = HNone"

definition curl_inv :: "(nat \<Rightarrow> bkind) \<Rightarrow> 'z curl_rt_scheme \<Rightarrow> bool" where
  "curl_inv B w \<longleftrightarrow> fresh_blk w \<and> (\<forall>p. tick w < p \<longrightarrow> B p = NoBlock) \<and>
     (\<forall>s. sock_ctx w s \<noteq> 0 \<longrightarrow> poll_ctx_ok B (sock_ctx w s) w \<and>
        hnd w (sock_ctx w s) 0 = HOpen \<and> ctx_sock w (sock_ctx w s) = s \<and>
        ctx_events w (sock_ctx w s) \<in> {1, 2, 3}) \<and>
     (\<forall>p. hnd w p 0 = HClosing \<longrightarrow> poll_ctx_ok B p w) \<and>
     (\<forall>p. blk w p \<noteq> B p \<longrightarrow> p \<noteq> 0 \<and> (\<exists>s. sock_ctx w s = p) \<or> hnd w p 0 = HClosing)"

lemma curl_inv_sock:
  assumes "curl_inv B w" "sock_ctx w s = p" "p \<noteq> 0"
  shows "poll_ctx_ok B p w" "hnd w p 0 = HOpen" "ctx_sock w p = s" "ctx_events w p \<in> {1, 2, 3}"
  using assms unfolding curl_inv_def by blast+

lemma curl_inv_closing: "curl_inv B w \<Longrightarrow> hnd w p 0 = HClosing \<Longrightarrow> poll_ctx_ok B p w"
  by (simp add: curl_inv_def)

text \<open>Two sockets have two contexts.\<close>

lemma curl_inv_inj: "curl_inv B w \<Longrightarrow> sock_ctx w s = p \<Longrightarrow> sock_ctx w t = p \<Longrightarrow> p \<noteq> 0 \<Longrightarrow> s = t"
  using curl_inv_sock(3) by metis

lemma poll_mask_range: "a \<in> {CURL_POLL_IN, CURL_POLL_OUT, CURL_POLL_INOUT} \<Longrightarrow> poll_mask a \<in> {1, 2, 3}"
  by (auto simp: poll_mask_def curl_consts)

definition poll_env_ok :: "curlenv \<Rightarrow> bool" where
  "poll_env_ok C \<longleftrightarrow> (\<forall>s. poll_init C s = 0) \<and> poll_start C = 0 \<and> poll_stop C = 0"

lemma curl_inv_watch_new:
  assumes "curl_inv B w" "qrt \<noteq> 0" "poll_env_ok C" "sock_ctx w s = 0"
    and "a \<in> {CURL_POLL_IN, CURL_POLL_OUT, CURL_POLL_INOUT}"
  shows "\<exists>w'. curl_do C qrt (Sock s a) w = Inr w' \<and> curl_inv B w'"
proof (cases "oom w (tick w)")
  case True
  then show ?thesis using assms
    by (auto simp: ijCurlHandleSocket_def je_calloc_def curl_inv_def fresh_blk_def poll_ctx_ok_def)
next
  case False
  let ?p = "Suc (tick w)"
  define w' where "w' = w\<lparr>tick := ?p, blk := (blk w)(?p := JeBlock),
      hnd := (hnd w)(?p := (\<lambda>_. HNone)(0 := HOpen)), ctx_sock := (ctx_sock w)(?p := s),
      sock_ctx := (sock_ctx w)(s := ?p), ctx_events := (ctx_events w)(?p := poll_mask a)\<rparr>"
  have run: "curl_do C qrt (Sock s a) w = Inr w'"
    using assms(2-5) False
    by (auto simp: ijCurlHandleSocket_def je_calloc_def uv_handle_init_def deref_def poll_env_ok_def w'_def)
  have free: "blk w ?p = NoBlock" "B ?p = NoBlock"
    using assms(1) by (simp_all add: curl_inv_def fresh_blk_def)
  have other: "sock_ctx w t \<noteq> ?p" for t
    using curl_inv_sock(1) [OF assms(1), of t ?p] free by (auto simp: poll_ctx_ok_def)
  have "curl_inv B w'"
    unfolding curl_inv_def
  proof (intro conjI allI impI)
    show "fresh_blk w'" "\<And>p. tick w' < p \<Longrightarrow> B p = NoBlock"
      using assms(1) by (auto simp: curl_inv_def fresh_blk_def w'_def)
  next
    fix t assume t: "sock_ctx w' t \<noteq> 0"
    consider "t = s" | "t \<noteq> s" by blast
    then have "poll_ctx_ok B (sock_ctx w' t) w' \<and> hnd w' (sock_ctx w' t) 0 = HOpen \<and>
        ctx_sock w' (sock_ctx w' t) = t \<and> ctx_events w' (sock_ctx w' t) \<in> {1, 2, 3}"
    proof cases
      case 1
      then show ?thesis using free poll_mask_range [OF assms(5)] by (simp add: w'_def poll_ctx_ok_def)
    next
      case 2
      then have "sock_ctx w' t = sock_ctx w t" "sock_ctx w t \<noteq> 0" using t by (simp_all add: w'_def)
      with other [of t] assms(1) show ?thesis by (simp add: w'_def poll_ctx_ok_def curl_inv_def)
    qed
    then show "poll_ctx_ok B (sock_ctx w' t) w'" "hnd w' (sock_ctx w' t) 0 = HOpen"
      "ctx_sock w' (sock_ctx w' t) = t" "ctx_events w' (sock_ctx w' t) \<in> {1, 2, 3}" by blast+
  next
    fix p assume "hnd w' p 0 = HClosing"
    then have "p \<noteq> ?p" "hnd w p 0 = HClosing" by (auto simp: w'_def split: if_splits)
    then show "poll_ctx_ok B p w'" using assms(1) by (simp add: curl_inv_def poll_ctx_ok_def w'_def)
  next
    fix p assume b: "blk w' p \<noteq> B p"
    show "p \<noteq> 0 \<and> (\<exists>t. sock_ctx w' t = p) \<or> hnd w' p 0 = HClosing"
    proof (cases "p = ?p")
      case False
      then have "blk w p \<noteq> B p" using b by (simp add: w'_def)
      then consider t where "p \<noteq> 0" "sock_ctx w t = p" | "hnd w p 0 = HClosing"
        using assms(1) by (auto simp: curl_inv_def)
      then show ?thesis
      proof cases
        case 1
        then show ?thesis
          using assms(4) b False by (cases "t = s") (auto simp: w'_def)
      qed (use False in \<open>simp add: w'_def\<close>)
    qed (auto simp: w'_def)
  qed
  with run show ?thesis by blast
qed

lemma curl_inv_watch_again:
  assumes "curl_inv B w" "qrt \<noteq> 0" "poll_env_ok C" "sock_ctx w s = p" "p \<noteq> 0"
    and "a \<in> {CURL_POLL_IN, CURL_POLL_OUT, CURL_POLL_INOUT}"
  shows "\<exists>w'. curl_do C qrt (Sock s a) w = Inr w' \<and> curl_inv B w'"
proof -
  note p = curl_inv_sock [OF assms(1,4,5)]
  define w' where "w' = w\<lparr>ctx_events := (ctx_events w)(p := poll_mask a)\<rparr>"
  have "(sock_ctx w)(s := p) = sock_ctx w" using assms(4) by auto
  then have "curl_do C qrt (Sock s a) w = Inr w'"
    using assms(2-6) p(1)
    by (auto simp: ijCurlHandleSocket_def deref_def poll_env_ok_def w'_def poll_ctx_ok_def)
  moreover have "curl_inv B w'"
    using assms(1) poll_mask_range [OF assms(6)]
    by (simp add: w'_def curl_inv_def fresh_blk_def poll_ctx_ok_def)
  ultimately show ?thesis by blast
qed

lemma curl_inv_remove:
  assumes "curl_inv B w" "qrt \<noteq> 0" "poll_env_ok C" "sock_ctx w s = p" "p \<noteq> 0"
  shows "\<exists>w'. curl_do C qrt (Sock s CURL_POLL_REMOVE) w = Inr w' \<and> curl_inv B w'"
proof -
  note p = curl_inv_sock [OF assms(1,4,5)]
  define w' where "w' = w\<lparr>ctx_events := (ctx_events w)(p := 0), sock_ctx := (sock_ctx w)(s := 0),
      hnd := (hnd w)(p := (hnd w p)(0 := HClosing))\<rparr>"
  have run: "curl_do C qrt (Sock s CURL_POLL_REMOVE) w = Inr w'"
    using assms(2-5) p(1,2)
    by (simp add: ijCurlHandleSocket_def deref_def poll_env_ok_def w'_def poll_ctx_ok_def uv_close_def
        curl_consts)
  have other: "t \<noteq> s \<and> sock_ctx w t \<noteq> p" if "sock_ctx w' t \<noteq> 0" for t
    using that curl_inv_inj [OF assms(1,4), of t] assms(5) by (auto simp: w'_def split: if_splits)
  have "curl_inv B w'"
    unfolding curl_inv_def
  proof (intro conjI allI impI)
    show "fresh_blk w'" "\<And>p. tick w' < p \<Longrightarrow> B p = NoBlock"
      using assms(1) by (auto simp: curl_inv_def fresh_blk_def w'_def)
  next
    fix t assume t: "sock_ctx w' t \<noteq> 0"
    then have "sock_ctx w' t = sock_ctx w t" "sock_ctx w t \<noteq> p" "sock_ctx w t \<noteq> 0"
      using other [OF t] by (auto simp: w'_def)
    with curl_inv_sock [OF assms(1) refl, of t]
    show "poll_ctx_ok B (sock_ctx w' t) w'" "hnd w' (sock_ctx w' t) 0 = HOpen"
      "ctx_sock w' (sock_ctx w' t) = t" "ctx_events w' (sock_ctx w' t) \<in> {1, 2, 3}"
      by (simp_all add: w'_def poll_ctx_ok_def)
  next
    fix q assume "hnd w' q 0 = HClosing"
    then have "poll_ctx_ok B q w" using p(1) curl_inv_closing [OF assms(1), of q]
      by (cases "q = p") (simp_all add: w'_def)
    then show "poll_ctx_ok B q w'" by (auto simp: poll_ctx_ok_def w'_def)
  next
    fix q assume b: "blk w' q \<noteq> B q"
    then consider t where "q \<noteq> 0" "sock_ctx w t = q" | "hnd w q 0 = HClosing"
      using assms(1) by (auto simp: curl_inv_def w'_def)
    then show "q \<noteq> 0 \<and> (\<exists>t. sock_ctx w' t = q) \<or> hnd w' q 0 = HClosing"
    proof cases
      case 1
      then show ?thesis using assms(4) by (cases "t = s") (auto simp: w'_def)
    qed (auto simp: w'_def)
  qed
  with run show ?thesis by blast
qed

lemma curl_inv_closed:
  assumes "curl_inv B w" "hnd w p 0 = HClosing"
  shows "\<exists>w'. curl_do C qrt (PollClosed p) w = Inr w' \<and> curl_inv B w' \<and> blk w' p = NoBlock"
proof -
  note p = curl_inv_closing [OF assms]
  define w' where "w' = w\<lparr>blk := (blk w)(p := NoBlock), hnd := (hnd w)(p := (hnd w p)(0 := HClosed))\<rparr>"
  have run: "curl_do C qrt (PollClosed p) w = Inr w'"
    using p by (simp add: uvPollCloseCb_def uv_finish_close_def je_free_def free_block_def
        handles_quiet_def poll_ctx_ok_def w'_def)
  have other: "sock_ctx w t \<noteq> p" for t
    using curl_inv_sock(2) [OF assms(1), of t p] assms(2) p by (auto simp: poll_ctx_ok_def)
  have "curl_inv B w'"
    unfolding curl_inv_def
  proof (intro conjI allI impI)
    show "fresh_blk w'" "\<And>p. tick w' < p \<Longrightarrow> B p = NoBlock"
      using assms(1) by (auto simp: curl_inv_def fresh_blk_def w'_def)
  next
    fix t assume "sock_ctx w' t \<noteq> 0"
    with curl_inv_sock [OF assms(1) refl, of t] other [of t]
    show "poll_ctx_ok B (sock_ctx w' t) w'" "hnd w' (sock_ctx w' t) 0 = HOpen"
      "ctx_sock w' (sock_ctx w' t) = t" "ctx_events w' (sock_ctx w' t) \<in> {1, 2, 3}"
      by (simp_all add: w'_def poll_ctx_ok_def)
  next
    fix q assume "hnd w' q 0 = HClosing"
    then show "poll_ctx_ok B q w'" using curl_inv_closing [OF assms(1), of q]
      by (cases "q = p") (simp_all add: w'_def poll_ctx_ok_def)
  next
    fix q assume b: "blk w' q \<noteq> B q"
    then have "q \<noteq> p" "blk w q \<noteq> B q" using p by (auto simp: w'_def poll_ctx_ok_def split: if_splits)
    then show "q \<noteq> 0 \<and> (\<exists>t. sock_ctx w' t = q) \<or> hnd w' q 0 = HClosing"
      using assms(1) by (auto simp: curl_inv_def w'_def)
  qed
  with run show ?thesis by (simp add: w'_def)
qed

lemma curl_do_safe:
  assumes "curl_inv B w" "qrt \<noteq> 0" "poll_env_ok C" "curl_may e w"
  shows "\<exists>w'. curl_do C qrt e w = Inr w' \<and> curl_inv B w'"
proof (cases e)
  case (Sock s a)
  consider "a \<in> {CURL_POLL_IN, CURL_POLL_OUT, CURL_POLL_INOUT}" | "a = CURL_POLL_REMOVE"
    using assms(4) Sock by auto
  then show ?thesis
  proof cases
    case 1
    then show ?thesis using curl_inv_watch_new [OF assms(1-3)] curl_inv_watch_again [OF assms(1-3) refl] Sock
      by (cases "sock_ctx w s = 0") blast+
  next
    case 2
    show ?thesis
    proof (cases "sock_ctx w s = 0")
      case True
      then show ?thesis using assms(1,2) 2 Sock by (simp add: ijCurlHandleSocket_def curl_consts)
    qed (use curl_inv_remove [OF assms(1-3) refl] 2 Sock in blast)
  qed
next
  case (PollClosed p)
  then show ?thesis using curl_inv_closed [OF assms(1), of p C qrt] assms(4) by auto
qed

lemma curl_run_safe:
  assumes "curl_inv B w" "qrt \<noteq> 0" "poll_env_ok C" "curl_legal C qrt es w"
  shows "\<exists>w'. curl_run C qrt es w = Inr w' \<and> curl_inv B w'"
  using assms(1,4)
proof (induction es arbitrary: w)
  case (Cons e es)
  then obtain w1 where "curl_do C qrt e w = Inr w1" "curl_inv B w1"
    using curl_do_safe [OF Cons.prems(1) assms(2,3), of e] by auto
  with Cons show ?case by simp
qed simp

text \<open>C23. The HTTP client's poll contexts: whatever libcurl asks for the sockets and whenever the
  loop serves the closes, no context is used or freed wrongly. Every watched socket has a
  context of its own that is live, knows its socket and polls for something, and every block
  that was not there at the start belongs to a watched socket or is being closed: nothing leaks.\<close>

theorem curl_sockets_safe:
  assumes "fresh_blk w" "\<forall>s. sock_ctx w s = 0" "\<forall>p. hnd w p 0 \<noteq> HClosing" "qrt \<noteq> 0" "poll_env_ok C"
    and "curl_legal C qrt es w"
  shows "\<exists>w'. curl_run C qrt es w = Inr w' \<and>
    (\<forall>s p. sock_ctx w' s = p \<and> p \<noteq> 0 \<longrightarrow> blk w' p = JeBlock \<and> hnd w' p 0 = HOpen \<and>
       ctx_sock w' p = s \<and> ctx_events w' p \<in> {1, 2, 3}) \<and>
    (\<forall>p. blk w' p \<noteq> blk w p \<longrightarrow> p \<noteq> 0 \<and> (\<exists>s. sock_ctx w' s = p) \<or> hnd w' p 0 = HClosing)"
proof -
  have "curl_inv (blk w) w" using assms(1-3) by (simp add: curl_inv_def fresh_blk_def)
  from curl_run_safe [OF this assms(4-6)] obtain w'
    where w': "curl_run C qrt es w = Inr w'" "curl_inv (blk w) w'" by blast
  have "blk w' p = JeBlock \<and> hnd w' p 0 = HOpen \<and> ctx_sock w' p = s \<and> ctx_events w' p \<in> {1, 2, 3}"
    if "sock_ctx w' s = p" "p \<noteq> 0" for s p
    using curl_inv_sock [OF w'(2) that] by (simp add: poll_ctx_ok_def)
  moreover have "\<forall>p. blk w' p \<noteq> blk w p \<longrightarrow> p \<noteq> 0 \<and> (\<exists>s. sock_ctx w' s = p) \<or> hnd w' p 0 = HClosing"
    using w'(2) unfolding curl_inv_def by blast
  ultimately show ?thesis using w'(1) by blast
qed

definition plain_curl :: curlenv where
  "plain_curl = \<lparr>easy_init = True,
     transfer = (\<lambda>url. ([''let a'', '' = 1;''], 0)), response_code = (\<lambda>url. (0, 200)),
     easy_private = (\<lambda>_. True), poll_init = (\<lambda>_. 0), poll_start = 0, poll_stop = 0,
     curl_timer_init = 0, curl_timer_start = 0, curl_timer_stop = 0\<rparr>"

definition curl_world :: curl_rt where
  "curl_world = vm_rt.extend vm_world (curl_rt.fields (\<lambda>_. 0) (\<lambda>_. 0) (\<lambda>_. 0) None [] [] (\<lambda>_. False))"

lemmas curl_world_defs = curl_world_def vm_rt.defs curl_rt.defs vm_world_def rt.defs rt0_def

theorem curl_sockets_safe_witness:
  "\<exists>w'. curl_run plain_curl 9 [Sock 5 1, Sock 6 3, Sock 5 2, Sock 5 4, PollClosed 1] curl_world = Inr w' \<and>
    (\<forall>p. blk w' p \<noteq> blk curl_world p \<longrightarrow> p \<noteq> 0 \<and> (\<exists>s. sock_ctx w' s = p) \<or> hnd w' p 0 = HClosing)"
proof -
  have "fresh_blk curl_world" "\<forall>s. sock_ctx curl_world s = 0" "\<forall>p. hnd curl_world p 0 \<noteq> HClosing"
    "(9 :: nat) \<noteq> 0" "poll_env_ok plain_curl"
    by (simp_all add: curl_world_defs fresh_blk_def poll_env_ok_def plain_curl_def)
  moreover have "curl_legal plain_curl 9 [Sock 5 1, Sock 6 3, Sock 5 2, Sock 5 4, PollClosed 1] curl_world"
    by (simp add: curl_world_defs plain_curl_def curl_defs rt_defs curl_consts poll_mask_def)
  ultimately show ?thesis using curl_sockets_safe [of curl_world 9 plain_curl] by blast
qed

end
