(* ===== verification/Modules.thy ===== *)
theory Modules
  imports Curl "HOL-Library.AList"
begin

text \<open>
  ijmodules.c, ijbootstrap.c, ijstd.c and ijEvalFile of ijvm.c: how an import specifier becomes
  a file name, how a module is found and compiled, its import.meta, the start-up scripts, and
  evaluating files and strings.
\<close>

section \<open>Data\<close>

text \<open>
  \<open>evals\<close> lists the calls of JS\_Eval (source text, file name, flags), \<open>ran\<close> the compiled
  functions and modules that were run, \<open>metas\<close> the import.meta object of a module, \<open>libs\<close> the
  shared libraries that are open and \<open>exit_status\<close> the argument of exit().
\<close>

record mod_rt = curl_rt +
  evals :: "(string \<times> string \<times> int) list"
  ran :: "jsval list"
  metas :: "nat \<Rightarrow> (string \<times> jsval) list"
  libs :: "string list"
  exit_status :: "int option"

text \<open>
  The engine and the system: compiling (\<open>js_eval\<close>) and running (\<open>run_function\<close>) yield an
  exception or a value; a module value is \<open>JS_Ref m\<close> with \<open>is_module\<close>. \<open>bytecode\<close> are the
  arrays of the generated file ijjs.c.
\<close>

record modenv =
  accessible :: "string \<Rightarrow> bool"
  js_eval :: "string \<Rightarrow> string \<Rightarrow> int \<Rightarrow> jsval + jsval"
  run_function :: "jsval \<Rightarrow> jsval + jsval"
  read_object :: "string \<Rightarrow> jsval + jsval"
  resolve_module :: "jsval \<Rightarrow> bool"
  detect_module :: "string \<Rightarrow> bool"
  is_module :: "jsval \<Rightarrow> bool"
  mod_name :: "nat \<Rightarrow> string option"
  realpath :: "string \<Rightarrow> int + string"
  import_meta :: "nat \<Rightarrow> bool"
  dl_open :: "string \<Rightarrow> bool"
  dl_sym :: "string \<Rightarrow> bool"
  dl_init :: "string \<Rightarrow> nat"
  bytecode :: "string \<Rightarrow> string"

definition JS_EVAL_TYPE_GLOBAL :: int where "JS_EVAL_TYPE_GLOBAL = 0"
definition JS_EVAL_TYPE_MODULE :: int where "JS_EVAL_TYPE_MODULE = 1"
definition JS_EVAL_FLAG_COMPILE_ONLY :: int where "JS_EVAL_FLAG_COMPILE_ONLY = 32"
definition JS_EVAL_FLAG_BACKTRACE_BARRIER :: int where "JS_EVAL_FLAG_BACKTRACE_BARRIER = 64"
definition PATH_MAX :: nat where "PATH_MAX = 250"

lemmas eval_flags = JS_EVAL_TYPE_GLOBAL_def JS_EVAL_TYPE_MODULE_def JS_EVAL_FLAG_COMPILE_ONLY_def
  JS_EVAL_FLAG_BACKTRACE_BARRIER_def

definition JS_Eval ::
    "modenv \<Rightarrow> string \<Rightarrow> string \<Rightarrow> int \<Rightarrow> 'z mod_rt_scheme \<Rightarrow> jsval \<times> 'z mod_rt_scheme" where
  "JS_Eval M input filename flags w =
     (let w = w\<lparr>evals := evals w @ [(input, filename, flags)]\<rparr>
      in case js_eval M input filename flags of
           Inl e \<Rightarrow> JS_Throw e w
         | Inr v \<Rightarrow> (v, JS_DupValue v w))"

text \<open>JS\_EvalFunction takes over the reference to the compiled function.\<close>

definition JS_EvalFunction ::
    "modenv \<Rightarrow> jsval \<Rightarrow> 'z mod_rt_scheme \<Rightarrow> (jsval \<times> 'z mod_rt_scheme) res" where
  "JS_EvalFunction M f w =
     bindE (JS_FreeValue f (w\<lparr>ran := ran w @ [f]\<rparr>)) (\<lambda>w.
     case run_function M f of
       Inl e \<Rightarrow> Inr (JS_Throw e w)
     | Inr v \<Rightarrow> Inr (v, JS_DupValue v w))"

section \<open>C buffers\<close>

text \<open>strcat and strcpy into a buffer of \<open>cap\<close> bytes; pstrcpy and pstrcat of QuickJS truncate.\<close>

definition strcat_in :: "nat \<Rightarrow> string \<Rightarrow> string \<Rightarrow> string res" where
  "strcat_in cap s t = (if length s + length t < cap then Inr (s @ t) else Inl BufferOverflow)"

definition pstrcat :: "nat \<Rightarrow> string \<Rightarrow> string \<Rightarrow> string" where
  "pstrcat cap s t = (if length s < cap then take (cap - 1) (s @ t) else s)"

definition has_suffix :: "string \<Rightarrow> string \<Rightarrow> bool" where
  "has_suffix s t = (length t \<le> length s \<and> drop (length s - length t) s = t)"

definition starts :: "char \<Rightarrow> string \<Rightarrow> bool" where
  "starts c s = (case s of [] \<Rightarrow> False | x # _ \<Rightarrow> x = c)"

definition quoted :: "string \<Rightarrow> string" where
  "quoted s = CHR 0x27 # s @ [CHR 0x27]"

fun digits :: "nat \<Rightarrow> string" where
  "digits n = (if n < 10 then [char_of (48 + n)] else digits (n div 10) @ [char_of (48 + n mod 10)])"

declare digits.simps [simp del]

definition show_int :: "int \<Rightarrow> string" where
  "show_int i = (if i < 0 then CHR ''-'' # digits (nat (- i)) else digits (nat i))"

definition IJJS__PATHSEP :: char where "IJJS__PATHSEP = CHR ''/''"

definition to_sep :: "string \<Rightarrow> string" where
  "to_sep s = map (\<lambda>c. if c = CHR 0x5C then CHR ''/'' else c) s"

definition is_http :: "string \<Rightarrow> bool" where
  "is_http name = (is_prefix ''http://'' name \<or> is_prefix ''https://'' name)"

section \<open>The normalizer\<close>

definition internal_modules :: "string list" where
  "internal_modules = [''@ijjs/abort-controller'', ''@ijjs/bootstrap'', ''@ijjs/bootstrap2'',
     ''@ijjs/console'', ''@ijjs/core'', ''@ijjs/crypto'', ''@ijjs/event-target'',
     ''@ijjs/performance'']"

definition js_strdup :: "string \<Rightarrow> 'z rt_scheme \<Rightarrow> nat \<times> string \<times> 'z rt_scheme" where
  "js_strdup s w = (case js_malloc w of (p, w) \<Rightarrow> (p, if p = 0 then [] else s, w))"

definition dir_len :: "string \<Rightarrow> nat" where
  "dir_len s = (case strrchr_idx s IJJS__PATHSEP of Some i \<Rightarrow> i | None \<Rightarrow> 0)"

text \<open>The loop over the leading segments of a relative specifier: \<open>f\<close> is the directory built so
  far, \<open>r\<close> what is left of the specifier.\<close>

definition last_part :: "string \<Rightarrow> string" where
  "last_part f = (case strrchr_idx f IJJS__PATHSEP of None \<Rightarrow> f | Some i \<Rightarrow> drop (Suc i) f)"

definition cut_last :: "string \<Rightarrow> string" where
  "cut_last f = (case strrchr_idx f IJJS__PATHSEP of None \<Rightarrow> [] | Some i \<Rightarrow> take i f)"

function climb :: "string \<Rightarrow> string \<Rightarrow> string \<times> string" where
  "climb f r =
     (if is_prefix ''./'' r then climb f (drop 2 r)
      else if is_prefix ''../'' r then
        (if f = [] then (f, r)
         else if last_part f = ''.'' \<or> last_part f = ''..'' then (f, r)
         else climb (cut_last f) (drop 3 r))
      else (f, r))"
  by pat_completeness auto
termination
  by (relation "measure (\<lambda>(f, r). length r)") (auto simp: is_prefix_iff)

declare climb.simps [simp del]

definition normalize_bare ::
    "string \<Rightarrow> string \<Rightarrow> 'z rt_scheme \<Rightarrow> (nat \<times> string \<times> string \<times> 'z rt_scheme) res" where
  "normalize_bare base_name name w =
     (let base_name = to_sep base_name; len = dir_len base_name in
      bindE (strcat_in 260 [] base_name) (\<lambda>tmp.
      let tmp = (if tmp = [] then ''#'' else tmp[len := CHR ''#'']);
          len = dir_len tmp;
          cap = len + length name + 18
      in case js_malloc w of (p, w) \<Rightarrow>
        if p = 0 then Inr (0, [], base_name, w)
        else
          let filename = take len base_name in
          bindE (if filename \<noteq> [] then strcat_in cap filename ''/'' else Inr filename) (\<lambda>filename.
          bindE (strcat_in cap filename ''ij_modules/'') (\<lambda>filename.
          bindE (strcat_in cap filename name) (\<lambda>filename.
          Inr (p, to_sep filename, base_name, w))))))"

definition normalize_relative ::
    "modenv \<Rightarrow> string \<Rightarrow> string \<Rightarrow> 'z rt_scheme \<Rightarrow> (nat \<times> string \<times> string \<times> 'z rt_scheme) res" where
  "normalize_relative M base_name name w =
     (let base_name = to_sep base_name; len = dir_len base_name;
          cap = len + length name + 18 + 5
      in case js_malloc w of (p, w) \<Rightarrow>
        if p = 0 then Inr (0, [], base_name, w)
        else (case climb (take len base_name) name of (filename, r) \<Rightarrow>
          bindE (if filename \<noteq> [] then strcat_in cap filename ''/'' else Inr filename) (\<lambda>filename.
          bindE (strcat_in cap filename r) (\<lambda>filename.
          let filename = to_sep filename in
          if accessible M filename then Inr (p, filename, base_name, w)
          else bindE (strcat_in cap filename ''.js'') (\<lambda>filename. Inr (p, filename, base_name, w))))))"

text \<open>The result is the pointer (0 for NULL) with its contents, the base name as the normalizer
  leaves it, which it rewrites in place, and the state.\<close>

definition ijModuleNormalizer ::
    "modenv \<Rightarrow> nat \<Rightarrow> string \<Rightarrow> string \<Rightarrow> 'z vm_rt_scheme
       \<Rightarrow> (nat \<times> string \<times> string \<times> 'z vm_rt_scheme) res" where
  "ijModuleNormalizer M qrt base_name name w =
     bindE (CHECK (qrt \<noteq> 0) w) (\<lambda>w.
     if \<not> in_bootstrap w \<and> starts CHR ''@'' name \<and>
        list_ex (\<lambda>m. is_prefix m name) internal_modules
     then Inr (0, [], base_name, snd (JS_ThrowReferenceError
            (''could not load '' @ quoted name @ '', it'' @ [CHR 0x27] @ ''s an internal module'') w))
     else if starts CHR ''@'' name \<or> is_http name
     then (case js_strdup name w of (p, s, w) \<Rightarrow> Inr (p, s, base_name, w))
     else if \<not> starts CHR ''.'' name then normalize_bare base_name name w
     else normalize_relative M base_name name w)"

section \<open>import.meta\<close>

definition ijModuleSetImportMeta ::
    "modenv \<Rightarrow> jsval \<Rightarrow> bool \<Rightarrow> bool \<Rightarrow> 'z mod_rt_scheme \<Rightarrow> (int \<times> 'z mod_rt_scheme) res" where
  "ijModuleSetImportMeta M func_val use_realpath is_main w =
     bindE (CHECK (is_module M func_val) w) (\<lambda>w.
     case func_val of
       JS_Ref m \<Rightarrow>
         (case mod_name M m of
            None \<Rightarrow> Inr (-1, w)
          | Some name \<Rightarrow>
              let size = PATH_MAX + 16;
                  buf = (if strchr_idx name CHR '':'' = None
                    then if use_realpath
                      then (case realpath M name of
                          Inl e \<Rightarrow> None
                        | Inr p \<Rightarrow> Some (pstrcat size (pstrcat size [] ''file://'') p))
                      else Some (pstrcat size (pstrcat size [] ''file://'') name)
                    else Some (pstrcat size [] name))
              in case buf of
                  None \<Rightarrow> Inr (-1, snd (JS_ThrowTypeError ''realpath failure'' w))
                | Some buf \<Rightarrow>
                    if \<not> import_meta M m then Inr (-1, snd (JS_ThrowOutOfMemory w))
                    else Inr (0, w\<lparr>metas := (metas w)(m :=
                      AList.update ''main'' (JS_Bool is_main)
                        (AList.update ''url'' (JS_Str buf) (metas w m)))\<rparr>))
     | _ \<Rightarrow> Inl CheckFailed)"

section \<open>The loader\<close>

text \<open>JS\_VALUE\_GET\_PTR of a module value.\<close>

fun JS_VALUE_GET_PTR :: "jsval \<Rightarrow> nat" where
  "JS_VALUE_GET_PTR (JS_Ref m) = m"
| "JS_VALUE_GET_PTR _ = 0"

definition compile_module ::
    "modenv \<Rightarrow> string \<Rightarrow> string \<Rightarrow> bool \<Rightarrow> 'z mod_rt_scheme \<Rightarrow> (nat \<times> 'z mod_rt_scheme) res" where
  "compile_module M input filename use_realpath w =
     (case JS_Eval M input filename (JS_EVAL_TYPE_MODULE + JS_EVAL_FLAG_COMPILE_ONLY) w of (func_val, w) \<Rightarrow>
      if JS_IsException func_val
      then bindE (JS_FreeValue func_val w) (\<lambda>w. Inr (0, w))
      else
        bindE (ijModuleSetImportMeta M func_val use_realpath False w) (\<lambda>(_, w).
        let m = JS_VALUE_GET_PTR func_val in
        bindE (JS_FreeValue func_val w) (\<lambda>w. Inr (m, w))))"

definition ijLoadHttp ::
    "vmenv \<Rightarrow> curlenv \<Rightarrow> modenv \<Rightarrow> string \<Rightarrow> 'z mod_rt_scheme \<Rightarrow> (nat \<times> 'z mod_rt_scheme) res" where
  "ijLoadHttp V C M url w = (case ijCurlLoadHttp V C [] url of (r, dbuf) \<Rightarrow>
     if r \<noteq> 200
     then Inr (0, snd (JS_ThrowReferenceError
            (''could not load '' @ quoted url @ '' code: '' @ show_int r) w))
     else compile_module M dbuf url False w)"

definition ijLoadDynamicLibrary ::
    "modenv \<Rightarrow> string \<Rightarrow> 'z mod_rt_scheme \<Rightarrow> nat \<times> 'z mod_rt_scheme" where
  "ijLoadDynamicLibrary M name w =
     (if \<not> dl_open M name then (0, snd (JS_ThrowReferenceError
         (''could not load module filename '' @ quoted name @ '' as shared library'') w))
      else if \<not> dl_sym M name then (0, snd (JS_ThrowReferenceError
         (''could not load module filename '' @ quoted name @ '': js_init_module not found'') w))
      else if dl_init M name = 0 then (0, snd (JS_ThrowReferenceError
         (''could not load module filename '' @ quoted name @ '': initialization error'') w))
      else (dl_init M name, w\<lparr>libs := libs w @ [name]\<rparr>))"

datatype module_type = HTTP_MODULE | DL_MODULE | SCRIPT_MODULE

definition module_file :: "modenv \<Rightarrow> string \<Rightarrow> (module_type \<times> string) res" where
  "module_file M name =
     (if is_http name then Inr (HTTP_MODULE, [])
      else if has_suffix name ''js'' \<or> has_suffix name ''ts'' \<or> has_suffix name ''json''
      then bindE (strcat_in 260 [] name) (\<lambda>dlfile. Inr (SCRIPT_MODULE, dlfile))
      else
        bindE (strcat_in 260 [] name) (\<lambda>dlfile.
        bindE (strcat_in 260 dlfile ''.so'') (\<lambda>dlfile.
        if accessible M dlfile then Inr (DL_MODULE, dlfile)
        else bindE (strcat_in 260 [] name) (\<lambda>dlfile.
             bindE (strcat_in 260 dlfile ''.js'') (\<lambda>dlfile. Inr (SCRIPT_MODULE, dlfile))))))"

definition json_tpl_start :: string where
  "json_tpl_start = ''export default JSON.parse('' @ [CHR 0x60]"

definition json_tpl_end :: string where
  "json_tpl_end = [CHR 0x60] @ '');''"

definition load_script ::
    "vmenv \<Rightarrow> modenv \<Rightarrow> string \<Rightarrow> 'z mod_rt_scheme \<Rightarrow> (nat \<times> 'z mod_rt_scheme) res option" where
  "load_script V M dlfile w =
     (let is_json = has_suffix dlfile ''.json'';
          dbuf = (if is_json then snd (dbuf_put V [] json_tpl_start) else [])
      in case ijLoadFile V dbuf dlfile w of
        None \<Rightarrow> None
      | Some (r, dbuf, w) \<Rightarrow>
          if r \<noteq> 0
          then Some (Inr (0, snd (JS_ThrowReferenceError (''could not load '' @ quoted dlfile) w)))
          else
            let dbuf = (if is_json then snd (dbuf_put V dbuf json_tpl_end) else dbuf);
                dbuf = snd (dbuf_put V dbuf [CHR 0x00])
            in Some (compile_module M dbuf dlfile True w))"

definition ijModuleLoader ::
    "vmenv \<Rightarrow> curlenv \<Rightarrow> modenv \<Rightarrow> string \<Rightarrow> 'z mod_rt_scheme \<Rightarrow> (nat \<times> 'z mod_rt_scheme) res option" where
  "ijModuleLoader V C M name w = (case module_file M name of
     Inl c \<Rightarrow> Some (Inl c)
   | Inr (HTTP_MODULE, _) \<Rightarrow> Some (ijLoadHttp V C M name w)
   | Inr (DL_MODULE, dlfile) \<Rightarrow> Some (Inr (ijLoadDynamicLibrary M dlfile w))
   | Inr (SCRIPT_MODULE, dlfile) \<Rightarrow> load_script V M dlfile w)"

section \<open>Evaluating files and strings\<close>

definition emit_window_load :: string where
  "emit_window_load = ''window.dispatchEvent(new Event('' @ quoted ''load'' @ ''));''"

definition eval_loaded ::
    "jsenv \<Rightarrow> modenv \<Rightarrow> string \<Rightarrow> string \<Rightarrow> int \<Rightarrow> bool \<Rightarrow> 'z mod_rt_scheme
       \<Rightarrow> (jsval \<times> 'z mod_rt_scheme) res" where
  "eval_loaded E M dbuf filename eval_flags is_main w =
     bindE (if eval_flags mod 4 = JS_EVAL_TYPE_MODULE then
              (case JS_Eval M dbuf filename (or eval_flags JS_EVAL_FLAG_COMPILE_ONLY) w of (ret, w) \<Rightarrow>
               if JS_IsException ret then Inr (ret, w)
               else bindE (ijModuleSetImportMeta M ret True is_main w) (\<lambda>(_, w). JS_EvalFunction M ret w))
            else Inr (JS_Eval M dbuf filename eval_flags w)) (\<lambda>(ret, w).
     if \<not> JS_IsException ret \<and> is_main then
       (case JS_Eval M emit_window_load ''<global>'' JS_EVAL_TYPE_GLOBAL w of (ret1, w) \<Rightarrow>
        bindE (if JS_IsException ret1 then ijDumpError E w else Inr w) (\<lambda>w. Inr (ret, w)))
     else Inr (ret, w))"

definition ijEvalFile ::
    "jsenv \<Rightarrow> vmenv \<Rightarrow> modenv \<Rightarrow> string \<Rightarrow> int \<Rightarrow> bool \<Rightarrow> string option \<Rightarrow> 'z mod_rt_scheme
       \<Rightarrow> (jsval \<times> 'z mod_rt_scheme) res option" where
  "ijEvalFile E V M filename flags is_main override_filename w =
     (case ijLoadFile V [] filename w of
        None \<Rightarrow> None
      | Some (r, dbuf, w) \<Rightarrow>
          if r \<noteq> 0
          then Some (Inr (JS_ThrowReferenceError (''could not load '' @ quoted filename) w))
          else
            let dbuf = snd (dbuf_put V dbuf [CHR 0x00]);
                eval_flags = (if flags = -1
                  then if detect_module M dbuf then JS_EVAL_TYPE_MODULE else JS_EVAL_TYPE_GLOBAL
                  else flags);
                name = (case override_filename of Some f \<Rightarrow> f | None \<Rightarrow> filename)
            in Some (eval_loaded E M dbuf name eval_flags is_main w))"

definition ijLoadScript ::
    "jsenv \<Rightarrow> vmenv \<Rightarrow> modenv \<Rightarrow> jsval list \<Rightarrow> 'z mod_rt_scheme \<Rightarrow> (jsval \<times> 'z mod_rt_scheme) res option" where
  "ijLoadScript E V M argv w = (case JS_ToCString E (argn 0 argv) w of (p, filename, w) \<Rightarrow>
     if p = 0 then Some (Inr (JS_EXCEPTION, w))
     else case ijEvalFile E V M filename JS_EVAL_TYPE_GLOBAL False None w of
         None \<Rightarrow> None
       | Some r \<Rightarrow> Some (bindE r (\<lambda>(ret, w).
           bindE (JS_FreeCString (p, 0) w) (\<lambda>w. Inr (ret, w)))))"

definition ijEvalScript ::
    "jsenv \<Rightarrow> modenv \<Rightarrow> jsval list \<Rightarrow> 'z mod_rt_scheme \<Rightarrow> (jsval \<times> 'z mod_rt_scheme) res" where
  "ijEvalScript E M argv w = (case JS_ToCString E (argn 0 argv) w of (p, str, w) \<Rightarrow>
     if p = 0 then Inr (JS_EXCEPTION, w)
     else case JS_Eval M str ''<evalScript>''
             (JS_EVAL_TYPE_GLOBAL + JS_EVAL_FLAG_BACKTRACE_BARRIER) w of (ret, w) \<Rightarrow>
       bindE (JS_FreeCString (p, 0) w) (\<lambda>w. Inr (ret, w)))"

definition ijStdExit :: "jsenv \<Rightarrow> jsval list \<Rightarrow> 'z mod_rt_scheme \<Rightarrow> jsval \<times> 'z mod_rt_scheme" where
  "ijStdExit E argv w = (case JS_ToInt32 E (argn 0 argv) w of (r, w) \<Rightarrow>
     (JS_UNDEFINED, w\<lparr>exit_status := Some (case r of Some i \<Rightarrow> i | None \<Rightarrow> -1)\<rparr>))"

section \<open>Starting up\<close>

definition ijEvalBinary ::
    "jsenv \<Rightarrow> modenv \<Rightarrow> string \<Rightarrow> 'z mod_rt_scheme \<Rightarrow> (int \<times> 'z mod_rt_scheme) res" where
  "ijEvalBinary E M buf w =
     (let fail = (\<lambda>w. bindE (ijDumpError E w) (\<lambda>w. Inr (-1, w))) in
      case read_object M buf of
        Inl e \<Rightarrow> fail (snd (JS_Throw e w))
      | Inr obj \<Rightarrow>
          let w = JS_DupValue obj w;
              run = (\<lambda>w. bindE (JS_EvalFunction M obj w) (\<lambda>(val, w).
                if JS_IsException val then fail w
                else bindE (JS_FreeValue val w) (\<lambda>w. Inr (0, w))))
          in if is_module M obj then
               if \<not> resolve_module M obj
               then bindE (JS_FreeValue obj w) (\<lambda>w. fail (snd (JS_ThrowReferenceError ''could not resolve'' w)))
               else bindE (ijModuleSetImportMeta M obj False True w) (\<lambda>(_, w). run w)
             else run w)"

definition run_builtin ::
    "jsenv \<Rightarrow> modenv \<Rightarrow> string \<Rightarrow> 'z mod_rt_scheme \<Rightarrow> 'z mod_rt_scheme res" where
  "run_builtin E M name w =
     bindE (ijEvalBinary E M (bytecode M name) w) (\<lambda>(r, w). CHECK (r = 0) w)"

definition ijBootstrapGlobals :: "jsenv \<Rightarrow> modenv \<Rightarrow> 'z mod_rt_scheme \<Rightarrow> 'z mod_rt_scheme res" where
  "ijBootstrapGlobals E M = forE (run_builtin E M) [''bootstrap'', ''encoding'', ''console'',
     ''crypto'', ''event_target'', ''performance'', ''url'', ''fetch'', ''abort_controller'',
     ''wasm'', ''bootstrap2'']"

definition ijAddBuiltins :: "jsenv \<Rightarrow> modenv \<Rightarrow> 'z mod_rt_scheme \<Rightarrow> 'z mod_rt_scheme res" where
  "ijAddBuiltins E M = forE (run_builtin E M) [''getopts'', ''hashlib'', ''path'', ''uuid'']"

definition boot_scripts :: "jsenv \<Rightarrow> modenv \<Rightarrow> 'z mod_rt_scheme \<Rightarrow> 'z mod_rt_scheme res" where
  "boot_scripts E M w = bindE (ijBootstrapGlobals E M w) (ijAddBuiltins E M)"

section \<open>Paths as lists of segments\<close>

text \<open>The reference: a path is its segments, and a relative specifier is resolved segment by
  segment against the directory of the importing file. The last segment of the specifier, the
  file, is never interpreted; a parent step that has nothing to remove is kept.\<close>

fun join :: "string list \<Rightarrow> string" where
  "join [] = []"
| "join [s] = s"
| "join (s # t # ts) = s @ CHR ''/'' # join (t # ts)"

fun resolve :: "string list \<Rightarrow> string list \<Rightarrow> string list" where
  "resolve ds [] = ds"
| "resolve ds [n] = ds @ [n]"
| "resolve ds (n # m # ns) =
     (if n = ''.'' then resolve ds (m # ns)
      else if n = ''..'' \<and> ds \<noteq> [] \<and> last ds \<notin> {''.'', ''..''} then resolve (butlast ds) (m # ns)
      else ds @ n # m # ns)"

definition plain_seg :: "string \<Rightarrow> bool" where
  "plain_seg s \<longleftrightarrow> CHR ''/'' \<notin> set s \<and> CHR 0x5C \<notin> set s"

definition plain_dir :: "string list \<Rightarrow> bool" where
  "plain_dir ds \<longleftrightarrow> (\<forall>s\<in>set ds. plain_seg s \<and> s \<noteq> [])"

lemma join_append:
  "ns \<noteq> [] \<Longrightarrow> join (ds @ ns) = (if ds = [] then join ns else join ds @ CHR ''/'' # join ns)"
proof (induction ds rule: join.induct)
  case (2 s)
  then show ?case by (cases ns) auto
qed auto

lemma join_snoc: "join (ds @ [d]) = (if ds = [] then d else join ds @ CHR ''/'' # d)"
  using join_append [of "[d]" ds] by simp

lemma join_Nil: "plain_dir ds \<Longrightarrow> join ds = [] \<longleftrightarrow> ds = []"
  by (cases ds rule: join.cases) (auto simp: plain_dir_def)

lemma join_chars: "\<forall>s\<in>set ds. plain_seg s \<Longrightarrow> CHR 0x5C \<notin> set (join ds)"
  by (induction ds rule: join.induct) (auto simp: plain_seg_def)

lemma to_sep_id: "CHR 0x5C \<notin> set s \<Longrightarrow> to_sep s = s"
  by (induction s) (auto simp: to_sep_def)

lemma last_seg:
  assumes "plain_seg d"
  shows "last_part (join (ds @ [d])) = d" "cut_last (join (ds @ [d])) = join ds"
proof -
  have "CHR ''/'' \<notin> set d" using assms by (simp add: plain_seg_def)
  then show "last_part (join (ds @ [d])) = d" "cut_last (join (ds @ [d])) = join ds"
    using strrchr_idx_append [of "CHR ''/''" d "join ds"] strrchr_idx_None [of d "CHR ''/''"]
    by (auto simp: last_part_def cut_last_def join_snoc IJJS__PATHSEP_def split: option.splits)
qed

lemma dir_of_base:
  assumes "plain_seg fl"
  shows "take (dir_len (join (ds @ [fl]))) (join (ds @ [fl])) = join ds"
    "dir_len (join (ds @ [fl])) = length (join ds)"
proof -
  have "CHR ''/'' \<notin> set fl" using assms by (simp add: plain_seg_def)
  then show "take (dir_len (join (ds @ [fl]))) (join (ds @ [fl])) = join ds"
    "dir_len (join (ds @ [fl])) = length (join ds)"
    using strrchr_idx_append [of "CHR ''/''" fl "join ds"] strrchr_idx_None [of fl "CHR ''/''"]
    by (auto simp: dir_len_def join_snoc IJJS__PATHSEP_def split: option.splits)
qed

lemma dot_prefix:
  assumes "plain_seg n"
  shows "is_prefix ''./'' (n @ CHR ''/'' # r) \<longleftrightarrow> n = ''.''"
    "is_prefix ''../'' (n @ CHR ''/'' # r) \<longleftrightarrow> n = ''..''"
proof -
  have c: "CHR ''/'' \<notin> set n" using assms by (simp add: plain_seg_def)
  consider "n = []" | a where "n = [a]" | a b where "n = [a, b]" | a b c m where "n = a # b # c # m"
    by (metis neq_Nil_conv)
  then show "is_prefix ''./'' (n @ CHR ''/'' # r) \<longleftrightarrow> n = ''.''"
    "is_prefix ''../'' (n @ CHR ''/'' # r) \<longleftrightarrow> n = ''..''"
    by (cases; use c in auto)+
qed

lemma dot_prefix_last:
  assumes "plain_seg n"
  shows "\<not> is_prefix ''./'' n" "\<not> is_prefix ''../'' n"
  using assms by (auto simp: is_prefix_iff plain_seg_def)

text \<open>The loop computes the reference.\<close>

lemma climb_resolve:
  assumes "plain_dir ds" "\<forall>s\<in>set ns. plain_seg s" "ns \<noteq> []"
  shows "\<exists>ds' ns'. climb (join ds) (join ns) = (join ds', join ns') \<and> resolve ds ns = ds' @ ns' \<and>
    plain_dir ds' \<and> ns' \<noteq> [] \<and> (\<forall>s\<in>set ns'. plain_seg s) \<and>
    length (join ds') \<le> length (join ds) \<and> length (join ns') \<le> length (join ns)"
  using assms
proof (induction ds ns rule: resolve.induct)
  case (3 ds n m ns)
  let ?r = "join (m # ns)"
  have n: "plain_seg n" using 3(4) by simp
  consider "n = ''.''" | "n = ''..''" "ds \<noteq> []" "last ds \<notin> {''.'', ''..''}"
    | "n \<noteq> ''.''" "\<not> (n = ''..'' \<and> ds \<noteq> [] \<and> last ds \<notin> {''.'', ''..''})" by blast
  then show ?case
  proof cases
    case c: 1
    then have "climb (join ds) (join (n # m # ns)) = climb (join ds) ?r"
      using dot_prefix(1) [OF n, of ?r] by (subst climb.simps) simp
    moreover obtain ds' ns' where "climb (join ds) ?r = (join ds', join ns') \<and>
        resolve ds (m # ns) = ds' @ ns' \<and> plain_dir ds' \<and> ns' \<noteq> [] \<and> (\<forall>s\<in>set ns'. plain_seg s) \<and>
        length (join ds') \<le> length (join ds) \<and> length (join ns') \<le> length ?r"
      using 3(1) [OF c 3(3)] 3(4) by auto
    ultimately show ?thesis using c by (intro exI [of _ ds'] exI [of _ ns']) simp
  next
    case c: 2
    define as b where "as = butlast ds" and "b = last ds"
    then have ds: "ds = as @ [b]" using c(2) by simp
    have b: "plain_seg b" "plain_dir as" using 3(3) by (auto simp: ds plain_dir_def)
    have "join ds \<noteq> []" using join_Nil [OF 3(3)] c(2) by simp
    then have "climb (join ds) (join (n # m # ns)) = climb (join as) ?r"
      using dot_prefix [OF n, of ?r] last_seg [OF b(1), of as] c
      by (subst climb.simps) (auto simp: ds)
    moreover have "length (join as) \<le> length (join ds)" by (simp add: ds join_snoc)
    moreover obtain ds' ns' where "climb (join as) ?r = (join ds', join ns') \<and>
        resolve as (m # ns) = ds' @ ns' \<and> plain_dir ds' \<and> ns' \<noteq> [] \<and> (\<forall>s\<in>set ns'. plain_seg s) \<and>
        length (join ds') \<le> length (join as) \<and> length (join ns') \<le> length ?r"
      using 3(2) c b(2) 3(4) by (auto simp: as_def)
    moreover have "resolve ds (n # m # ns) = resolve as (m # ns)" using c by (simp add: as_def)
    ultimately show ?thesis by (intro exI [of _ ds'] exI [of _ ns']) simp
  next
    case c: 3
    have "join ds = [] \<or> n \<noteq> ''..'' \<or> last_part (join ds) \<in> {''.'', ''..''}"
    proof (cases "ds = []")
      case False
      define as b where "as = butlast ds" and "b = last ds"
      then have ds: "ds = as @ [b]" using False by simp
      then have "last_part (join ds) = b" using last_seg [of b as] 3(3) by (simp add: plain_dir_def)
      then show ?thesis using c(2) ds by auto
    qed simp
    then have "climb (join ds) (join (n # m # ns)) = (join ds, join (n # m # ns))"
      using dot_prefix [OF n, of ?r] c(1) by (subst climb.simps) auto
    then show ?thesis using c 3(3,4)
      by (intro exI [of _ ds] exI [of _ "n # m # ns"]) auto
  qed
next
  case (2 ds n)
  then have "climb (join ds) (join [n]) = (join ds, join [n])"
    using dot_prefix_last [of n] by (subst climb.simps) simp
  then show ?case using 2 by (intro exI [of _ ds] exI [of _ "[n]"]) auto
qed simp

section \<open>What the normalizer promises\<close>

lemma js_malloc_works:
  "\<not> oom w (tick w) \<Longrightarrow> \<exists>w'. js_malloc w = (Suc (tick w), w') \<and> blk w' = (blk w)(Suc (tick w) := JsBlock)"
  by (simp add: js_malloc_def)

text \<open>C24. Relative imports: for a specifier whose segments are \<open>ns\<close>, imported from a file in the
  directory with segments \<open>ds\<close>, the normalizer returns a fresh string holding the path of the
  reference resolution, with \<open>.js\<close> added when no such file exists. It stays inside the buffer it
  allocates.\<close>

theorem relative_import_resolves:
  assumes "qrt \<noteq> 0" "plain_dir ds" "plain_seg fl" "\<forall>s\<in>set ns. plain_seg s" "ns \<noteq> []"
    and "starts CHR ''.'' (join ns)" "\<not> oom w (tick w)"
  shows "\<exists>w'. ijModuleNormalizer M qrt (join (ds @ [fl])) (join ns) w =
      Inr (Suc (tick w), join (resolve ds ns) @ (if accessible M (join (resolve ds ns)) then [] else ''.js''),
        join (ds @ [fl]), w') \<and>
    blk w' = (blk w)(Suc (tick w) := JsBlock)"
proof -
  let ?b = "join (ds @ [fl])"
  obtain ds' ns' where c: "climb (join ds) (join ns) = (join ds', join ns')" "resolve ds ns = ds' @ ns'"
    "plain_dir ds'" "ns' \<noteq> []" "\<forall>s\<in>set ns'. plain_seg s"
    and len: "length (join ds') \<le> length (join ds)" "length (join ns') \<le> length (join ns)"
    using climb_resolve [OF assms(2,4,5)] by blast
  obtain w' where w': "js_malloc w = (Suc (tick w), w')" "blk w' = (blk w)(Suc (tick w) := JsBlock)"
    using js_malloc_works [OF assms(7)] by blast
  have "CHR 0x5C \<notin> set ?b" using join_chars [of "ds @ [fl]"] assms(2,3) by (auto simp: plain_dir_def)
  then have b: "to_sep ?b = ?b" by (rule to_sep_id)
  have "CHR 0x5C \<notin> set (join (ds' @ ns'))"
    using join_chars [of "ds' @ ns'"] c(3,5) by (auto simp: plain_dir_def)
  then have r: "to_sep (join (ds' @ ns')) = join (ds' @ ns')" by (rule to_sep_id)
  have dl: "dir_len ?b = length (join ds)" by (rule dir_of_base [OF assms(3)])
  have tk: "take (length (join ds)) ?b = join ds"
    using dir_of_base(1) [OF assms(3), of ds] unfolding dl .
  have at: "\<not> starts CHR ''@'' (join ns)" "\<not> is_http (join ns)"
    using assms(6) by (cases "join ns"; auto simp: starts_def is_http_def)+
  have j: "join (ds' @ ns') = (if join ds' = [] then join ns' else join ds' @ CHR ''/'' # join ns')"
    using join_append [OF c(4), of ds'] join_Nil [OF c(3)] by simp
  have "normalize_relative M ?b (join ns) w =
      Inr (Suc (tick w), join (ds' @ ns') @ (if accessible M (join (ds' @ ns')) then [] else ''.js''), ?b, w')"
    using r len unfolding j
    by (cases "join ds' = []")
      (simp_all add: normalize_relative_def b dl tk w'(1) c(1) strcat_in_def Let_def)
  then show ?thesis
    using assms(1,6) at w'(2) c(2) by (simp add: ijModuleNormalizer_def)
qed

text \<open>An import from a file in the root directory loses the root: \<open>./y\<close> imported from
  \<open>/x\<close> becomes \<open>y\<close>, a path relative to the working directory, because the directory of
  \<open>/x\<close> is represented by the empty string.\<close>

theorem absolute_base_loses_root:
  assumes "qrt \<noteq> 0" "plain_seg fl" "plain_seg y" "\<not> oom w (tick w)"
  shows "\<exists>w'. ijModuleNormalizer M qrt (CHR ''/'' # fl) (''./'' @ y) w =
    Inr (Suc (tick w), y @ (if accessible M y then [] else ''.js''), CHR ''/'' # fl, w')"
proof -
  obtain w' where w': "js_malloc w = (Suc (tick w), w')" using js_malloc_works [OF assms(4)] by blast
  have "CHR 0x5C \<notin> set (CHR ''/'' # fl)" "CHR 0x5C \<notin> set y" using assms(2,3) by (auto simp: plain_seg_def)
  note sep = this [THEN to_sep_id]
  have "strrchr_idx ([] @ CHR ''/'' # fl) CHR ''/'' = Some 0"
    using strrchr_idx_append [of "CHR ''/''" fl "[]"] assms(2) by (simp add: plain_seg_def)
  then have d: "dir_len (CHR ''/'' # fl) = 0" by (simp add: dir_len_def IJJS__PATHSEP_def)
  have "climb [] (''./'' @ y) = ([], y)"
    using dot_prefix_last [OF assms(3)] by (subst climb.simps, simp, subst climb.simps, simp)
  then show ?thesis
    using assms(1) sep w' d
    by (auto simp: ijModuleNormalizer_def normalize_relative_def starts_def is_http_def strcat_in_def Let_def)
qed

lemma strrchr_idx_pad: "c \<notin> set t \<Longrightarrow> strrchr_idx (s @ t) c = strrchr_idx s c"
  by (induction s) (auto simp: strrchr_idx_None)

text \<open>Overwriting the last separator leaves the directory of the directory.\<close>

lemma grandparent:
  assumes "plain_dir ds" "plain_seg fl"
  defines "b \<equiv> join (ds @ [fl])"
  shows "dir_len ((if b = [] then ''#'' else b[dir_len b := CHR ''#''])) = length (join (butlast ds))"
proof -
  have fl: "CHR ''/'' \<notin> set fl" using assms(2) by (simp add: plain_seg_def)
  have dl: "dir_len b = length (join ds)" unfolding b_def by (rule dir_of_base [OF assms(2)])
  show ?thesis
  proof (cases "ds = []")
    case True
    have "CHR ''/'' \<notin> set (fl[0 := CHR ''#''])" using fl by (cases fl) auto
    then show ?thesis using True dl by (simp add: b_def dir_len_def IJJS__PATHSEP_def strrchr_idx_None
          strrchr_idx_None [THEN iffD2])
  next
    case False
    then obtain as d where ds: "ds = as @ [d]" by (metis rev_exhaust)
    have "b[dir_len b := CHR ''#''] = join ds @ CHR ''#'' # fl" "b \<noteq> []"
      using False unfolding dl by (simp_all add: b_def join_snoc list_update_append)
    moreover have "dir_len (join ds @ CHR ''#'' # fl) = dir_len (join ds)"
      using strrchr_idx_pad [of "CHR ''/''" "CHR ''#'' # fl" "join ds"] fl
      by (simp add: dir_len_def IJJS__PATHSEP_def)
    moreover have "plain_seg d" using assms(1) by (simp add: ds plain_dir_def)
    ultimately show ?thesis using dir_of_base(2) [of d as] by (simp add: ds)
  qed
qed

lemma take_join_butlast:
  "take (length (join (butlast ds))) (join (ds @ [fl])) = join (butlast ds)"
proof (cases "butlast ds = []")
  case False
  then obtain as d where "ds = as @ [d]" "as \<noteq> []" by (metis butlast.simps(1) butlast_snoc rev_exhaust)
  then show ?thesis using join_append [of "[d, fl]" as] by simp
qed simp

text \<open>C25. Bare imports: a specifier that is neither relative, a URL nor a built-in names a module
  under \<open>ij_modules\<close> beside the directory of the importing file, as long as the importing file's
  name has fewer than 260 characters; from a file with a longer name the normalizer overruns a
  fixed buffer, whatever is imported.\<close>

theorem bare_import_resolves:
  assumes "qrt \<noteq> 0" "plain_dir ds" "plain_seg fl" "\<not> oom w (tick w)"
    and "\<not> starts CHR ''.'' name" "\<not> starts CHR ''@'' name" "\<not> is_http name"
  shows "if length (join (ds @ [fl])) < 260
    then \<exists>w'. ijModuleNormalizer M qrt (join (ds @ [fl])) name w =
      Inr (Suc (tick w), join (butlast ds @ [''ij_modules'', to_sep name]), join (ds @ [fl]), w')
    else ijModuleNormalizer M qrt (join (ds @ [fl])) name w = Inl BufferOverflow"
proof -
  let ?b = "join (ds @ [fl])" and ?g = "join (butlast ds)"
  have "CHR 0x5C \<notin> set ?b" using join_chars [of "ds @ [fl]"] assms(2,3) by (auto simp: plain_dir_def)
  then have b: "to_sep ?b = ?b" by (rule to_sep_id)
  obtain w' where w': "js_malloc w = (Suc (tick w), w')" using js_malloc_works [OF assms(4)] by blast
  have pd: "plain_dir (butlast ds)" using assms(2) by (auto simp: plain_dir_def dest: in_set_butlastD)
  have "CHR 0x5C \<notin> set ?g" using join_chars [of "butlast ds"] pd by (auto simp: plain_dir_def)
  then have g: "to_sep ?g = ?g" by (rule to_sep_id)
  have sep: "to_sep (x @ y) = to_sep x @ to_sep y" "to_sep (CHR ''/'' # x) = CHR ''/'' # to_sep x"
    "to_sep ''ij_modules/'' = ''ij_modules/''" for x y
    by (simp_all add: to_sep_def)
  have j: "join (butlast ds @ [''ij_modules'', to_sep name]) =
      (if ?g = [] then ''ij_modules/'' @ to_sep name else ?g @ ''/ij_modules/'' @ to_sep name)"
    using join_append [of "[''ij_modules'', to_sep name]" "butlast ds"] join_Nil [OF pd] by simp
  have "normalize_bare ?b name w = Inr (Suc (tick w), join (butlast ds @ [''ij_modules'', to_sep name]), ?b, w')"
    if "length ?b < 260"
  proof -
    let ?cap = "length ?g + length name + 18"
    have "strcat_in 260 [] ?b = Inr ?b" using that by (simp add: strcat_in_def)
    then have "normalize_bare ?b name w =
        bindE (if ?g \<noteq> [] then strcat_in ?cap ?g ''/'' else Inr ?g) (\<lambda>f.
        bindE (strcat_in ?cap f ''ij_modules/'') (\<lambda>f.
        bindE (strcat_in ?cap f name) (\<lambda>f. Inr (Suc (tick w), to_sep f, ?b, w'))))"
      by (simp only: normalize_bare_def Let_def b bindE_simps grandparent [OF assms(2,3)]
          take_join_butlast w' prod.case nat.simps if_False)
    then show ?thesis
      using g unfolding j by (cases "?g = []") (simp_all add: strcat_in_def sep, simp_all add: to_sep_def)
  qed
  moreover have "normalize_bare ?b name w = Inl BufferOverflow" if "\<not> length ?b < 260"
    using that by (simp add: normalize_bare_def b strcat_in_def Let_def)
  ultimately show ?thesis using assms(1,5-7) by (simp add: ijModuleNormalizer_def)
qed

section \<open>Loading scripts\<close>

definition script_text :: "string \<Rightarrow> string \<Rightarrow> string" where
  "script_text f c = (if has_suffix f ''.json'' then json_tpl_start @ c @ json_tpl_end else c) @ [CHR 0x00]"

text \<open>A module that compiles and whose import.meta can be filled in.\<close>

definition compiles :: "modenv \<Rightarrow> string \<Rightarrow> string \<Rightarrow> nat \<Rightarrow> bool" where
  "compiles M text f m \<longleftrightarrow> js_eval M text f 33 = Inr (JS_Ref m) \<and> is_module M (JS_Ref m) \<and>
     (\<exists>n p. mod_name M m = Some n \<and> realpath M n = Inr p) \<and> import_meta M m"

lemma set_import_meta:
  assumes "is_module M (JS_Ref m)" "mod_name M m = Some n" "realpath M n = Inr p" "import_meta M m"
  shows "\<exists>mt. ijModuleSetImportMeta M (JS_Ref m) True mn w = Inr (0, w\<lparr>metas := mt\<rparr>)"
  using assms by (auto simp: ijModuleSetImportMeta_def Let_def split: option.splits)

lemma compile_module_ok:
  assumes "compiles M text f m"
  shows "\<exists>w'. compile_module M text f True w = Inr (m, w') \<and> evals w' = evals w @ [(text, f, 33)] \<and>
    refs w' = refs w \<and> open_fds w' = open_fds w"
proof -
  obtain n p where n: "mod_name M m = Some n" "realpath M n = Inr p"
    using assms by (auto simp: compiles_def)
  let ?w = "JS_DupValue (JS_Ref m) (w\<lparr>evals := evals w @ [(text, f, 33)]\<rparr>)"
  obtain mt where "ijModuleSetImportMeta M (JS_Ref m) True False ?w = Inr (0, ?w\<lparr>metas := mt\<rparr>)"
    using set_import_meta [OF _ n, of False ?w] assms by (auto simp: compiles_def)
  then show ?thesis
    using assms by (simp add: compile_module_def JS_Eval_def eval_flags compiles_def)
qed

lemma load_script_ok:
  assumes "0 \<le> fs_open V f" "serves V (fs_open V f) c" "\<forall>n. room V n"
    and "compiles M (script_text f c) f m"
  shows "\<exists>w'. load_script V M f w = Some (Inr (m, w')) \<and> refs w' = refs w \<and>
    evals w' = evals w @ [(script_text f c, f, 33)]"
proof -
  let ?d = "if has_suffix f ''.json'' then json_tpl_start else []"
  let ?w = "w\<lparr>open_fds := open_fds w @ [fs_open V f]\<rparr>"
  have d: "snd (dbuf_put V x y) = x @ y" for x y using assms(3) by (simp add: dbuf_put_def)
  have "ijLoadFile V ?d f w = Some (0, ?d @ c, ?w)"
    using read_loop_all [OF assms(2,3), of 0 ?d] assms(1) by (simp add: ijLoadFile_def)
  then have "load_script V M f w = Some (compile_module M (script_text f c) f True ?w)"
    by (cases "has_suffix f ''.json''") (simp_all add: load_script_def d script_text_def Let_def)
  moreover obtain w' where "compile_module M (script_text f c) f True ?w = Inr (m, w')"
    "evals w' = evals ?w @ [(script_text f c, f, 33)]" "refs w' = refs ?w"
    using compile_module_ok [OF assms(4), of ?w] by blast
  ultimately show ?thesis by simp
qed

lemma module_file_script:
  "module_file M name = Inr (SCRIPT_MODULE, f) \<Longrightarrow> f = name \<or> f = name @ ''.js''"
  by (auto simp: module_file_def strcat_in_def split: if_splits)

text \<open>How QuickJS serves an import whose name was normalized: a module that was compiled under that
  very file name is reused, otherwise the loader runs.\<close>

definition engine_import ::
    "vmenv \<Rightarrow> curlenv \<Rightarrow> modenv \<Rightarrow> string \<Rightarrow> 'z mod_rt_scheme \<Rightarrow> 'z mod_rt_scheme res option" where
  "engine_import V C M name w =
     (if name \<in> set (map (\<lambda>(_, f, _). f) (evals w)) then Some (Inr w)
      else case ijModuleLoader V C M name w of
        None \<Rightarrow> None
      | Some r \<Rightarrow> Some (bindE r (\<lambda>(_, w). Inr w)))"

text \<open>C26. Importing a script module reads the whole file, compiles its text (a JSON file between the
  template the loader puts around it) and leaves the reference counts alone. A module named with
  its suffix is compiled once however often it is imported; a module named without it is compiled
  under another name than the engine looks for, so every import compiles and runs it again.\<close>

theorem script_imported_once:
  assumes "module_file M name = Inr (SCRIPT_MODULE, f)" "0 \<le> fs_open V f" "serves V (fs_open V f) c"
    and "\<forall>n. room V n" "compiles M (script_text f c) f m"
    and "name \<notin> set (map (\<lambda>(_, f, _). f) (evals w))"
  shows "\<exists>w1 w2. engine_import V C M name w = Some (Inr w1) \<and>
    evals w1 = evals w @ [(script_text f c, f, 33)] \<and>
    engine_import V C M name w1 = Some (Inr w2) \<and> refs w2 = refs w \<and>
    evals w2 = (if f = name then evals w1 else evals w1 @ [(script_text f c, f, 33)])"
proof -
  have l: "ijModuleLoader V C M name v = load_script V M f v" for v :: "'a mod_rt_scheme"
    using assms(1) by (simp add: ijModuleLoader_def)
  obtain w1 where w1: "load_script V M f w = Some (Inr (m, w1))" "refs w1 = refs w"
    "evals w1 = evals w @ [(script_text f c, f, 33)]" using load_script_ok [OF assms(2-5)] by blast
  have i1: "engine_import V C M name w = Some (Inr w1)"
    using assms(6) w1(1) by (simp add: engine_import_def l)
  show ?thesis
  proof (cases "f = name")
    case True
    then have "engine_import V C M name w1 = Some (Inr w1)" by (simp add: engine_import_def w1(3))
    with i1 w1 True show ?thesis by auto
  next
    case False
    obtain w2 where w2: "load_script V M f w1 = Some (Inr (m, w2))" "refs w2 = refs w1"
      "evals w2 = evals w1 @ [(script_text f c, f, 33)]" using load_script_ok [OF assms(2-5)] by blast
    have "name \<notin> set (map (\<lambda>(_, f, _). f) (evals w1))" using False assms(6) by (auto simp: w1(3))
    then have "engine_import V C M name w1 = Some (Inr w2)"
      using w2(1) by (simp add: engine_import_def l)
    with i1 w1 w2 False show ?thesis by auto
  qed
qed

section \<open>Start-up\<close>

definition builtin_scripts :: "string list" where
  "builtin_scripts = [''bootstrap'', ''encoding'', ''console'', ''crypto'', ''event_target'',
     ''performance'', ''url'', ''fetch'', ''abort_controller'', ''wasm'', ''bootstrap2'',
     ''getopts'', ''hashlib'', ''path'', ''uuid'']"

definition loads_as :: "modenv \<Rightarrow> string \<Rightarrow> nat \<Rightarrow> bool" where
  "loads_as M name m \<longleftrightarrow> read_object M (bytecode M name) = Inr (JS_Ref m) \<and>
     (is_module M (JS_Ref m) \<longrightarrow> resolve_module M (JS_Ref m))"

lemma import_meta_keeps:
  assumes "is_module M (JS_Ref m)"
  shows "\<exists>r w'. ijModuleSetImportMeta M (JS_Ref m) False True w = Inr (r, w') \<and> refs w' = refs w \<and>
    ran w' = ran w \<and> blk w' = blk w \<and> tick w' = tick w"
  using assms by (auto simp: ijModuleSetImportMeta_def Let_def throw_defs split: option.splits)

lemma run_builtin_ok:
  assumes "loads_as M name m" "run_function M (JS_Ref m) = Inr v" "v \<notin> {JS_EXCEPTION, JS_JUNK}"
  shows "\<exists>w'. run_builtin E M name w = Inr w' \<and> ran w' = ran w @ [JS_Ref m] \<and> refs w' = refs w \<and>
    blk w' = blk w \<and> tick w' = tick w"
proof -
  have run: "\<exists>w'. bindE (JS_EvalFunction M (JS_Ref m) u) (\<lambda>(val, w).
      if JS_IsException val then bindE (ijDumpError E w) (\<lambda>w. Inr (-1, w))
      else bindE (JS_FreeValue val w) (\<lambda>w. Inr (0, w))) = Inr (0 :: int, w') \<and>
      ran w' = ran u @ [JS_Ref m] \<and> refs w' = refs w \<and> blk w' = blk u \<and> tick w' = tick u"
    if "refs u = (refs w)(m := Suc (refs w m))" for u
    using that assms(2,3) by (simp add: JS_EvalFunction_def free_dup del: JS_DupValue.simps)
  show ?thesis
  proof (cases "is_module M (JS_Ref m)")
    case True
    obtain r u where u: "ijModuleSetImportMeta M (JS_Ref m) False True (JS_DupValue (JS_Ref m) w) = Inr (r, u)"
      "refs u = refs (JS_DupValue (JS_Ref m) w)" "ran u = ran (JS_DupValue (JS_Ref m) w)"
      "blk u = blk (JS_DupValue (JS_Ref m) w)" "tick u = tick (JS_DupValue (JS_Ref m) w)"
      using import_meta_keeps [OF True] by blast
    with run [of u] assms(1) True show ?thesis
      by (auto simp: run_builtin_def ijEvalBinary_def loads_as_def Let_def)
  next
    case False
    with run [of "JS_DupValue (JS_Ref m) w"] assms(1) show ?thesis
      by (auto simp: run_builtin_def ijEvalBinary_def loads_as_def Let_def)
  qed
qed

lemma forE_builtins:
  assumes "\<forall>n\<in>set ns. loads_as M n (obj n) \<and>
      (\<exists>v. run_function M (JS_Ref (obj n)) = Inr v \<and> v \<notin> {JS_EXCEPTION, JS_JUNK})"
  shows "\<exists>w'. forE (run_builtin E M) ns w = Inr w' \<and> ran w' = ran w @ map (\<lambda>n. JS_Ref (obj n)) ns \<and>
    refs w' = refs w \<and> blk w' = blk w \<and> tick w' = tick w"
  using assms
proof (induction ns arbitrary: w)
  case (Cons n ns)
  then obtain v where "loads_as M n (obj n)" "run_function M (JS_Ref (obj n)) = Inr v"
    "v \<notin> {JS_EXCEPTION, JS_JUNK}" by auto
  from run_builtin_ok [OF this] obtain w1 where w1: "run_builtin E M n w = Inr w1"
    "ran w1 = ran w @ [JS_Ref (obj n)]" "refs w1 = refs w" "blk w1 = blk w" "tick w1 = tick w" by blast
  obtain w2 where "forE (run_builtin E M) ns w1 = Inr w2"
    "ran w2 = ran w1 @ map (\<lambda>n. JS_Ref (obj n)) ns" "refs w2 = refs w1" "blk w2 = blk w1" "tick w2 = tick w1"
    using Cons.IH [of w1] Cons.prems by auto
  with w1 show ?case by simp
qed simp

lemma run_builtin_throws:
  assumes "loads_as M n m" "run_function M (JS_Ref m) = Inl e" "fresh_blk w" "jsenv_ok E"
    and "\<not> is_module M (JS_Ref m)" "e \<noteq> JS_JUNK"
  shows "run_builtin E M n w = Inl CheckFailed"
proof -
  let ?w = "w\<lparr>ran := ran w @ [JS_Ref m], refs := refs w, exn := Some e\<rparr>"
  have "fresh_blk ?w" using assms(3) by (simp add: fresh_blk_def)
  then obtain w' where "ijDumpError E ?w = Inr w'" using ijDumpError_unobs [of ?w E] assms(4,6) by auto
  then show ?thesis
    using assms(1,2,5)
    by (simp add: run_builtin_def ijEvalBinary_def loads_as_def JS_EvalFunction_def throw_defs Let_def)
qed

text \<open>Start-up: the built-in scripts run once each in the order the sources list them, and leave
  no reference behind; the first one that throws stops the process.\<close>

theorem boot_runs_builtins:
  assumes "builtin_scripts = ns @ rest" "fresh_blk w" "jsenv_ok E"
    and "\<forall>n\<in>set ns. loads_as M n (obj n) \<and>
      (\<exists>v. run_function M (JS_Ref (obj n)) = Inr v \<and> v \<notin> {JS_EXCEPTION, JS_JUNK})"
  shows "(rest = [] \<longrightarrow> (\<exists>w'. boot_scripts E M w = Inr w' \<and> refs w' = refs w \<and>
      ran w' = ran w @ map (\<lambda>n. JS_Ref (obj n)) builtin_scripts)) \<and>
    (\<forall>n ms e. rest = n # ms \<and> loads_as M n (obj n) \<and> \<not> is_module M (JS_Ref (obj n)) \<and>
      run_function M (JS_Ref (obj n)) = Inl e \<and> e \<noteq> JS_JUNK \<longrightarrow> boot_scripts E M w = Inl CheckFailed)"
proof -
  have b: "boot_scripts E M w = bindE (forE (run_builtin E M) ns w) (forE (run_builtin E M) rest)"
  proof -
    have "boot_scripts E M w = forE (run_builtin E M) builtin_scripts w"
      unfolding boot_scripts_def ijBootstrapGlobals_def ijAddBuiltins_def builtin_scripts_def
        forE_append [symmetric] append_Cons append_Nil ..
    then show ?thesis by (simp only: assms(1) forE_append)
  qed
  obtain w' where w': "forE (run_builtin E M) ns w = Inr w'" "refs w' = refs w" "blk w' = blk w"
    "tick w' = tick w" "ran w' = ran w @ map (\<lambda>n. JS_Ref (obj n)) ns"
    using forE_builtins [OF assms(4)] by blast
  have "fresh_blk w'" using assms(2) w' by (simp add: fresh_blk_def)
  then have "run_builtin E M n w' = Inl CheckFailed"
    if "loads_as M n (obj n)" "run_function M (JS_Ref (obj n)) = Inl e"
      "\<not> is_module M (JS_Ref (obj n))" "e \<noteq> JS_JUNK" for n e
    using run_builtin_throws [OF that(1,2) _ assms(3) that(3,4)] by blast
  then show ?thesis using w' assms(1) b by auto
qed

section \<open>Concrete instances\<close>

definition plain_mod :: modenv where
  "plain_mod = \<lparr>accessible = (\<lambda>f. f = ''lib/y.js''), js_eval = (\<lambda>_ _ _. Inr (JS_Ref 50)),
     run_function = (\<lambda>_. Inr JS_UNDEFINED), read_object = (\<lambda>b. Inr (JS_Ref (length b))),
     resolve_module = (\<lambda>_. True), detect_module = (\<lambda>_. True), is_module = (\<lambda>v. v = JS_Ref 50),
     mod_name = (\<lambda>_. Some ''a.js''), realpath = (\<lambda>n. Inr (''/srv/'' @ n)),
     import_meta = (\<lambda>_. True), dl_open = (\<lambda>_. False), dl_sym = (\<lambda>_. False), dl_init = (\<lambda>_. 0),
     bytecode = (\<lambda>n. n)\<rparr>"

definition mod_world :: mod_rt where
  "mod_world = curl_rt.extend curl_world (mod_rt.fields [] [] (\<lambda>_. []) [] None)"

lemmas mod_world_defs = mod_world_def curl_rt.defs mod_rt.defs curl_world_defs

theorem relative_import_resolves_witness:
  "\<exists>w'. ijModuleNormalizer plain_mod 1 ''src/app/main.js'' ''.././../lib/y.js'' mod_world =
    Inr (1, ''lib/y.js'', ''src/app/main.js'', w')"
  using relative_import_resolves [of 1 "[''src'', ''app'']" "''main.js''"
      "[''..'', ''.'', ''..'', ''lib'', ''y.js'']" mod_world plain_mod]
  by (auto simp: plain_dir_def plain_seg_def starts_def mod_world_defs plain_mod_def)

theorem absolute_base_loses_root_witness:
  "\<exists>w'. ijModuleNormalizer plain_mod 1 ''/x.js'' ''./y'' mod_world =
    Inr (1, ''y.js'', ''/x.js'', w')"
  using absolute_base_loses_root [of 1 "''x.js''" "''y''" mod_world plain_mod]
  by (auto simp: plain_seg_def mod_world_defs plain_mod_def)

theorem bare_import_resolves_witness:
  "\<exists>w'. ijModuleNormalizer plain_mod 1 ''src/app/main.js'' ''pg'' mod_world =
    Inr (1, ''src/ij_modules/pg'', ''src/app/main.js'', w')"
  using bare_import_resolves [of 1 "[''src'', ''app'']" "''main.js''" mod_world "''pg''" plain_mod]
  by (auto simp: plain_dir_def plain_seg_def starts_def is_http_def to_sep_def mod_world_defs)

definition hello_vm :: vmenv where
  "hello_vm = plain_vm\<lparr>fs_open := (\<lambda>_. 3)\<rparr>"

theorem script_imported_once_witness:
  "\<exists>w1 w2. engine_import hello_vm plain_curl plain_mod ''ij_modules/m'' mod_world = Some (Inr w1) \<and>
    engine_import hello_vm plain_curl plain_mod ''ij_modules/m'' w1 = Some (Inr w2) \<and>
    evals w2 = evals w1 @ [(''hello'' @ [CHR 0x00], ''ij_modules/m.js'', 33)]"
proof -
  have m: "module_file plain_mod ''ij_modules/m'' = Inr (SCRIPT_MODULE, ''ij_modules/m.js'')"
    by (simp add: module_file_def is_http_def has_suffix_def strcat_in_def plain_mod_def)
  have v: "0 \<le> fs_open hello_vm ''ij_modules/m.js''" "\<forall>n. room hello_vm n"
    by (simp_all add: hello_vm_def plain_vm_def)
  have s: "serves hello_vm (fs_open hello_vm ''ij_modules/m.js'') ''hello''"
    unfolding serves_def by (auto simp: hello_vm_def plain_vm_def intro: exI [of _ 2])
  have t: "script_text ''ij_modules/m.js'' ''hello'' = ''hello'' @ [CHR 0x00]"
    by (simp add: script_text_def has_suffix_def)
  have c: "compiles plain_mod (script_text ''ij_modules/m.js'' ''hello'') ''ij_modules/m.js'' 50"
    by (simp add: compiles_def plain_mod_def)
  have e: "''ij_modules/m'' \<notin> set (map (\<lambda>(_, f, _). f) (evals mod_world))" by (simp add: mod_world_defs)
  from script_imported_once [OF m v(1) s v(2) c e, of plain_curl] t show ?thesis by auto
qed

theorem boot_runs_builtins_witness:
  "\<exists>w'. boot_scripts plain_env plain_mod mod_world = Inr w' \<and> refs w' = refs mod_world \<and>
    length (ran w') = 15"
proof -
  have "fresh_blk mod_world" by (simp add: fresh_blk_def mod_world_defs)
  moreover have "\<forall>n\<in>set builtin_scripts. loads_as plain_mod n (length n) \<and>
      (\<exists>v. run_function plain_mod (JS_Ref (length n)) = Inr v \<and> v \<notin> {JS_EXCEPTION, JS_JUNK})"
    by (simp add: loads_as_def plain_mod_def)
  moreover have "ran mod_world = []" by (simp add: mod_world_defs)
  ultimately show ?thesis
    using boot_runs_builtins [of builtin_scripts "[]" mod_world plain_env plain_mod length] plain_env_ok
    by (auto simp: builtin_scripts_def)
qed

end
