(* ===== verification/JsMin.thy ===== *)
theory JsMin
  imports Prelude
begin

text \<open>
  The minifier behind \<open>ijjs --min\<close> (code/externals/jsmin/jsmin.c): the character source
  with one character of lookahead, the removal of comments, the three actions, the main loop
  and the driver that rewrites a file. Its static variables are the fields of the record
  \<open>jsmin\<close>; \<open>error\<close>, which prints a message and exits, is the left value of the result.

  The reference is a scanner \<open>units\<close> that splits a text into characters and string
  literals with comments replaced, and \<open>toks\<close>, which drops white space and joins the
  characters of a word. The main lemmas: every loop ends, and minifying keeps the tokens of the
  text.
\<close>

section \<open>State and character source\<close>

abbreviation EOF :: int where "EOF \<equiv> - 1"
abbreviation LF :: int where "LF \<equiv> 10"
abbreviation CR :: int where "CR \<equiv> 13"
abbreviation SP :: int where "SP \<equiv> 32"
abbreviation DQ :: int where "DQ \<equiv> 34"
abbreviation SQ :: int where "SQ \<equiv> 39"
abbreviation BQ :: int where "BQ \<equiv> 96"
abbreviation STAR :: int where "STAR \<equiv> 42"
abbreviation SLASH :: int where "SLASH \<equiv> 47"
abbreviation BACKSLASH :: int where "BACKSLASH \<equiv> 92"
abbreviation LBRACKET :: int where "LBRACKET \<equiv> 91"
abbreviation RBRACKET :: int where "RBRACKET \<equiv> 93"

record jsmin =
  fp :: "8 word list"
  outfp :: "8 word list"
  the_a :: int
  the_b :: int
  look_ahead :: int
  the_x :: int
  the_y :: int

definition chr :: "char \<Rightarrow> int" where
  "chr c = of_char c"

definition is_alphanum :: "int \<Rightarrow> bool" where
  "is_alphanum c = (chr CHR ''a'' \<le> c \<and> c \<le> chr CHR ''z'' \<or> chr CHR ''0'' \<le> c \<and> c \<le> chr CHR ''9'' \<or>
     chr CHR ''A'' \<le> c \<and> c \<le> chr CHR ''Z'' \<or> c = chr CHR ''_'' \<or> c = chr CHR ''$'' \<or> c = BACKSLASH \<or> 126 < c)"

definition getc :: "jsmin \<Rightarrow> int \<times> jsmin" where
  "getc s = (case fp s of [] \<Rightarrow> (EOF, s) | c # cs \<Rightarrow> (uint c, s\<lparr>fp := cs\<rparr>))"

definition putc :: "int \<Rightarrow> jsmin \<Rightarrow> jsmin" where
  "putc c s = s\<lparr>outfp := outfp s @ [word_of_int c]\<rparr>"

definition get :: "jsmin \<Rightarrow> int \<times> jsmin" where
  "get s = (let codeunit = look_ahead s; s = s\<lparr>look_ahead := EOF\<rparr>;
     (codeunit, s) = (if codeunit = EOF then getc s else (codeunit, s))
     in if SP \<le> codeunit \<or> codeunit = LF \<or> codeunit = EOF then (codeunit, s)
        else if codeunit = CR then (LF, s) else (SP, s))"

definition peek :: "jsmin \<Rightarrow> int \<times> jsmin" where
  "peek s = (let (c, s) = get s in (c, s\<lparr>look_ahead := c\<rparr>))"

text \<open>Characters left to read, the measure of every loop.\<close>

definition pending :: "jsmin \<Rightarrow> nat" where
  "pending s = length (fp s) + (if look_ahead s = EOF then 0 else 1)"

lemma pending_simps [simp]:
  "pending (s\<lparr>outfp := out\<rparr>) = pending s" "pending (s\<lparr>the_a := c\<rparr>) = pending s" "pending (s\<lparr>the_b := c\<rparr>) = pending s"
  "pending (s\<lparr>the_x := c\<rparr>) = pending s" "pending (s\<lparr>the_y := c\<rparr>) = pending s" "pending (putc c s) = pending s"
  by (simp_all add: pending_def putc_def)

lemma get_pending: "(c, s') = get s \<Longrightarrow> pending s' \<le> pending s \<and> (c \<noteq> EOF \<longrightarrow> pending s' < pending s)"
  by (auto simp: get_def getc_def pending_def Let_def split: if_splits list.splits)

lemma peek_pending: "(c, s') = peek s \<Longrightarrow> pending s' \<le> pending s"
  by (auto simp: peek_def get_def getc_def pending_def Let_def split: if_splits list.splits)

section \<open>Comments\<close>

function skip_line :: "jsmin \<Rightarrow> int \<times> jsmin" where
  "skip_line s = (let (codeunit, s) = get s in if codeunit \<le> LF then (codeunit, s) else skip_line s)"
  by auto
termination
  by (relation "measure pending") (auto dest!: get_pending)

function skip_block :: "jsmin \<Rightarrow> string + int \<times> jsmin" where
  "skip_block s = (let (c, s) = get s in
     if c = STAR then (let (p, s) = peek s in if p = SLASH then Inr (SP, snd (get s)) else skip_block s)
     else if c = EOF then Inl ''Unterminated comment.'' else skip_block s)"
  by auto
termination
  by (relation "measure pending") (auto dest!: get_pending peek_pending)

definition next_char :: "jsmin \<Rightarrow> string + int \<times> jsmin" where
  "next_char s = (let (codeunit, s) = get s in
     case (if codeunit = SLASH
           then (let (p, s) = peek s in
                 if p = SLASH then Inr (skip_line s)
                 else if p = STAR then skip_block (snd (get s)) else Inr (codeunit, s))
           else Inr (codeunit, s)) of
       Inl e \<Rightarrow> Inl e
     | Inr (codeunit, s) \<Rightarrow> Inr (codeunit, s\<lparr>the_y := the_x s, the_x := codeunit\<rparr>))"

section \<open>Actions\<close>

definition is_quote :: "int \<Rightarrow> bool" where
  "is_quote c = (c = SQ \<or> c = DQ \<or> c = BQ)"

definition is_operator :: "int \<Rightarrow> bool" where
  "is_operator c = (c \<in> {chr CHR ''+'', chr CHR ''-'', STAR, SLASH})"

definition before_regex :: "int \<Rightarrow> bool" where
  "before_regex c = (c \<in> set (map chr ''(,=:[!&|?+-~*/{};''))"

function copy_string :: "jsmin \<Rightarrow> string + jsmin" where
  "copy_string s = (let s = putc (the_a s) s; (a, s) = get s in
     if a = the_b s then Inr (s\<lparr>the_a := a\<rparr>)
     else (let (a, s) = (if a = BACKSLASH then get (putc a s) else (a, s)) in
           if a = EOF then Inl ''Unterminated string literal.'' else copy_string (s\<lparr>the_a := a\<rparr>)))"
  by auto
termination
  by (relation "measure pending") (auto split: if_splits dest!: get_pending)

function copy_set :: "jsmin \<Rightarrow> string + jsmin" where
  "copy_set s = (let s = putc (the_a s) s; (a, s) = get s in
     if a = RBRACKET then Inr (s\<lparr>the_a := a\<rparr>)
     else (let (a, s) = (if a = BACKSLASH then get (putc a s) else (a, s)) in
           if a = EOF then Inl ''Unterminated set in Regular Expression literal.''
           else copy_set (s\<lparr>the_a := a\<rparr>)))"
  by auto
termination
  by (relation "measure pending") (auto split: if_splits dest!: get_pending)

declare skip_line.simps [simp del] skip_block.simps [simp del] copy_string.simps [simp del] copy_set.simps [simp del]

lemma copy_set_pending: "copy_set s = Inr s' \<Longrightarrow> pending s' \<le> pending s"
proof (induction "pending s" arbitrary: s rule: less_induct)
  case less
  from less.prems show ?case
    by (subst (asm) copy_set.simps)
       (auto simp: Let_def split: prod.splits if_splits dest!: get_pending [OF sym] less.hyps [rotated])
qed

function copy_regex :: "jsmin \<Rightarrow> string + jsmin" where
  "copy_regex s = (let (a, s) = get s; s = s\<lparr>the_a := a\<rparr> in
     if a = SLASH then
       (let (p, s) = peek s in
        if p = SLASH \<or> p = STAR then Inl ''Unterminated set in Regular Expression literal.'' else Inr s)
     else case (if a = LBRACKET then copy_set s
                else if a = BACKSLASH then (let (a, s) = get (putc a s) in Inr (s\<lparr>the_a := a\<rparr>)) else Inr s) of
         Inl e \<Rightarrow> Inl e
       | Inr s \<Rightarrow> if the_a s = EOF then Inl ''Unterminated Regular Expression literal.''
                else copy_regex (putc (the_a s) s))"
  by auto
termination
  by (relation "measure pending") (auto split: if_splits prod.splits dest!: get_pending [OF sym] get_pending copy_set_pending)

declare copy_regex.simps [simp del]

lemma copy_regex_pending: "copy_regex s = Inr s' \<Longrightarrow> pending s' \<le> pending s"
proof (induction "pending s" arbitrary: s rule: less_induct)
  case less
  from less.prems show ?case
    by (subst (asm) copy_regex.simps)
       (auto simp: Let_def split: prod.splits if_splits sum.splits
         dest!: get_pending [OF sym] peek_pending [OF sym] copy_set_pending less.hyps [rotated])
qed

definition action1 :: "jsmin \<Rightarrow> jsmin" where
  "action1 s = (let s = putc (the_a s) s in
     if (the_y s = LF \<or> the_y s = SP) \<and> is_operator (the_a s) \<and> is_operator (the_b s) then putc (the_y s) s else s)"

definition action2 :: "jsmin \<Rightarrow> string + jsmin" where
  "action2 s = (let s = s\<lparr>the_a := the_b s\<rparr> in if is_quote (the_a s) then copy_string s else Inr s)"

definition next_b :: "jsmin \<Rightarrow> string + jsmin" where
  "next_b s = (case next_char s of Inl e \<Rightarrow> Inl e | Inr (b, s) \<Rightarrow> Inr (s\<lparr>the_b := b\<rparr>))"

definition action3 :: "jsmin \<Rightarrow> string + jsmin" where
  "action3 s = (case next_b s of Inl e \<Rightarrow> Inl e | Inr s \<Rightarrow>
     if the_b s = SLASH \<and> before_regex (the_a s) then
       (let s = putc (the_a s) s;
            s = (if the_a s = SLASH \<or> the_a s = STAR then putc SP s else s);
            s = putc (the_b s) s
        in case copy_regex s of Inl e \<Rightarrow> Inl e | Inr s \<Rightarrow> next_b s)
     else Inr s)"

definition action :: "nat \<Rightarrow> jsmin \<Rightarrow> string + jsmin" where
  "action determined s = (let s = (if determined = 1 then action1 s else s) in
     case (if determined \<le> 2 then action2 s else Inr s) of Inl e \<Rightarrow> Inl e | Inr s \<Rightarrow> action3 s)"

section \<open>Main loop\<close>

definition determined :: "int \<Rightarrow> int \<Rightarrow> nat" where
  "determined a b =
     (if a = SP then if is_alphanum b then 1 else 2
      else if a = LF then
        if b \<in> set (map chr ''{[(+-!~'') then 1 else if b = SP then 3 else if is_alphanum b then 1 else 2
      else if b = SP then if is_alphanum a then 1 else 3
      else if b = LF then
        if a \<in> set (map chr ''}])+-'') \<union> {DQ, SQ, BQ} then 1 else if is_alphanum a then 1 else 3
      else 1)"

definition size3 :: "jsmin \<Rightarrow> nat" where
  "size3 s = pending s + (if the_b s = EOF then 0 else 1) + (if the_a s = EOF then 0 else 1)"

text \<open>Reading leaves the other variables alone.\<close>

definition same_rest :: "jsmin \<Rightarrow> jsmin \<Rightarrow> bool" where
  "same_rest s s' \<longleftrightarrow> the_a s' = the_a s \<and> the_b s' = the_b s \<and> outfp s' = outfp s"

lemma get_rest: "(c, s') = get s \<Longrightarrow> same_rest s s'"
  by (auto simp: get_def getc_def same_rest_def Let_def split: if_splits list.splits)

lemma peek_rest: "(c, s') = peek s \<Longrightarrow> same_rest s s'"
  by (auto simp: peek_def get_def getc_def same_rest_def Let_def split: if_splits list.splits)

lemma same_rest_trans [trans]: "same_rest s t \<Longrightarrow> same_rest t u \<Longrightarrow> same_rest s u"
  by (simp add: same_rest_def)

lemma skip_line_step: "skip_line s = (c, s') \<Longrightarrow> same_rest s s' \<and> pending s' \<le> pending s \<and> (c \<noteq> EOF \<longrightarrow> pending s' < pending s)"
proof (induction "pending s" arbitrary: s rule: less_induct)
  case less
  obtain d t where g: "get s = (d, t)" by (cases "get s")
  note st = get_pending [OF g [symmetric]] get_rest [OF g [symmetric]]
  show ?case
  proof (cases "d \<le> LF")
    case True then show ?thesis using less.prems g st by (subst (asm) skip_line.simps) (auto simp: Let_def)
  next
    case False
    then have "skip_line t = (c, s')" "pending t < pending s"
      using less.prems g st by (subst (asm) skip_line.simps, simp add: Let_def) (use False st in auto)
    then show ?thesis using less.hyps [of t] st(2) same_rest_trans by fastforce
  qed
qed

lemma skip_block_step: "skip_block s = Inr (c, s') \<Longrightarrow> same_rest s s' \<and> pending s' < pending s \<and> c = SP"
proof (induction "pending s" arbitrary: s rule: less_induct)
  case less
  obtain d t where g: "get s = (d, t)" by (cases "get s")
  obtain e u where p: "peek t = (e, u)" by (cases "peek t")
  obtain f v where h: "get u = (f, v)" by (cases "get u")
  note st = get_pending [OF g [symmetric]] get_rest [OF g [symmetric]] peek_pending [OF p [symmetric]]
    peek_rest [OF p [symmetric]] get_pending [OF h [symmetric]] get_rest [OF h [symmetric]]
  have eq: "skip_block s = (if d = STAR then if e = SLASH then Inr (SP, v) else skip_block u
      else if d = EOF then Inl ''Unterminated comment.'' else skip_block t)"
    by (subst skip_block.simps) (simp add: g p h)
  consider (fin) "d = STAR" "e = SLASH" "s' = v" "c = SP" | (star) "d = STAR" "skip_block u = Inr (c, s')"
    | (other) "d \<noteq> EOF" "skip_block t = Inr (c, s')"
    using less.prems unfolding eq by (cases "d = STAR"; cases "e = SLASH"; cases "d = EOF") simp_all
  then show ?case
  proof cases
    case fin then show ?thesis using st by (auto simp: same_rest_def)
  next
    case star
    then have "pending u < pending s" using st by auto
    then show ?thesis using less.hyps [of u] star(2) st(2,4) by (auto simp: same_rest_def)
  next
    case other
    then have "pending t < pending s" using st by auto
    then show ?thesis using less.hyps [of t] other(2) st(2) by (auto simp: same_rest_def)
  qed
qed

lemma next_char_step:
  assumes "next_char s = Inr (c, s')"
  shows "same_rest s s' \<and> pending s' \<le> pending s \<and> (c \<noteq> EOF \<longrightarrow> pending s' < pending s)"
proof -
  obtain d t where g: "get s = (d, t)" by (cases "get s")
  obtain e u where p: "peek t = (e, u)" by (cases "peek t")
  obtain f v where h: "get u = (f, v)" by (cases "get u")
  obtain k l where l: "skip_line u = (k, l)" by (cases "skip_line u")
  note st = get_pending [OF g [symmetric]] get_rest [OF g [symmetric]] peek_pending [OF p [symmetric]]
    peek_rest [OF p [symmetric]] get_pending [OF h [symmetric]] get_rest [OF h [symmetric]] skip_line_step [OF l]
  consider (line) "d = SLASH" "e = SLASH" "c = k" "s' = l\<lparr>the_y := the_x l, the_x := k\<rparr>"
    | (blk) w where "d = SLASH" "skip_block v = Inr (c, w)" "s' = w\<lparr>the_y := the_x w, the_x := c\<rparr>"
    | (plain) "d = SLASH" "c = d" "s' = u\<lparr>the_y := the_x u, the_x := d\<rparr>"
    | (other) "c = d" "s' = t\<lparr>the_y := the_x t, the_x := d\<rparr>"
    using assms unfolding next_char_def g Let_def prod.case p h l snd_conv
    by (cases "d = SLASH"; cases "e = SLASH"; cases "e = STAR") (auto split: sum.splits)
  then show ?thesis
  proof cases
    case line then show ?thesis using st by (auto simp: same_rest_def)
  next
    case blk
    then show ?thesis using skip_block_step [of v c w] st by (auto simp: same_rest_def)
  next
    case plain then show ?thesis using st by (auto simp: same_rest_def)
  next
    case other then show ?thesis using st by (auto simp: same_rest_def)
  qed
qed

lemma next_b_step:
  "next_b s = Inr s' \<Longrightarrow> the_a s' = the_a s \<and> outfp s' = outfp s \<and> pending s' \<le> pending s \<and>
     (the_b s' \<noteq> EOF \<longrightarrow> pending s' < pending s)"
  by (auto simp: next_b_def same_rest_def split: sum.splits dest!: next_char_step)

lemma copy_string_step:
  "copy_string s = Inr s' \<Longrightarrow> pending s' \<le> pending s \<and> the_a s' = the_b s \<and> the_b s' = the_b s"
proof (induction "pending s" arbitrary: s rule: less_induct)
  case less
  obtain a t where g: "get (putc (the_a s) s) = (a, t)" by (cases "get (putc (the_a s) s)")
  obtain b u where h: "(if a = BACKSLASH then get (putc a t) else (a, t)) = (b, u)"
    by (cases "if a = BACKSLASH then get (putc a t) else (a, t)")
  have bt: "the_b t = the_b s" "pending t \<le> pending s" "a \<noteq> EOF \<longrightarrow> pending t < pending s"
    using get_rest [OF g [symmetric]] get_pending [OF g [symmetric]] by (auto simp: same_rest_def putc_def)
  have bu: "the_b u = the_b s" "b \<noteq> EOF \<longrightarrow> pending u < pending s"
    using h bt get_rest [of b u "putc a t"] get_pending [of b u "putc a t"]
    by (auto simp: same_rest_def putc_def split: if_splits)
  have eq: "copy_string s = (if a = the_b t then Inr (t\<lparr>the_a := a\<rparr>)
      else if b = EOF then Inl ''Unterminated string literal.'' else copy_string (u\<lparr>the_a := b\<rparr>))"
    by (subst copy_string.simps) (simp add: g h Let_def)
  show ?case
  proof (cases "a = the_b t")
    case True then show ?thesis using less.prems eq bt by auto
  next
    case False
    then have "b \<noteq> EOF" "copy_string (u\<lparr>the_a := b\<rparr>) = Inr s'"
      using less.prems unfolding eq by (cases "b = EOF"; simp)+
    then show ?thesis using less.hyps [of "u\<lparr>the_a := b\<rparr>"] bu by auto
  qed
qed

lemma copy_regex_step: "copy_regex s = Inr s' \<Longrightarrow> the_a s' = SLASH"
proof (induction "pending s" arbitrary: s rule: less_induct)
  case less
  from less.prems show ?case
    by (subst (asm) copy_regex.simps)
       (auto simp: Let_def same_rest_def split: prod.splits if_splits sum.splits
         dest!: get_pending [OF sym] peek_rest [OF sym] copy_set_pending less.hyps [rotated])
qed

lemma action2_step:
  "action2 s = Inr s' \<Longrightarrow> pending s' \<le> pending s \<and> the_a s' = the_b s \<and> the_b s' = the_b s"
  by (auto simp: action2_def Let_def split: if_splits dest!: copy_string_step)

lemma next_b_size: "next_b s = Inr s' \<Longrightarrow> size3 s' \<le> pending s + (if the_a s = EOF then 0 else 1)"
  using next_b_step [of s s'] by (auto simp: size3_def)

lemma action3_size:
  assumes "action3 s = Inr s'"
  shows "size3 s' \<le> pending s + (if the_a s = EOF then 0 else 1)"
proof -
  obtain t where t: "next_b s = Inr t" using assms by (cases "next_b s") (simp_all add: action3_def)
  show ?thesis
  proof (cases "the_b t = SLASH \<and> before_regex (the_a t)")
    case False
    then have "s' = t" using assms t by (auto simp: action3_def)
    then show ?thesis using next_b_size [OF t] by simp
  next
    case True
    have "\<not> before_regex EOF" by (simp add: before_regex_def chr_def)
    then have a: "the_a s \<noteq> EOF" using True next_b_step [OF t] by metis
    obtain v u where "copy_regex v = Inr u" "next_b u = Inr s'" "pending v = pending t"
      using assms t True by (auto simp: action3_def Let_def split: sum.splits if_splits)
    then show ?thesis using next_b_size [of u s'] copy_regex_step [of v u] copy_regex_pending [of v u] next_b_step [OF t] a
      by simp
  qed
qed

lemma action_size:
  assumes "action d s = Inr s'" "the_a s \<noteq> EOF" "d = 3 \<longrightarrow> the_b s \<noteq> EOF" "d \<le> 3"
  shows "size3 s' < size3 s"
proof -
  let ?t = "if d = 1 then action1 s else s"
  have t: "pending ?t = pending s" "the_a ?t = the_a s" "the_b ?t = the_b s"
    by (auto simp: action1_def putc_def Let_def pending_def)
  show ?thesis
  proof (cases "d \<le> 2")
    case True
    then obtain u where "action2 ?t = Inr u" "action3 u = Inr s'"
      using assms(1) by (auto simp: action_def Let_def split: sum.splits)
    then show ?thesis using action2_step [of ?t u] action3_size [of u s'] t assms(2)
      by (auto simp: size3_def split: if_splits)
  next
    case False
    then show ?thesis using assms action3_size [of s s'] by (auto simp: action_def size3_def split: if_splits)
  qed
qed

lemma determined_3: "determined a EOF \<noteq> 3" "determined a b \<le> 3" "determined a b \<noteq> 0"
  by (simp_all add: determined_def chr_def)

function jsmin_loop :: "jsmin \<Rightarrow> string + jsmin" where
  "jsmin_loop s = (if the_a s = EOF then Inr s
     else case action (determined (the_a s) (the_b s)) s of Inl e \<Rightarrow> Inl e | Inr s \<Rightarrow> jsmin_loop s)"
  by auto
termination
  by (relation "measure size3") (auto intro!: action_size simp: determined_3)

declare jsmin_loop.simps [simp del]

definition jsmin :: "jsmin \<Rightarrow> string + jsmin" where
  "jsmin s = (let (c, s) = peek s;
       s = (if c = 239 then snd (get (snd (get (snd (get s))))) else s)
     in case action 3 (s\<lparr>the_a := LF\<rparr>) of Inl e \<Rightarrow> Inl e | Inr s \<Rightarrow> jsmin_loop s)"

section \<open>Reference scanner\<close>

text \<open>\<open>units\<close> splits a text into single characters and whole string literals, with a line comment
  replaced by the end of its line and a block comment by a space. The text is read through
  \<open>norm\<close>, as the character source of the minifier delivers it.\<close>

definition norm :: "int \<Rightarrow> int" where
  "norm c = (if SP \<le> c \<or> c = LF then c else if c = CR then LF else SP)"

definition text_of :: "8 word list \<Rightarrow> int list" where
  "text_of bs = map (\<lambda>b. norm (uint b)) bs"

fun block_end :: "int list \<Rightarrow> int list option" where
  "block_end (c # d # cs) = (if c = STAR \<and> d = SLASH then Some cs else block_end (d # cs))"
| "block_end _ = None"

fun string_end :: "int \<Rightarrow> int list \<Rightarrow> (int list \<times> int list) option" where
  "string_end q [] = None"
| "string_end q [c] = (if c = q then Some ([c], []) else None)"
| "string_end q (c # d # cs) =
     (if c = q then Some ([c], d # cs)
      else if c = BACKSLASH then map_option (\<lambda>(b, r). (c # d # b, r)) (string_end q cs)
      else map_option (\<lambda>(b, r). (c # b, r)) (string_end q (d # cs)))"

lemma block_end_length: "block_end cs = Some r \<Longrightarrow> length r < length cs"
  by (induction cs rule: block_end.induct) (auto split: if_splits)

lemma string_end_length: "string_end q cs = Some (b, r) \<Longrightarrow> length r < length cs"
  by (induction q cs arbitrary: b r rule: string_end.induct) (fastforce split: if_splits)+

lemma dropWhile_rest_length: "dropWhile P cs = c # r \<Longrightarrow> length r < length cs"
  using length_dropWhile_le [of P cs] by simp

function units :: "int list \<Rightarrow> int list list option" where
  "units [] = Some []"
| "units (c # cs) =
     (if c = SLASH \<and> take 1 cs = [SLASH] then
        (case dropWhile (\<lambda>c. c \<noteq> LF) cs of [] \<Rightarrow> Some [] | _ # r \<Rightarrow> map_option ((#) [LF]) (units r))
      else if c = SLASH \<and> take 1 cs = [STAR] then
        (case block_end (drop 1 cs) of None \<Rightarrow> None | Some r \<Rightarrow> map_option ((#) [SP]) (units r))
      else if is_quote c then
        (case string_end c cs of None \<Rightarrow> None | Some (b, r) \<Rightarrow> map_option ((#) (c # b)) (units r))
      else map_option ((#) [c]) (units cs))"
  by pat_completeness auto
termination
  by (relation "measure length") (auto dest!: block_end_length string_end_length dropWhile_rest_length)

definition white :: "int list \<Rightarrow> bool" where
  "white u = (u = [SP] \<or> u = [LF])"

definition wordy :: "int list \<Rightarrow> bool" where
  "wordy u = (length u = 1 \<and> is_alphanum (hd u))"

fun toks :: "int list list \<Rightarrow> int list list" where
  "toks [] = []"
| "toks (u # us) =
     (if white u then toks us
      else if wordy u \<and> us \<noteq> [] \<and> wordy (hd us) then (u @ hd (toks us)) # tl (toks us)
      else u # toks us)"

section \<open>The minifier reads what the scanner reads\<close>

text \<open>The text not read yet, and the state of the lookahead the minifier maintains.\<close>

definition inp :: "jsmin \<Rightarrow> int list" where
  "inp s = (if look_ahead s = EOF then [] else [look_ahead s]) @ text_of (fp s)"

definition printable :: "int \<Rightarrow> bool" where
  "printable c = (c = LF \<or> SP \<le> c \<and> c < 256)"

definition la_ok :: "jsmin \<Rightarrow> bool" where
  "la_ok s = (look_ahead s = EOF \<or> printable (look_ahead s))"

lemma inp_simps [simp]:
  "inp (s\<lparr>outfp := out\<rparr>) = inp s" "inp (s\<lparr>the_a := c\<rparr>) = inp s" "inp (s\<lparr>the_b := c\<rparr>) = inp s"
  "inp (s\<lparr>the_x := c\<rparr>) = inp s" "inp (s\<lparr>the_y := c\<rparr>) = inp s" "inp (putc c s) = inp s"
  "la_ok (s\<lparr>outfp := out\<rparr>) = la_ok s" "la_ok (s\<lparr>the_a := c\<rparr>) = la_ok s" "la_ok (s\<lparr>the_b := c\<rparr>) = la_ok s"
  "la_ok (s\<lparr>the_x := c\<rparr>) = la_ok s" "la_ok (s\<lparr>the_y := c\<rparr>) = la_ok s" "la_ok (putc c s) = la_ok s"
  by (simp_all add: inp_def la_ok_def putc_def)

lemma byte_bounds: "0 \<le> uint (b :: 8 word)" "uint b < 256"
  using uint_bounded [of b] by simp_all

lemma byte_not_EOF [simp]: "uint (b :: 8 word) \<noteq> EOF"
  using byte_bounds(1) [of b] by linarith

lemma norm_printable: "printable (norm (uint (b :: 8 word)))"
  using byte_bounds [of b] by (auto simp: norm_def printable_def)

lemma printable_not_EOF [simp]: "\<not> printable EOF" by (simp add: printable_def)

lemma inp_printable: "la_ok s \<Longrightarrow> c \<in> set (inp s) \<Longrightarrow> printable c"
  by (auto simp: inp_def la_ok_def text_of_def norm_printable split: if_splits)

lemma get_inp:
  assumes "la_ok s" "get s = (c, s')"
  shows "la_ok s'" "inp s = [] \<Longrightarrow> c = EOF \<and> inp s' = []" "inp s \<noteq> [] \<Longrightarrow> inp s = c # inp s'"
  using assms byte_bounds [of "hd (fp s)"]
  by (auto simp: get_def getc_def inp_def la_ok_def text_of_def norm_def printable_def Let_def
      split: if_splits list.splits)

lemma peek_inp:
  assumes "la_ok s" "peek s = (c, s')"
  shows "la_ok s'" "inp s' = inp s" "c = (if inp s = [] then EOF else hd (inp s))"
  using assms byte_bounds [of "hd (fp s)"]
  by (auto simp: peek_def get_def getc_def inp_def la_ok_def text_of_def norm_def printable_def Let_def
      split: if_splits list.splits)

lemma skip_line_inp:
  "la_ok s \<Longrightarrow> skip_line s = (c, s') \<Longrightarrow> la_ok s' \<and>
     (case dropWhile (\<lambda>c. c \<noteq> LF) (inp s) of [] \<Rightarrow> c = EOF \<and> inp s' = [] | _ # r \<Rightarrow> c = LF \<and> inp s' = r)"
proof (induction "inp s" arbitrary: s)
  case Nil
  obtain d t where g: "get s = (d, t)" by (cases "get s")
  then have "d = EOF" "inp t = []" "la_ok t" using get_inp [OF Nil(2) g] Nil(1) by auto
  then show ?case using Nil(1,3) g by (subst (asm) skip_line.simps) auto
next
  case (Cons e es)
  obtain d t where g: "get s = (d, t)" by (cases "get s")
  then have t: "inp s = d # inp t" "la_ok t" using get_inp(1,3) [OF Cons(3) g] Cons(2) by (metis list.distinct(1))+
  then have "printable d" using inp_printable [OF Cons(3), of d] by simp
  then show ?case
    using Cons(1) [of t] Cons(2,4) g t by (subst (asm) skip_line.simps) (auto simp: printable_def split: if_splits)
qed

lemma skip_block_inp:
  "la_ok s \<Longrightarrow> block_end (inp s) = Some r \<Longrightarrow> \<exists>s'. skip_block s = Inr (SP, s') \<and> la_ok s' \<and> inp s' = r"
proof (induction "inp s" arbitrary: s)
  case (Cons x xs)
  obtain d t where g: "get s = (d, t)" by (cases "get s")
  then have t: "inp s = d # inp t" "la_ok t" using get_inp(1,3) [OF Cons(3) g] Cons(2) by (metis list.distinct(1))+
  then have dn: "d \<noteq> EOF" using inp_printable [OF Cons(3), of d] by auto
  obtain e es where es: "inp t = e # es" using Cons(4) t(1) by (cases "inp t") auto
  obtain f u where p: "peek t = (f, u)" by (cases "peek t")
  have u: "la_ok u" "inp u = e # es" "f = e" using peek_inp [OF t(2) p] es by auto
  obtain k v where h: "get u = (k, v)" by (cases "get u")
  have v: "la_ok v" "inp v = es" using get_inp [OF u(1) h] u(2) by auto
  have eq: "skip_block s = (if d = STAR then if e = SLASH then Inr (SP, v) else skip_block u else skip_block t)"
    using dn u(3) by (subst skip_block.simps) (simp add: g p h)
  show ?case
  proof (cases "d = STAR \<and> e = SLASH")
    case True then show ?thesis using eq v t(1) es Cons(4) by simp
  next
    case False
    then have "block_end (e # es) = Some r" using Cons(4) t(1) es by auto
    then show ?thesis using Cons(1) [of t] Cons(1) [of u] Cons(2) t u es eq False by auto
  qed
qed simp

lemma string_end_simps:
  "string_end q (q # z) = Some ([q], z)"
  "c \<noteq> q \<Longrightarrow> c \<noteq> BACKSLASH \<Longrightarrow> string_end q (c # z) = map_option (\<lambda>(b, r). (c # b, r)) (string_end q z)"
  by (cases z; simp)+

lemma string_end_append:
  "string_end q cs = Some (b, r) \<Longrightarrow> cs = b @ r \<and> b \<noteq> [] \<and> last b = q \<and> (\<forall>z. string_end q (b @ z) = Some (b, z))"
proof (induction q cs arbitrary: b r rule: string_end.induct)
  case (2 q c)
  then show ?case by (auto simp: string_end_simps split: if_splits)
next
  case (3 q c d cs)
  consider "c = q" | "c \<noteq> q" "c = BACKSLASH" | "c \<noteq> q" "c \<noteq> BACKSLASH" by blast
  then show ?case
  proof cases
    case 1 then show ?thesis using "3.prems" by (auto simp: string_end_simps)
  next
    case 2
    then obtain b' where "string_end q cs = Some (b', r)" "b = c # d # b'" using "3.prems" by auto
    then show ?thesis using "3.IH"(1) [of b' r] 2 by auto
  next
    case 3
    then obtain b' where "string_end q (d # cs) = Some (b', r)" "b = c # b'" using "3.prems" by auto
    then show ?thesis using "3.IH"(2) [of b' r] 3 by (auto simp: string_end_simps)
  qed
qed simp

lemma copy_string_inp:
  "la_ok s \<Longrightarrow> string_end (the_b s) (inp s) = Some (b, r) \<Longrightarrow> the_b s \<noteq> BACKSLASH \<Longrightarrow>
     \<exists>s'. copy_string s = Inr s' \<and> la_ok s' \<and> inp s' = r \<and> the_a s' = the_b s \<and> the_b s' = the_b s \<and>
       outfp s' = outfp s @ map word_of_int (the_a s # butlast b)"
proof (induction "length (inp s)" arbitrary: s b rule: less_induct)
  case less
  obtain a t where g: "get (putc (the_a s) s) = (a, t)" by (cases "get (putc (the_a s) s)")
  have ne: "inp s \<noteq> []" using less.prems(2) by auto
  have t: "inp s = a # inp t" "la_ok t" "the_b t = the_b s" "outfp t = outfp s @ [word_of_int (the_a s)]"
    using get_inp(1,3) [of "putc (the_a s) s" a t] less.prems(1) g ne get_rest [OF g [symmetric]]
    by (simp_all add: same_rest_def putc_def)
  have an: "a \<noteq> EOF" using inp_printable [OF less.prems(1), of a] t(1) by auto
  show ?case
  proof (cases "a = the_b s")
    case True
    then have "copy_string s = Inr (t\<lparr>the_a := a\<rparr>)" using t(3) by (subst copy_string.simps) (simp add: g)
    then show ?thesis using True t less.prems(2) by (auto simp: string_end_simps)
  next
    case False
    show ?thesis
    proof (cases "a = BACKSLASH")
      case True
      then obtain d ds b' where d: "inp t = d # ds" "string_end (the_b s) ds = Some (b', r)" "b = a # d # b'"
        using less.prems(2) t(1) False by (cases "inp t") auto
      obtain k u where h: "get (putc a t) = (k, u)" by (cases "get (putc a t)")
      have u: "k = d" "inp u = ds" "la_ok u" "the_b u = the_b s" "outfp u = outfp t @ [word_of_int a]"
        using get_inp(1,3) [of "putc a t" k u] t(2,3) h d(1) get_rest [OF h [symmetric]] by (simp_all add: same_rest_def putc_def)
      have "d \<noteq> EOF" using inp_printable [OF t(2), of d] d(1) by auto
      then have "copy_string s = copy_string (u\<lparr>the_a := d\<rparr>)"
        using False True t(3) h u(1) by (subst copy_string.simps) (simp add: g)
      moreover have "b' \<noteq> []" using string_end_append [OF d(2)] by simp
      ultimately show ?thesis using less.hyps [of "u\<lparr>the_a := d\<rparr>" b'] u d t less.prems(3) by simp
    next
      case nb: False
      then obtain b' where b': "string_end (the_b s) (inp t) = Some (b', r)" "b = a # b'"
        using less.prems(2) t(1) False by (auto simp: string_end_simps)
      have "copy_string s = copy_string (t\<lparr>the_a := a\<rparr>)"
        using False nb t(3) an by (subst copy_string.simps) (simp add: g)
      moreover have "b' \<noteq> []" using string_end_append [OF b'(1)] by simp
      ultimately show ?thesis using less.hyps [of "t\<lparr>the_a := a\<rparr>" b'] b' t less.prems(3) by simp
    qed
  qed
qed

declare units.simps(2) [simp del]

lemma units_white: "units (LF # r) = map_option ((#) [LF]) (units r)" "units (SP # r) = map_option ((#) [SP]) (units r)"
  by (simp_all add: units.simps(2) is_quote_def)

text \<open>The next character is the first of the next unit.\<close>

definition at_unit :: "int list list \<Rightarrow> int \<Rightarrow> jsmin \<Rightarrow> bool" where
  "at_unit us c s \<longleftrightarrow> la_ok s \<and> (if c = EOF then us = [] \<and> inp s = []
     else printable c \<and> units (c # inp s) = Some us \<and> (c = SLASH \<longrightarrow> [SLASH] \<in> set us))"

lemma next_char_units:
  assumes "la_ok s" "units (inp s) = Some us"
  shows "\<exists>c s'. next_char s = Inr (c, s') \<and> at_unit us c s'"
proof -
  obtain c t where g: "get s = (c, t)" by (cases "get s")
  obtain e u where p: "peek t = (e, u)" by (cases "peek t")
  obtain f v where h: "get u = (f, v)" by (cases "get u")
  obtain k l where l: "skip_line u = (k, l)" by (cases "skip_line u")
  have t: "la_ok t" using get_inp(1) [OF assms(1) g] .
  have u: "la_ok u" "inp u = inp t" "e = (if inp t = [] then EOF else hd (inp t))" using peek_inp [OF t p] by auto
  note nc = next_char_def [of s, unfolded g Let_def prod.case p h l snd_conv]
  consider (eof) "inp s = []" "c = EOF" "inp t = []" | (c) "inp s = c # inp t" "printable c"
    using get_inp(2,3) [OF assms(1) g] inp_printable [OF assms(1), of c] by (cases "inp s") auto
  then show ?thesis
  proof cases
    case eof then show ?thesis using assms(2) t by (auto simp: nc at_unit_def)
  next
    case c
    have cn: "c \<noteq> EOF" using c(2) by auto
    consider (other) "c \<noteq> SLASH" | (line) r where "c = SLASH" "inp t = SLASH # r" | (blk) r where "c = SLASH" "inp t = STAR # r"
      | (plain) "c = SLASH" "e \<noteq> SLASH" "e \<noteq> STAR" using u(3) by (cases "inp t") auto
    then show ?thesis
    proof cases
      case other then show ?thesis using c cn assms(2) t by (auto simp: nc at_unit_def)
    next
      case line
      note k = skip_line_inp [OF u(1) l]
      show ?thesis using line assms(2) c(1) u k
        by (cases "dropWhile (\<lambda>c. c \<noteq> LF) r") (auto simp: nc at_unit_def printable_def units_white units.simps(2) [of SLASH])
    next
      case blk
      then obtain x y where x: "block_end r = Some x" "units x = Some y" "us = [SP] # y"
        using assms(2) c(1) by (auto simp: units.simps(2) [of SLASH] split: option.splits)
      have "la_ok v" "inp v = r" using get_inp(1,3) [OF u(1) h] u(2) blk(2) by auto
      then obtain s' where "skip_block v = Inr (SP, s')" "la_ok s'" "inp s' = x" using skip_block_inp [of v x] x(1) by auto
      then show ?thesis using blk u(3) x by (auto simp: nc at_unit_def printable_def units_white)
    next
      case plain
      have "take 1 (inp t) \<noteq> [SLASH]" "take 1 (inp t) \<noteq> [STAR]" using u(3) plain by (cases "inp t"; auto)+
      then show ?thesis using plain c cn assms(2) u by (auto simp: nc at_unit_def units.simps(2) [of SLASH] is_quote_def)
    qed
  qed
qed

lemma next_b_units:
  assumes "la_ok s" "units (inp s) = Some us"
  shows "\<exists>s'. next_b s = Inr s' \<and> at_unit us (the_b s') s' \<and> the_a s' = the_a s \<and> outfp s' = outfp s"
proof -
  obtain c s' where c: "next_char s = Inr (c, s')" "at_unit us c s'" using next_char_units [OF assms] by blast
  then have "at_unit us c (s'\<lparr>the_b := c\<rparr>)" by (simp add: at_unit_def)
  then show ?thesis using c(1) next_char_step [OF c(1)] by (auto simp: next_b_def same_rest_def)
qed

section \<open>Tokens are kept\<close>

lemma white_not_wordy: "white w \<Longrightarrow> \<not> wordy w"
  by (auto simp: white_def wordy_def is_alphanum_def chr_def)

lemma toks_cons_cong:
  assumes "toks us = toks vs" "us = [] \<longleftrightarrow> vs = []" "us \<noteq> [] \<Longrightarrow> wordy (hd us) = wordy (hd vs)"
  shows "toks (u # us) = toks (u # vs)"
  using assms by (cases "us = []") auto

lemma toks_skip_before: "white w \<Longrightarrow> \<not> wordy v \<Longrightarrow> toks (xs @ w # v # ys) = toks (xs @ v # ys)"
proof (induction xs)
  case (Cons u xs)
  then have "toks (xs @ w # v # ys) = toks (xs @ v # ys)" by blast
  then show ?case unfolding append_Cons
    by (rule toks_cons_cong) (use Cons.prems white_not_wordy in \<open>cases xs; simp\<close>)+
qed simp

lemma toks_skip_after: "white w \<Longrightarrow> \<not> wordy a \<Longrightarrow> toks (xs @ a # w # ys) = toks (xs @ a # ys)"
proof (induction xs)
  case (Cons u xs)
  then have "toks (xs @ a # w # ys) = toks (xs @ a # ys)" by blast
  then show ?case unfolding append_Cons by (rule toks_cons_cong) (cases xs; simp)+
qed (auto dest: white_not_wordy)

lemma toks_skip_last: "white w \<Longrightarrow> toks (xs @ [w]) = toks xs"
proof (induction xs)
  case (Cons u xs)
  show ?case
  proof (cases xs)
    case Nil then show ?thesis using Cons.prems white_not_wordy by auto
  next
    case (Cons y ys)
    then show ?thesis unfolding append_Cons using Cons.IH Cons.prems by (intro toks_cons_cong) auto
  qed
qed simp

text \<open>Complete units: a character that stands for itself or a string literal with its quotes.\<close>

definition wf_unit :: "int list \<Rightarrow> bool" where
  "wf_unit u = (case u of [] \<Rightarrow> False | c # b \<Rightarrow> list_all printable u \<and>
     (if is_quote c then string_end c b = Some (b, []) else b = [] \<and> c \<noteq> SLASH))"

lemma wf_unit_last:
  assumes "wf_unit u"
  shows "u \<noteq> []" "wordy u \<longleftrightarrow> is_alphanum (last u)" "last u = SP \<longleftrightarrow> u = [SP]" "last u = LF \<longleftrightarrow> u = [LF]"
proof -
  obtain c b where u: "u = c # b" using assms by (cases u) (auto simp: wf_unit_def)
  have "u \<noteq> [] \<and> (wordy u \<longleftrightarrow> is_alphanum (last u)) \<and> (last u = SP \<longleftrightarrow> u = [SP]) \<and> (last u = LF \<longleftrightarrow> u = [LF])"
  proof (cases "is_quote c")
    case True
    then have "b \<noteq> []" "last b = c" using assms u string_end_append [of c b b "[]"] by (auto simp: wf_unit_def)
    then show ?thesis using u True by (auto simp: wordy_def is_quote_def is_alphanum_def chr_def)
  next
    case False
    then show ?thesis using u assms by (auto simp: wordy_def wf_unit_def)
  qed
  then show "u \<noteq> []" "wordy u \<longleftrightarrow> is_alphanum (last u)" "last u = SP \<longleftrightarrow> u = [SP]" "last u = LF \<longleftrightarrow> u = [LF]" by auto
qed

lemma wf_unit_printable: "wf_unit u \<Longrightarrow> list_all printable u"
  by (cases u) (auto simp: wf_unit_def)

lemma units_concat: "list_all wf_unit ds \<Longrightarrow> units (concat ds) = Some ds"
proof (induction ds)
  case (Cons u ds)
  obtain c b where u: "u = c # b" using Cons.prems by (cases u) (auto simp: wf_unit_def)
  show ?case
  proof (cases "is_quote c")
    case True
    then have "string_end c b = Some (b, [])" "c \<noteq> SLASH" using Cons.prems u by (auto simp: wf_unit_def is_quote_def)
    then have "string_end c (b @ concat ds) = Some (b, concat ds)" using string_end_append by blast
    then show ?thesis using u True \<open>c \<noteq> SLASH\<close> Cons by (simp add: units.simps(2))
  next
    case False
    then show ?thesis using u Cons by (simp add: units.simps(2) wf_unit_def)
  qed
qed simp

lemma printable_byte: "printable c \<Longrightarrow> uint (word_of_int c :: 8 word) = c"
  by (auto simp: printable_def uint_word_of_int)

lemma printable_bytes: "list_all printable cs \<Longrightarrow> map uint (map word_of_int cs :: 8 word list) = cs"
  by (induction cs) (auto simp: printable_byte)

text \<open>Taking over a unit (the second part of an action) copies the whole of it.\<close>

lemma action2_unit:
  assumes "at_unit us (the_b s) s" "[SLASH] \<notin> set us" "the_b s \<noteq> EOF"
  obtains v us' s' where "us = v # us'" "hd v = the_b s" "wf_unit v" "action2 s = Inr s'" "la_ok s'" "units (inp s') = Some us'"
    "map uint (outfp s') @ [the_a s'] = map uint (outfp s) @ v"
proof -
  let ?c = "the_b s"
  have c: "printable ?c" "units (?c # inp s) = Some us" "?c \<noteq> SLASH" "la_ok s"
    using assms by (auto simp: at_unit_def)
  show ?thesis
  proof (cases "is_quote ?c")
    case True
    then obtain b r us' where b: "string_end ?c (inp s) = Some (b, r)" "units r = Some us'" "us = (?c # b) # us'"
      using c(2,3) by (auto simp: units.simps(2) split: option.splits)
    note e = string_end_append [OF b(1)]
    have "?c \<noteq> BACKSLASH" using True by (auto simp: is_quote_def)
    then obtain s' where s': "copy_string (s\<lparr>the_a := ?c\<rparr>) = Inr s'" "la_ok s'" "inp s' = r" "the_a s' = ?c"
      "outfp s' = outfp s @ map word_of_int (?c # butlast b)"
      using copy_string_inp [of "s\<lparr>the_a := ?c\<rparr>" b r] c(4) b(1) by auto
    have pr: "list_all printable (?c # b)" using c(1) inp_printable [OF c(4)] e by (auto simp: list_all_iff)
    then have "list_all printable (?c # butlast b)" by (auto simp: list_all_iff dest: in_set_butlastD)
    from printable_bytes [OF this] have "map uint (outfp s') @ [the_a s'] = map uint (outfp s) @ ?c # b"
      using s'(4,5) e by (metis append.assoc append_Cons append_butlast_last_id map_append)
    moreover have "wf_unit (?c # b)" using pr True e by (auto simp: wf_unit_def) (metis append_Nil2)
    ultimately show ?thesis using that [of "?c # b" us' s'] b s' True by (simp add: action2_def)
  next
    case False
    then obtain us' where "units (inp s) = Some us'" "us = [?c] # us'"
      using c(2,3) by (auto simp: units.simps(2))
    then show ?thesis using that [of "[?c]" us' "s\<lparr>the_a := ?c\<rparr>"] c False
      by (simp add: action2_def wf_unit_def)
  qed
qed

lemma action3_unit:
  assumes "la_ok s" "units (inp s) = Some us" "[SLASH] \<notin> set us"
  shows "\<exists>s'. action3 s = Inr s' \<and> at_unit us (the_b s') s' \<and> the_a s' = the_a s \<and> outfp s' = outfp s"
proof -
  obtain s' where s': "next_b s = Inr s'" "at_unit us (the_b s') s'" "the_a s' = the_a s" "outfp s' = outfp s"
    using next_b_units [OF assms(1,2)] by blast
  then have "the_b s' \<noteq> SLASH" using assms(3) by (auto simp: at_unit_def)
  then show ?thesis using s' by (simp add: action3_def)
qed

text \<open>The invariant of the main loop: what was written, the pending character and the text ahead
  are complete units with the tokens \<open>T\<close>.\<close>

definition written :: "int list list \<Rightarrow> jsmin \<Rightarrow> bool" where
  "written ds s \<longleftrightarrow> map uint (outfp s) = concat ds \<and> list_all wf_unit ds"

definition minv :: "int list list \<Rightarrow> jsmin \<Rightarrow> bool" where
  "minv T s \<longleftrightarrow> (\<exists>ds u us. map uint (outfp s) @ [the_a s] = concat (ds @ [u]) \<and> list_all wf_unit (ds @ [u]) \<and>
     at_unit us (the_b s) s \<and> [SLASH] \<notin> set us \<and> toks (ds @ u # us) = T)"

definition finished :: "int list list \<Rightarrow> jsmin \<Rightarrow> bool" where
  "finished T s \<longleftrightarrow> the_a s = EOF \<and> look_ahead s = EOF \<and> (\<exists>ds. written ds s \<and> toks ds = T)"

text \<open>After the output of an action, taking over the next unit restores the invariant.\<close>

lemma take_over:
  assumes "written ds s" "at_unit us (the_b s) s" "[SLASH] \<notin> set us"
  shows "\<exists>t s'. action2 s = Inr t \<and> action3 t = Inr s' \<and> (minv (toks (ds @ us)) s' \<or> finished (toks (ds @ us)) s')"
proof (cases "the_b s = EOF")
  case True
  then have s: "la_ok s" "us = []" "inp s = []" using assms(2) by (auto simp: at_unit_def)
  have a2: "action2 s = Inr (s\<lparr>the_a := EOF\<rparr>)" using True by (simp add: action2_def is_quote_def)
  obtain s' where s': "action3 (s\<lparr>the_a := EOF\<rparr>) = Inr s'" "at_unit [] (the_b s') s'" "the_a s' = EOF" "outfp s' = outfp s"
    using action3_unit [of "s\<lparr>the_a := EOF\<rparr>" "[]"] s by auto
  have "look_ahead s' = EOF" using s'(2) by (auto simp: at_unit_def inp_def units.simps(2) split: if_splits option.splits)
  then show ?thesis using a2 assms(1) s(2) s' by (auto simp: finished_def written_def)
next
  case False
  obtain v us' t where v: "us = v # us'" "wf_unit v" "action2 s = Inr t" "la_ok t" "units (inp t) = Some us'"
    "map uint (outfp t) @ [the_a t] = map uint (outfp s) @ v"
    using action2_unit [OF assms(2,3) False] by metis
  have ns: "[SLASH] \<notin> set us'" using assms(3) v(1) by simp
  obtain s' where s': "action3 t = Inr s'" "at_unit us' (the_b s') s'" "the_a s' = the_a t" "outfp s' = outfp t"
    using action3_unit [OF v(4,5) ns] by blast
  have "minv (toks (ds @ us)) s'" unfolding minv_def
    by (rule exI [of _ ds], rule exI [of _ v], rule exI [of _ us'])
       (use v s' assms(1) ns in \<open>simp add: written_def\<close>)
  then show ?thesis using v(3) s'(1) by blast
qed

lemma determined_2: "determined a b = 2 \<Longrightarrow> (a = SP \<or> a = LF) \<and> \<not> is_alphanum b"
  by (cases "a = SP"; cases "a = LF"; cases "is_alphanum b") (auto simp: determined_def split: if_splits)

lemma determined_3': "determined a b = 3 \<Longrightarrow> (b = SP \<or> b = LF) \<and> \<not> is_alphanum a"
  by (cases "b = SP"; cases "b = LF"; cases "is_alphanum a") (auto simp: determined_def is_alphanum_def chr_def split: if_splits)

lemma operator_not_word: "is_operator a \<Longrightarrow> \<not> is_alphanum a"
  by (auto simp: is_operator_def is_alphanum_def chr_def)

lemma action1_written:
  assumes "map uint (outfp s) @ [the_a s] = concat (ds @ [u])" "list_all wf_unit (ds @ [u])"
  shows "\<exists>ds'. written ds' (action1 s) \<and> toks (ds' @ us) = toks (ds @ u # us)"
proof -
  have u: "wf_unit u" using assms(2) by simp
  have a: "the_a s = last u" using arg_cong [OF assms(1), of last] wf_unit_last(1) [OF u] by simp
  have "printable (last u)" using u wf_unit_last(1) [OF u] by (cases u) (auto simp: wf_unit_def list_all_iff split: if_splits)
  then have out: "map uint (outfp s @ [word_of_int (the_a s)]) = concat (ds @ [u])"
    using assms(1) a by (simp add: printable_byte)
  show ?thesis
  proof (cases "(the_y s = LF \<or> the_y s = SP) \<and> is_operator (the_a s) \<and> is_operator (the_b s)")
    case True
    then have y: "wf_unit [the_y s]" "white [the_y s]" "uint (word_of_int (the_y s) :: 8 word) = the_y s"
      by (auto simp: wf_unit_def white_def printable_def is_quote_def)
    have "written (ds @ [u, [the_y s]]) (action1 s)"
      using True out assms(2) y by (simp add: written_def action1_def putc_def Let_def)
    moreover have "\<not> wordy u" using True operator_not_word wf_unit_last(2) [OF u] a by auto
    then have "toks ((ds @ [u, [the_y s]]) @ us) = toks (ds @ u # us)" using toks_skip_after [OF y(2)] by simp
    ultimately show ?thesis by blast
  next
    case False
    then have "written (ds @ [u]) (action1 s)"
      using out assms(2) by (auto simp: written_def action1_def putc_def Let_def)
    then show ?thesis by (intro exI [of _ "ds @ [u]"]) simp
  qed
qed

lemma action1_rest: "the_b (action1 s) = the_b s" "at_unit us c (action1 s) = at_unit us c s"
  by (simp_all add: action1_def putc_def at_unit_def Let_def)

lemma action_keeps_tokens:
  assumes "minv T s"
  shows "\<exists>s'. action (determined (the_a s) (the_b s)) s = Inr s' \<and> (minv T s' \<or> finished T s')"
proof -
  obtain ds u us where m: "map uint (outfp s) @ [the_a s] = concat (ds @ [u])" "list_all wf_unit (ds @ [u])"
    "at_unit us (the_b s) s" "[SLASH] \<notin> set us" "toks (ds @ u # us) = T" using assms by (auto simp: minv_def)
  have u: "wf_unit u" using m(2) by simp
  have a: "the_a s = last u" using arg_cong [OF m(1), of last] wf_unit_last(1) [OF u] by simp
  let ?d = "determined (the_a s) (the_b s)"
  consider "?d = 1" | "?d = 2" | "?d = 3" using determined_3(2,3) [of "the_a s" "the_b s"] by linarith
  then show ?thesis
  proof cases
    case 1
    obtain ds' where w: "written ds' (action1 s)" "toks (ds' @ us) = T" using action1_written [OF m(1,2)] m(5) by metis
    show ?thesis using take_over [OF w(1), of us] m(3,4) 1 w(2) by (auto simp: action_def action1_rest)
  next
    case 2
    note d = determined_2 [OF 2]
    have ua: "u = [the_a s]" "white u" using d a wf_unit_last(3,4) [OF u] by (auto simp: white_def)
    have w: "written ds s" using m(1,2) ua(1) by (simp add: written_def)
    have "toks (ds @ us) = T"
    proof (cases us)
      case Nil then show ?thesis using m(5) toks_skip_last [OF ua(2)] by simp
    next
      case (Cons v us')
      then have "the_b s \<noteq> EOF" using m(3) by (auto simp: at_unit_def)
      then have "hd v = the_b s" using action2_unit [OF m(3,4)] Cons by (metis list.inject)
      then have "\<not> wordy v" using d by (auto simp: wordy_def)
      then show ?thesis using m(5) Cons toks_skip_before [OF ua(2)] by simp
    qed
    then show ?thesis using take_over [OF w m(3,4)] 2 by (auto simp: action_def)
  next
    case 3
    note d = determined_3' [OF 3]
    then have b: "la_ok s" "units (the_b s # inp s) = Some us" using m(3) by (auto simp: at_unit_def split: if_splits)
    then obtain us' where us': "units (inp s) = Some us'" "us = [the_b s] # us'"
      using d by (auto simp: units_white)
    have "\<not> wordy u" "white [the_b s]" using d a wf_unit_last(2) [OF u] by (auto simp: white_def)
    then have T: "toks (ds @ u # us') = T" using m(5) us'(2) toks_skip_after by metis
    obtain s' where "action3 s = Inr s'" "at_unit us' (the_b s') s'" "the_a s' = the_a s" "outfp s' = outfp s"
      using action3_unit [OF b(1) us'(1)] m(4) us'(2) by auto
    then show ?thesis using 3 m(1,2,4) us'(2) T unfolding minv_def
      by (intro exI [of _ s'] conjI disjI1 exI [of _ ds] exI [of _ u] exI [of _ us']) (simp_all add: action_def)
  qed
qed

lemma minv_not_EOF: "minv T s \<Longrightarrow> the_a s \<noteq> EOF"
proof
  assume "minv T s" and e: "the_a s = EOF"
  then obtain ds u where m: "map uint (outfp s) @ [the_a s] = concat (ds @ [u])" "wf_unit u" by (auto simp: minv_def)
  have "the_a s = last u" using arg_cong [OF m(1), of last] wf_unit_last(1) [OF m(2)] by simp
  then have "EOF \<in> set u" using e wf_unit_last(1) [OF m(2)] by (metis last_in_set)
  then show False using wf_unit_printable [OF m(2)] by (auto simp: list_all_iff)
qed

lemma jsmin_loop_keeps_tokens:
  "minv T s \<or> finished T s \<Longrightarrow> \<exists>s'. jsmin_loop s = Inr s' \<and> finished T s'"
proof (induction s rule: jsmin_loop.induct)
  case (1 s)
  show ?case
  proof (cases "finished T s")
    case True then show ?thesis by (subst jsmin_loop.simps) (auto simp: finished_def)
  next
    case False
    then have m: "minv T s" "the_a s \<noteq> EOF" using 1(2) minv_not_EOF by auto
    obtain s' where "action (determined (the_a s) (the_b s)) s = Inr s'" "minv T s' \<or> finished T s'"
      using action_keeps_tokens [OF m(1)] by blast
    then show ?thesis using 1(1) [OF m(2), of s'] m(2) by (subst jsmin_loop.simps) auto
  qed
qed

lemma get_drop:
  assumes "la_ok s"
  shows "inp (snd (get s)) = drop 1 (inp s)" "la_ok (snd (get s))" "outfp (snd (get s)) = outfp s"
proof -
  obtain c t where g: "get s = (c, t)" by (cases "get s")
  show "inp (snd (get s)) = drop 1 (inp s)" using get_inp(2,3) [OF assms g] g by (cases "inp s") auto
  show "la_ok (snd (get s))" "outfp (snd (get s)) = outfp s"
    using get_inp(1) [OF assms g] get_rest [OF g [symmetric]] g by (auto simp: same_rest_def)
qed

lemma is_bom: "uint (b :: 8 word) = 239 \<longleftrightarrow> b = 239"
  by (simp add: word_uint_eq_iff)

definition skip_bom :: "8 word list \<Rightarrow> 8 word list" where
  "skip_bom bs = (if take 1 bs = [239] then drop 3 bs else bs)"

lemma jsmin_keeps_tokens:
  assumes "units (text_of (skip_bom (fp s))) = Some us" "[SLASH] \<notin> set us" "outfp s = []" "look_ahead s = EOF"
  shows "\<exists>s' us'. jsmin s = Inr s' \<and> look_ahead s' = EOF \<and> units (text_of (outfp s')) = Some us' \<and> toks us' = toks us"
proof -
  obtain c t where p: "peek s = (c, t)" by (cases "peek s")
  have s: "la_ok s" "inp s = text_of (fp s)" using assms(4) by (simp_all add: la_ok_def inp_def)
  have t: "la_ok t" "inp t = text_of (fp s)" "c = (if text_of (fp s) = [] then EOF else hd (text_of (fp s)))" "outfp t = []"
    using peek_inp [OF s(1) p] s(2) peek_rest [OF p [symmetric]] assms(3) by (auto simp: same_rest_def)
  define v where "v = (if c = 239 then snd (get (snd (get (snd (get t))))) else t)"
  have c: "c = 239 \<longleftrightarrow> take 1 (fp s) = [239]"
    using t(3) by (cases "fp s") (auto simp: text_of_def norm_def is_bom)
  have v: "la_ok v" "inp v = text_of (skip_bom (fp s))" "outfp v = []"
    using t c by (simp_all add: v_def skip_bom_def get_drop text_of_def drop_map numeral_3_eq_3)
  obtain w where w: "action3 (v\<lparr>the_a := LF\<rparr>) = Inr w" "at_unit us (the_b w) w" "the_a w = LF" "outfp w = []"
    using action3_unit [of "v\<lparr>the_a := LF\<rparr>" us] v assms(1,2) by auto
  have "minv (toks us) w" unfolding minv_def
    by (rule exI [of _ "[]"], rule exI [of _ "[LF]"], rule exI [of _ us])
       (use w assms(2) in \<open>simp add: wf_unit_def printable_def is_quote_def white_def\<close>)
  then obtain s' where s': "jsmin_loop w = Inr s'" "finished (toks us) s'" using jsmin_loop_keeps_tokens by blast
  then obtain ds where ds: "map uint (outfp s') = concat ds" "list_all wf_unit ds" "toks ds = toks us"
    by (auto simp: finished_def written_def)
  have "list_all printable (concat ds)" using ds(2) by (induction ds) (auto dest: wf_unit_printable)
  then have "text_of (outfp s') = concat ds"
    unfolding ds(1) [symmetric] text_of_def by (auto simp: list_all_iff norm_def printable_def)
  moreover have "jsmin s = Inr s'" using p w(1) s'(1) by (simp add: jsmin_def v_def action_def)
  ultimately show ?thesis using units_concat [OF ds(2)] ds(3) s'(2) by (auto simp: finished_def)
qed

section \<open>Minifying a directory\<close>

text \<open>\<open>dirs\<close> is what the operating system answers: the entries of a directory, the mode bits of a
  path, whether a directory can be entered and whether the scratch file can be created. The walk
  keeps the working directory, the contents of the files and the static variables of the minifier;
  \<open>error\<close>, which ends the process, is the inner left value.\<close>

record dirs =
  readdir_of :: "string \<Rightarrow> string list option"
  mode_of :: "string \<Rightarrow> nat option"
  chdir_ok :: "string \<Rightarrow> bool"
  temp_ok :: bool

record walk =
  cwd :: string
  files :: "string \<rightharpoonup> 8 word list"
  mins :: jsmin
  messages :: "string list"

type_synonym 'a exits = "(string + 'a) res"

definition bindX :: "'a exits \<Rightarrow> ('a \<Rightarrow> 'b exits) \<Rightarrow> 'b exits" where
  "bindX m f = bindE m (\<lambda>r. case r of Inl e \<Rightarrow> Inr (Inl e) | Inr x \<Rightarrow> f x)"

definition compressjs :: "dirs \<Rightarrow> string \<Rightarrow> walk \<Rightarrow> walk exits" where
  "compressjs D f w = (case files w f of None \<Rightarrow> Inl NullDeref | Some bs \<Rightarrow>
     if \<not> temp_ok D then Inl NullDeref
     else case jsmin ((mins w)\<lparr>fp := bs, outfp := []\<rparr>) of
         Inl e \<Rightarrow> Inr (Inl e)
       | Inr s \<Rightarrow> let files_temp = (files w)(cwd w @ ''/temp'' \<mapsto> outfp s);
                    files_out = files_temp(f := files_temp (cwd w @ ''/temp''))
                 in Inr (Inr (w\<lparr>files := files_out(cwd w @ ''/temp'' := None), mins := s\<rparr>)))"

definition isJS :: "string \<Rightarrow> bool res" where
  "isJS f = (if length f < 3 then Inl BufferOverflow
     else Inr (f ! (length f - 3) = CHR ''.'' \<and> f ! (length f - 2) = CHR ''j'' \<and> f ! (length f - 1) = CHR ''s''))"

definition S_IFDIR :: nat where "S_IFDIR = 0x4000"
definition S_IFREG :: nat where "S_IFREG = 0x8000"

definition chdir :: "dirs \<Rightarrow> string \<Rightarrow> walk \<Rightarrow> walk" where
  "chdir D p w = (if chdir_ok D p then w\<lparr>cwd := p\<rparr> else w)"

definition path_join :: "string \<Rightarrow> string \<Rightarrow> string res" where
  "path_join p n = (let q = p @ ''/'' @ n in if length q < 260 then Inr q else Inl BufferOverflow)"

definition compress_entry :: "dirs \<Rightarrow> string \<Rightarrow> string \<Rightarrow> walk \<Rightarrow> walk exits" where
  "compress_entry D p n w = bindE (path_join p n) (\<lambda>q. bindE (isJS q) (\<lambda>js.
     if js then compressjs D q w else Inr (Inr w)))"

lemma path_join_longer: "path_join p n = Inr q \<Longrightarrow> length p < length q \<and> length q < 260"
  by (auto simp: path_join_def Let_def split: if_splits)

function findAllFile :: "dirs \<Rightarrow> string \<Rightarrow> walk \<Rightarrow> walk exits"
  and walk_entries :: "dirs \<Rightarrow> string \<Rightarrow> string list \<Rightarrow> walk \<Rightarrow> walk exits" where
  "findAllFile D p w = (let w = chdir D p w in
     case readdir_of D p of None \<Rightarrow> Inr (Inr w) | Some names \<Rightarrow> walk_entries D p names w)"
| "walk_entries D p [] w = Inr (Inr w)"
| "walk_entries D p (n # ns) w =
     (case mode_of D (cwd w @ ''/'' @ n) of
        None \<Rightarrow> walk_entries D p ns (w\<lparr>messages := messages w @ [''Get the stat error on file:'' @ n]\<rparr>)
      | Some m \<Rightarrow>
          bindX (if and m S_IFDIR \<noteq> 0 \<and> n \<noteq> ''.'' \<and> n \<noteq> ''..''
                 then (case path_join p n of Inl e \<Rightarrow> Inl e | Inr q \<Rightarrow> findAllFile D q w) else Inr (Inr w)) (\<lambda>w.
          bindX (if and m S_IFREG \<noteq> 0 then compress_entry D p n w else Inr (Inr w)) (\<lambda>w.
          walk_entries D p ns (chdir D p w))))"
  by pat_completeness auto
termination
  by (relation "inv_image (less_than <*lex*> less_than <*lex*> less_than)
      (case_sum (\<lambda>(D, p, w). (260 - length p, 1, 0)) (\<lambda>(D, p, ns, w). (260 - length p, 0, length ns)))")
     (auto dest!: path_join_longer)

definition compress :: "dirs \<Rightarrow> string \<Rightarrow> walk \<Rightarrow> walk exits" where
  "compress D d w = bindX (findAllFile D d w) (\<lambda>w. Inr (Inr (w\<lparr>messages := messages w @ [''js files minify complete'']\<rparr>)))"

section \<open>Properties\<close>

text \<open>C7. Minifying a file keeps the program: when its text can be scanned (comments and string
  literals are closed) and has no slash outside comments and strings, the file is rewritten without
  an error to a text with the same tokens, string literals included; the scratch file is gone, no
  other file changed, and the minifier is ready for the next file.\<close>

theorem compressjs_keeps_tokens:
  assumes "files w f = Some bs" "temp_ok D" "f \<noteq> cwd w @ ''/temp''" "look_ahead (mins w) = EOF"
    and "units (text_of (skip_bom bs)) = Some us" "[SLASH] \<notin> set us"
  shows "\<exists>w' out us'. compressjs D f w = Inr (Inr w') \<and> files w' = (files w)(f \<mapsto> out, cwd w @ ''/temp'' := None) \<and>
    units (text_of out) = Some us' \<and> toks us' = toks us \<and> look_ahead (mins w') = EOF"
proof -
  let ?s = "(mins w)\<lparr>fp := bs, outfp := []\<rparr>"
  obtain s us' where s: "jsmin ?s = Inr s" "look_ahead s = EOF" "units (text_of (outfp s)) = Some us'" "toks us' = toks us"
    using jsmin_keeps_tokens [of ?s us] assms(4-6) by auto
  then show ?thesis using assms(1-3) by (auto simp: compressjs_def Let_def fun_eq_iff)
qed

definition bytes_of :: "string \<Rightarrow> 8 word list" where
  "bytes_of cs = map of_char cs"

definition walk_world :: walk where
  "walk_world = \<lparr>cwd = ''/d'', files = [''/d/a.js'' \<mapsto> bytes_of ''var a  = 'x  y'; /* b */ c''],
     mins = \<lparr>fp = [], outfp = [], the_a = 0, the_b = 0, look_ahead = EOF, the_x = EOF, the_y = EOF\<rparr>, messages = []\<rparr>"

definition plain_dirs :: dirs where
  "plain_dirs = \<lparr>readdir_of = [''/d'' \<mapsto> [''.'', ''a.js'']], mode_of = [''/d/.'' \<mapsto> 0x4000, ''/d/a.js'' \<mapsto> 0x8000],
     chdir_ok = (\<lambda>_. True), temp_ok = True\<rparr>"

theorem compressjs_keeps_tokens_witness:
  "\<exists>w' out us'. compressjs plain_dirs ''/d/a.js'' walk_world = Inr (Inr w') \<and> files w' ''/d/a.js'' = Some out \<and>
     units (text_of out) = Some us' \<and>
     toks us' = map (map of_char) [''var'', ''a'', ''='', [CHR 0x27] @ ''x  y'' @ [CHR 0x27], '';'', ''c'']"
proof -
  let ?bs = "bytes_of ''var a  = 'x  y'; /* b */ c''"
  obtain us where us: "units (text_of (skip_bom ?bs)) = Some us" "[SLASH] \<notin> set us"
    "toks us = map (map of_char) [''var'', ''a'', ''='', [CHR 0x27] @ ''x  y'' @ [CHR 0x27], '';'', ''c'']"
    by (simp add: bytes_of_def skip_bom_def text_of_def norm_def units.simps is_quote_def
        white_def wordy_def is_alphanum_def chr_def)
  have "files walk_world ''/d/a.js'' = Some ?bs" "temp_ok plain_dirs" "''/d/a.js'' \<noteq> cwd walk_world @ ''/temp''"
    "look_ahead (mins walk_world) = EOF" by (simp_all add: walk_world_def plain_dirs_def)
  from compressjs_keeps_tokens [OF this us(1,2)] show ?thesis using us(3) by (auto simp: walk_world_def)
qed

lemma bindX_Inr: "bindX m f = Inr (Inr y) \<longleftrightarrow> (\<exists>x. m = Inr (Inr x) \<and> f x = Inr (Inr y))"
  by (cases m) (auto simp: bindX_def split: sum.splits)

definition js_name :: "string \<Rightarrow> bool" where
  "js_name q \<longleftrightarrow> (\<exists>p. q = p @ ''.js'')"

definition temp_name :: "string \<Rightarrow> bool" where
  "temp_name q \<longleftrightarrow> (\<exists>p. q = p @ ''/temp'')"

lemma isJS_name: "isJS q = Inr True \<Longrightarrow> js_name q"
proof -
  assume a: "isJS q = Inr True"
  then have l: "3 \<le> length q" by (auto simp: isJS_def split: if_splits)
  obtain q1 z where z: "q = q1 @ [z]" using l by (cases q rule: rev_cases) auto
  obtain q2 y where y: "q1 = q2 @ [y]" using l z by (cases q1 rule: rev_cases) auto
  obtain q3 x where x: "q2 = q3 @ [x]" using l z y by (cases q2 rule: rev_cases) auto
  have "q = q3 @ [x, y, z]" using x y z by simp
  then show ?thesis using a by (simp add: isJS_def js_name_def nth_append)
qed

lemma compress_entry_frame:
  assumes "compress_entry D p n w = Inr (Inr w')" "\<not> js_name q" "\<not> temp_name q"
  shows "files w' q = files w q"
  using assms by (auto simp: compress_entry_def compressjs_def temp_name_def Let_def
      split: if_splits option.splits sum.splits dest!: isJS_name)


text \<open>C28. Minifying a directory tree touches nothing but scripts: whatever the tree looks like, every
  file whose name does not end in \<open>.js\<close> keeps its contents, except a file called \<open>temp\<close>,
  whose name the scratch file takes.\<close>

theorem minify_touches_scripts_only:
  assumes "compress D d w = Inr (Inr w')" "\<not> js_name q" "\<not> temp_name q"
  shows "files w' q = files w q"
proof -
  have keep: "findAllFile D p v = Inr (Inr v') \<Longrightarrow> files v' q = files v q"
    "walk_entries D p ns v = Inr (Inr v') \<Longrightarrow> files v' q = files v q" for p v v' ns
  proof (induction D p v and D p ns v arbitrary: v' and v' rule: findAllFile_walk_entries.induct)
    case (1 D p w)
    then show ?case by (auto simp: chdir_def Let_def split: option.splits)
  next
    case (3 D p n ns w)
    show ?case
    proof (cases "mode_of D (cwd w @ ''/'' @ n)")
      case None
      then show ?thesis using "3.IH"(1) [OF None] "3.prems" by simp
    next
      case (Some m)
      let ?dir = "if and m S_IFDIR \<noteq> 0 \<and> n \<noteq> ''.'' \<and> n \<noteq> ''..''
        then (case path_join p n of Inl e \<Rightarrow> Inl e | Inr q \<Rightarrow> findAllFile D q w) else Inr (Inr w)"
      obtain w1 w2 where w: "?dir = Inr (Inr w1)"
        "(if and m S_IFREG \<noteq> 0 then compress_entry D p n w1 else Inr (Inr w1)) = Inr (Inr w2)"
        "walk_entries D p ns (chdir D p w2) = Inr (Inr v')"
        using "3.prems" Some by (auto simp only: walk_entries.simps option.case bindX_Inr)
      have "files w1 q = files w q" using w(1) "3.IH"(2) [OF Some] by (auto split: if_splits sum.splits)
      moreover have "files w2 q = files w1 q" using w(2) compress_entry_frame assms(2,3) by (auto split: if_splits)
      moreover have "files v' q = files w2 q" using "3.IH"(3) [OF Some w(3)] by (simp add: chdir_def)
      ultimately show ?thesis by simp
    qed
  qed simp
  then show ?thesis using assms(1) by (auto simp: compress_def bindX_Inr)
qed

definition tree_world :: walk where
  "tree_world = walk_world\<lparr>files := [''/d/a.js'' \<mapsto> bytes_of ''a'', ''/d/b.ts'' \<mapsto> bytes_of ''b  c'']\<rparr>"

definition tree_dirs :: dirs where
  "tree_dirs = plain_dirs\<lparr>readdir_of := [''/d'' \<mapsto> [''.'', ''a.js'', ''b.ts'']],
     mode_of := [''/d/.'' \<mapsto> 0x4000, ''/d/a.js'' \<mapsto> 0x8000, ''/d/b.ts'' \<mapsto> 0x8000]\<rparr>"

lemma tree_compressed: "\<exists>w'. compress tree_dirs ''/d'' tree_world = Inr (Inr w')"
proof -
  let ?s = "\<lparr>fp = [97], outfp = [], the_a = 0, the_b = 0, look_ahead = EOF, the_x = EOF, the_y = EOF\<rparr>"
  have "units (text_of (skip_bom (fp ?s))) = Some [[97]]"
    by (simp add: skip_bom_def text_of_def norm_def units.simps is_quote_def)
  then obtain s where "jsmin ?s = Inr s" using jsmin_keeps_tokens [of ?s "[[97]]"] by auto
  then show ?thesis
    by (simp add: compress_def findAllFile.simps walk_entries.simps tree_dirs_def tree_world_def plain_dirs_def
        walk_world_def bytes_of_def chdir_def compress_entry_def path_join_def isJS_def compressjs_def bindX_def
        S_IFDIR_def S_IFREG_def Let_def)
qed

theorem minify_touches_scripts_only_witness:
  "\<exists>w'. compress tree_dirs ''/d'' tree_world = Inr (Inr w') \<and> files w' ''/d/b.ts'' = Some (bytes_of ''b  c'')"
proof -
  obtain w' where w': "compress tree_dirs ''/d'' tree_world = Inr (Inr w')" using tree_compressed by blast
  have "\<not> js_name ''/d/b.ts''" "\<not> temp_name ''/d/b.ts''"
    by (auto simp: js_name_def temp_name_def dest: arg_cong [where f = last])
  from minify_touches_scripts_only [OF w' this] show ?thesis using w' by (simp add: tree_world_def walk_world_def)
qed

end
