(* ===== verification/Slots.thy ===== *)
theory Slots
  imports Utils
begin

text \<open>
  Promises kept inside a structure: streams, UDP sockets and processes embed IJJSPromise
  fields that are either idle or hold one pending promise. This theory has the ownership
  invariant of such a slot and what the promise operations do to it, also beside other
  slots of the same structure.
\<close>

section \<open>The references of a slot\<close>

definition pr_held :: "IJJSPromise \<Rightarrow> jsval list" where
  "pr_held pr = (if pr_valid pr
     then [pr_rfuncs0 pr, pr_rfuncs1 pr, pr_rfuncs0 pr, pr_rfuncs1 pr, pr_p pr] else [])"

definition idle_val :: "jsval \<Rightarrow> bool" where
  "idle_val v \<longleftrightarrow> v = JS_UNDEFINED \<or> v = JS_EXCEPTION"

definition slot_ok :: "IJJSPromise \<Rightarrow> 'z rt_scheme \<Rightarrow> bool" where
  "slot_ok pr w \<longleftrightarrow>
     (if pr_valid pr
      then (\<exists>p r0 r1. pr_p pr = JS_Ref p \<and> pr_rfuncs0 pr = JS_Ref r0 \<and> pr_rfuncs1 pr = JS_Ref r1 \<and>
              funs w p = NotFun \<and> funs w r0 = ResolveFun p \<and> funs w r1 = RejectFun p \<and>
              proms w p = Pending \<and> p < tick w \<and> r0 < tick w \<and> r1 < tick w)
      else idle_val (pr_p pr) \<and> idle_val (pr_rfuncs0 pr) \<and> idle_val (pr_rfuncs1 pr))"

lemma slot_ok_clear [simp]: "slot_ok (ijClearPromise pr) w" "pr_held (ijClearPromise pr) = []"
  by (simp_all add: slot_ok_def ijClearPromise_def idle_val_def pr_held_def)

lemma owns_prefix: "owns (xs @ ys) w \<Longrightarrow> owns xs w"
  by (rule owns_append)

lemma slot_live:
  assumes "slot_ok pr w" "pr_valid pr" "owns (pr_held pr) w"
  obtains p r0 r1 where "promise_live p r0 r1 pr w" "pr_held pr =
    [JS_Ref r0, JS_Ref r1, JS_Ref r0, JS_Ref r1, JS_Ref p]"
proof -
  obtain p r0 r1 where pr: "pr_p pr = JS_Ref p" "pr_rfuncs0 pr = JS_Ref r0"
    "pr_rfuncs1 pr = JS_Ref r1" "funs w p = NotFun" "funs w r0 = ResolveFun p"
    "funs w r1 = RejectFun p" "proms w p = Pending"
    using assms(1,2) by (auto simp: slot_ok_def)
  have d: "distinct [p, r0, r1]" using pr(4-6) by auto
  have h: "pr_held pr = [JS_Ref r0, JS_Ref r1, JS_Ref r0, JS_Ref r1, JS_Ref p]"
    using assms(2) pr by (simp add: pr_held_def)
  have "count_list (pr_held pr) (JS_Ref n) \<le> refs w n" for n
    using assms(3) by (simp add: owns_def)
  from this [of p] this [of r0] this [of r1] have "1 \<le> refs w p" "2 \<le> refs w r0" "2 \<le> refs w r1"
    using d by (auto simp: h)
  with pr d assms(2) have "promise_live p r0 r1 pr w" by (simp add: promise_live_def)
  then show thesis using h by (rule that)
qed

text \<open>Settling a slot gives back what it holds and touches no other promise.\<close>

lemma slot_settle:
  assumes "slot_ok pr w" "owns (pr_held pr) w" "v \<noteq> JS_JUNK" "\<forall>n. v \<noteq> JS_Ref n"
  shows "\<exists>pr' ps. ijSettlePromise E pr rej [v] w = Inr (pr',
      w\<lparr>refs := (\<lambda>n. refs w n - count_list (pr_held pr) (JS_Ref n)), proms := ps\<rparr>) \<and>
    (\<forall>n. pr_p pr \<noteq> JS_Ref n \<longrightarrow> ps n = proms w n) \<and>
    (\<forall>n. pr_valid pr \<longrightarrow> pr_p pr = JS_Ref n \<longrightarrow> ps n = settled_state rej v)"
proof (cases "pr_valid pr")
  case True
  obtain p r0 r1 where l: "promise_live p r0 r1 pr w"
    and h: "pr_held pr = [JS_Ref r0, JS_Ref r1, JS_Ref r0, JS_Ref r1, JS_Ref p]"
    by (rule slot_live [OF assms(1) True assms(2)])
  have "owned v 1 w" using assms(3,4) by (cases v) (auto simp: owned_def)
  from ijSettlePromise_live [OF l this, of E rej] assms(4)
  have s: "ijSettlePromise E pr rej [v] w = Inr (pr\<lparr>pr_valid := False\<rparr>,
      w\<lparr>refs := settled_refs p r0 r1 v (refs w),
        proms := (proms w)(p := settled_state rej v)\<rparr>)" by simp
  have "settled_refs p r0 r1 v (refs w) =
      (\<lambda>n. refs w n - count_list (pr_held pr) (JS_Ref n))"
    using l assms(4) unfolding h by (auto simp: settled_refs_def promise_live_def fun_eq_iff)
  with s l show ?thesis by (auto simp: promise_live_def)
next
  case False
  have "w = w\<lparr>refs := (\<lambda>n. refs w n - count_list (pr_held pr) (JS_Ref n)), proms := proms w\<rparr>"
    using False by (simp add: pr_held_def)
  then show ?thesis
    using False by (auto simp: ijSettlePromise_def intro!: exI [of _ "proms w"])
qed

text \<open>Freeing a slot, as the finalizers do, gives back one reference of each value it holds.\<close>

definition pr_once :: "IJJSPromise \<Rightarrow> jsval list" where
  "pr_once pr = (if pr_valid pr then [pr_rfuncs0 pr, pr_rfuncs1 pr, pr_p pr] else [])"

lemma ijFreePromise_forE:
  "ijFreePromiseRT pr w = bindE (forE JS_FreeValue [pr_rfuncs0 pr, pr_rfuncs1 pr, pr_p pr] w)
     (\<lambda>w. Inr (pr\<lparr>pr_valid := False\<rparr>, w))"
  by (simp add: ijFreePromiseRT_def bindE_assoc)

lemma pr_once_le: "count_list (pr_once pr) a \<le> count_list (pr_held pr) a"
  by (simp add: pr_once_def pr_held_def)

lemma pr_once_sub: "set (pr_once pr) = set (pr_held pr)"
  by (auto simp: pr_once_def pr_held_def)

lemma owns_pr_once: "owns (pr_held pr) w \<Longrightarrow> owns (pr_once pr) w"
  unfolding owns_def pr_once_sub using pr_once_le [of pr] le_trans by blast

lemma slot_free:
  assumes "slot_ok pr w" "owns (pr_held pr) w"
  shows "ijFreePromiseRT pr w = Inr (pr\<lparr>pr_valid := False\<rparr>,
    w\<lparr>refs := (\<lambda>n. refs w n - count_list (pr_once pr) (JS_Ref n))\<rparr>)"
proof (cases "pr_valid pr")
  case True
  then have "pr_once pr = [pr_rfuncs0 pr, pr_rfuncs1 pr, pr_p pr]" by (simp add: pr_once_def)
  with forE_free [OF owns_pr_once [OF assms(2)]] show ?thesis
    by (simp add: ijFreePromise_forE del: forE.simps)
next
  case False
  then show ?thesis
    using assms(1) by (auto simp: slot_ok_def idle_val_def ijFreePromiseRT_def pr_once_def)
qed

text \<open>Opening a slot: the new promise is younger than everything known so far.\<close>

lemma slot_init_cases:
  assumes "ijInitPromise pr w = (v, pr', w')"
  obtains (oom) "v = JS_EXCEPTION" "pr' = pr\<lparr>pr_p := JS_EXCEPTION\<rparr>"
      "w' = snd (JS_ThrowOutOfMemory (w\<lparr>tick := Suc (tick w)\<rparr>))"
  | (new) "v = JS_Ref (tick w)" "pr_valid pr'" "pr_p pr' = JS_Ref (tick w)"
      "pr_rfuncs0 pr' = JS_Ref (tick w + 1)" "pr_rfuncs1 pr' = JS_Ref (tick w + 2)"
      "w' = w\<lparr>tick := tick w + 3,
        refs := (refs w)(tick w := 2, tick w + 1 := 2, tick w + 2 := 2),
        proms := (proms w)(tick w := Pending),
        funs := (funs w)(tick w := NotFun, tick w + 1 := ResolveFun (tick w),
          tick w + 2 := RejectFun (tick w)),
        opaque := (opaque w)(tick w := (0, 0))\<rparr>"
proof (cases "oom w (tick w)")
  case True
  with assms show thesis
    by (intro oom) (auto simp: ijInitPromise_def JS_NewPromiseCapability_def Let_def)
next
  case False
  with assms show thesis
    by (intro new) (auto simp: ijInitPromise_live Let_def)
qed

lemma slot_init_ok:
  assumes "ijInitPromise pr w = (v, pr', w')" "slot_ok pr w" "\<not> pr_valid pr"
  shows "slot_ok pr' w' \<and> owns (pr_held pr') w'"
  using assms(1)
proof (cases rule: slot_init_cases)
  case oom
  then show ?thesis using assms(2,3) by (auto simp: slot_ok_def idle_val_def pr_held_def)
next
  case new
  then show ?thesis by (auto simp: slot_ok_def pr_held_def owns_def)
qed

section \<open>Two slots of one structure\<close>

definition pair_ok :: "IJJSPromise \<Rightarrow> IJJSPromise \<Rightarrow> 'z rt_scheme \<Rightarrow> bool" where
  "pair_ok a b w \<longleftrightarrow> slot_ok a w \<and> slot_ok b w \<and> owns (pr_held a @ pr_held b) w \<and>
     (pr_valid a \<and> pr_valid b \<longrightarrow> pr_p a \<noteq> pr_p b)"

lemma owns_swap: "owns (xs @ ys) w \<longleftrightarrow> owns (ys @ xs) w"
  by (auto simp: owns_def count_list_append add.commute)

lemma pair_sym: "pair_ok a b w \<longleftrightarrow> pair_ok b a w"
  unfolding pair_ok_def using owns_swap [of "pr_held a" "pr_held b" w] by auto

lemma slot_frame:
  "slot_ok a w \<Longrightarrow> funs w' = funs w \<Longrightarrow> proms w' = proms w \<Longrightarrow> tick w \<le> tick w' \<Longrightarrow> slot_ok a w'"
  by (auto simp: slot_ok_def split: if_splits)

lemma pair_frame:
  assumes "pair_ok a b w" "refs w' = refs w" "funs w' = funs w" "proms w' = proms w"
    "tick w \<le> tick w'"
  shows "pair_ok a b w'"
  using assms(1) slot_frame [OF _ assms(3-5)] owns_cong [OF assms(2)]
  unfolding pair_ok_def by blast

lemma pair_settle:
  assumes "pair_ok a b w" "v \<noteq> JS_JUNK" "\<forall>n. v \<noteq> JS_Ref n"
  shows "\<exists>a' rs ps. ijSettlePromise E a rej [v] w = Inr (a', w\<lparr>refs := rs, proms := ps\<rparr>) \<and>
    pair_ok (ijClearPromise a') b (w\<lparr>refs := rs, proms := ps\<rparr>) \<and>
    (pr_valid a \<longrightarrow> (\<exists>n. pr_p a = JS_Ref n \<and> ps n = settled_state rej v))"
proof -
  have a: "slot_ok a w" "owns (pr_held a) w" and ab: "owns (pr_held a @ pr_held b) w"
    using assms(1) owns_prefix unfolding pair_ok_def by blast+
  let ?rs = "\<lambda>n. refs w n - count_list (pr_held a) (JS_Ref n)"
  obtain a' ps where s: "ijSettlePromise E a rej [v] w = Inr (a', w\<lparr>refs := ?rs, proms := ps\<rparr>)"
    "\<forall>n. pr_p a \<noteq> JS_Ref n \<longrightarrow> ps n = proms w n"
    "\<forall>n. pr_valid a \<longrightarrow> pr_p a = JS_Ref n \<longrightarrow> ps n = settled_state rej v"
    using slot_settle [OF a assms(2,3), of E rej] by blast
  have "owns (pr_held b) (w\<lparr>refs := ?rs, proms := ps\<rparr>)"
    using owns_append(2) [OF ab] by (simp add: owns_def)
  moreover have "slot_ok b (w\<lparr>refs := ?rs, proms := ps\<rparr>)"
  proof (cases "pr_valid b")
    case True
    then obtain p where "pr_p b = JS_Ref p" using assms(1) by (auto simp: pair_ok_def slot_ok_def)
    moreover have "ps p = proms w p"
    proof (cases "pr_valid a")
      case False
      then have "idle_val (pr_p a)" using a(1) by (simp add: slot_ok_def)
      then show ?thesis using s(2) by (auto simp: idle_val_def)
    qed (use s(2) assms(1) True calculation in \<open>auto simp: pair_ok_def\<close>)
    ultimately show ?thesis
      using assms(1) True by (auto simp: pair_ok_def slot_ok_def)
  qed (use assms(1) in \<open>simp add: pair_ok_def slot_ok_def\<close>)
  ultimately have "pair_ok (ijClearPromise a') b (w\<lparr>refs := ?rs, proms := ps\<rparr>)"
    by (simp add: pair_ok_def) (simp add: ijClearPromise_def)
  moreover have "pr_valid a \<longrightarrow> (\<exists>n. pr_p a = JS_Ref n \<and> ps n = settled_state rej v)"
    using s(3) a(1) by (auto simp: slot_ok_def)
  ultimately show ?thesis using s(1) by blast
qed

text \<open>What opening a slot leaves alone.\<close>

definition init_frame :: "'z rt_scheme \<Rightarrow> 'z rt_scheme \<Rightarrow> bool" where
  "init_frame w w' \<longleftrightarrow> blk w' = blk w \<and> hnd w' = hnd w \<and> tick w \<le> tick w' \<and>
     rt.more w' = rt.more w \<and> (\<forall>n<tick w. refs w' n = refs w n \<and> funs w' n = funs w n \<and>
       proms w' n = proms w n \<and> opaque w' n = opaque w n)"

lemma init_frame_init: "ijInitPromise pr w = (v, pr', w') \<Longrightarrow> init_frame w w'"
  by (erule slot_init_cases) (auto simp: init_frame_def throw_defs)

lemma init_fresh: "init_frame w w' \<Longrightarrow> fresh_blk w \<Longrightarrow> fresh_blk w'"
  by (auto simp: init_frame_def fresh_blk_def)

lemma slot_ids: "slot_ok b w \<Longrightarrow> JS_Ref n \<in> set (pr_held b) \<Longrightarrow> n < tick w"
  by (auto simp: slot_ok_def pr_held_def split: if_splits)

lemma slot_init_frame: "slot_ok b w \<Longrightarrow> init_frame w w' \<Longrightarrow> slot_ok b w'"
  by (auto simp: slot_ok_def init_frame_def split: if_splits)

lemma count_zero: "(JS_Ref n \<notin> set xs) \<Longrightarrow> count_list xs (JS_Ref n) = 0"
  by simp

lemma pair_init:
  assumes "pair_ok a b w" "\<not> pr_valid a" "ijInitPromise a w = (v, a', w')"
  shows "pair_ok a' b w'"
proof -
  have f: "init_frame w w'" by (rule init_frame_init [OF assms(3)])
  have b: "slot_ok b w" "owns (pr_held b) w"
    using assms(1,2) by (simp_all add: pair_ok_def pr_held_def)
  note a' = slot_init_ok [OF assms(3) _ assms(2)]
  have "count_list (pr_held a') (JS_Ref n) + count_list (pr_held b) (JS_Ref n) \<le> refs w' n" for n
  proof (cases "n < tick w")
    case True
    have "count_list (pr_held a') (JS_Ref n) = 0"
      using assms(3) by (rule slot_init_cases) (use True assms(2) in \<open>auto simp: pr_held_def\<close>)
    moreover have "count_list (pr_held b) (JS_Ref n) \<le> refs w n" using b(2) by (simp add: owns_def)
    ultimately show ?thesis using f True by (simp add: init_frame_def)
  next
    case False
    then have "JS_Ref n \<notin> set (pr_held b)" using slot_ids [OF b(1)] by blast
    moreover have "count_list (pr_held a') (JS_Ref n) \<le> refs w' n"
      using a' assms(1) by (simp add: pair_ok_def owns_def)
    ultimately show ?thesis by simp
  qed
  moreover have "pr_valid a' \<longrightarrow> pr_valid b \<longrightarrow> pr_p a' \<noteq> pr_p b"
    using assms(3) by (rule slot_init_cases)
      (use b(1) assms(2) in \<open>auto simp: slot_ok_def\<close>)
  moreover have "JS_JUNK \<notin> set (pr_held a' @ pr_held b)"
    using a' assms(1) b(2) by (simp add: pair_ok_def owns_def)
  ultimately show ?thesis
    using a' assms(1) slot_init_frame [OF b(1) f]
    by (simp add: pair_ok_def owns_def count_list_append)
qed

lemma pair_free:
  assumes "pair_ok a b w"
  shows "\<exists>rs. ijFreePromiseRT a w = Inr (a\<lparr>pr_valid := False\<rparr>, w\<lparr>refs := rs\<rparr>) \<and>
    slot_ok b (w\<lparr>refs := rs\<rparr>) \<and> owns (pr_held b) (w\<lparr>refs := rs\<rparr>)"
proof -
  have a: "slot_ok a w" "owns (pr_held a) w" and ab: "owns (pr_held a @ pr_held b) w"
    using assms owns_prefix unfolding pair_ok_def by blast+
  have "count_list (pr_held b) (JS_Ref n) \<le> refs w n - count_list (pr_once a) (JS_Ref n)" for n
  proof -
    have "count_list (pr_held a) (JS_Ref n) + count_list (pr_held b) (JS_Ref n) \<le> refs w n"
      using ab by (simp add: owns_def count_list_append)
    then show ?thesis using pr_once_le [of a "JS_Ref n"] by linarith
  qed
  then show ?thesis
    using slot_free [OF a] assms by (auto simp: pair_ok_def owns_def slot_ok_def)
qed

section \<open>Steps that only allocate\<close>

text \<open>
  Creating errors, buffers and strings, and releasing blocks created meanwhile, leaves every
  older block, handle, reference and promise alone.
\<close>

definition alloc_frame :: "'z rt_scheme \<Rightarrow> 'z rt_scheme \<Rightarrow> bool" where
  "alloc_frame w w' \<longleftrightarrow> refs w' = refs w \<and> funs w' = funs w \<and> proms w' = proms w \<and>
     opaque w' = opaque w \<and> rt.more w' = rt.more w \<and> tick w \<le> tick w' \<and>
     (\<forall>q\<le>tick w. blk w' q = blk w q \<and> hnd w' q = hnd w q) \<and>
     (fresh_blk w \<longrightarrow> fresh_blk w')"

lemma af_refl [simp]: "alloc_frame w w"
  by (simp add: alloc_frame_def)

lemma af_trans: "alloc_frame w1 w2 \<Longrightarrow> alloc_frame w2 w3 \<Longrightarrow> alloc_frame w1 w3"
  by (auto simp: alloc_frame_def)

lemma af_newError: "ijNewError E e w = (v, w') \<Longrightarrow> alloc_frame w w' \<and> v \<noteq> JS_JUNK \<and> (\<forall>n. v \<noteq> JS_Ref n)"
  by (auto simp: ijNewError_def JS_NewError_def throw_defs alloc_frame_def fresh_blk_def Let_def
      split: if_splits)

lemma af_throwErrno: "ijThrowErrno E e w = (v, w') \<Longrightarrow> alloc_frame w w' \<and> v = JS_EXCEPTION"
  by (auto simp: ijThrowErrno_def ijNewError_def JS_NewError_def throw_defs alloc_frame_def
      fresh_blk_def Let_def split: if_splits)

lemma af_toIndex: "JS_ToIndex E x w = (v, w') \<Longrightarrow> alloc_frame w w'"
  by (auto simp: JS_ToIndex_def throw_defs alloc_frame_def fresh_blk_def split: option.splits)

lemma af_malloc:
  "js_malloc w = (q, w') \<Longrightarrow> alloc_frame w w' \<and>
     (q \<noteq> 0 \<longrightarrow> tick w < q \<and> q \<le> tick w' \<and> blk w' q = JsBlock \<and> hnd w' q = (\<lambda>_. HNone))"
  by (auto simp: js_malloc_def throw_defs alloc_frame_def fresh_blk_def split: if_splits)

lemma af_upd_young:
  assumes "alloc_frame w w1" "tick w < q" "q \<le> tick w1"
  shows "alloc_frame w (w1\<lparr>blk := (blk w1)(q := k)\<rparr>)"
  using assms by (auto simp: alloc_frame_def fresh_blk_def)

lemma af_free_young:
  assumes "alloc_frame w w1" "tick w < q" "q \<le> tick w1" "blk w1 q = k" "k \<noteq> NoBlock"
    "hnd w1 q = (\<lambda>_. HNone)"
  shows "\<exists>w2. free_block k q w1 = Inr w2 \<and> alloc_frame w w2"
  using af_upd_young [OF assms(1-3), of NoBlock] assms(2-)
  by (simp add: free_block_def handles_quiet_def)

lemma af_newUint8Array:
  assumes "alloc_frame w w1" "tick w < q" "q \<le> tick w1" "blk w1 q = JsBlock"
    "hnd w1 q = (\<lambda>_. HNone)"
  shows "\<exists>v w2. ijNewUint8Array q d w1 = Inr (v, w2) \<and> alloc_frame w w2 \<and> v \<noteq> JS_JUNK \<and>
    (\<forall>n. v \<noteq> JS_Ref n)"
proof -
  have t: "alloc_frame w (x\<lparr>tick := Suc (tick x), exn := e\<rparr>)" if "alloc_frame w x" for x e
    using that by (auto simp: alloc_frame_def fresh_blk_def)
  have t': "alloc_frame w (x\<lparr>tick := Suc (tick x)\<rparr>)" if "alloc_frame w x" for x
    using that by (auto simp: alloc_frame_def fresh_blk_def)
  note u = t [OF assms(1)] t' [OF assms(1)]
  have e: "alloc_frame w (w1\<lparr>tick := Suc (tick w1), blk := (blk w1)(q := k)\<rparr>)" for k
    using af_upd_young [OF u(2) assms(2), of k] assms(3) by simp
  show ?thesis
    using u assms e [of EngineOwned] e [of NoBlock] t' [OF e [of EngineOwned]]
      t [OF e [of NoBlock]]
    by (auto simp: ijNewUint8Array_def JS_NewArrayBuffer_def ijBufFree_def free_block_def
        handles_quiet_def throw_defs)
qed

lemma pair_alloc: "alloc_frame w w' \<Longrightarrow> pair_ok a b w \<Longrightarrow> pair_ok a b w'"
  by (rule pair_frame [of a b w]) (auto simp: alloc_frame_def)

section \<open>A slot beside other owned values\<close>

definition beside_ok :: "IJJSPromise \<Rightarrow> jsval list \<Rightarrow> 'z rt_scheme \<Rightarrow> bool" where
  "beside_ok pr vs w \<longleftrightarrow> slot_ok pr w \<and> owns (pr_held pr @ vs) w \<and>
     (\<forall>n. JS_Ref n \<in> set vs \<longrightarrow> n < tick w)"

lemma owns_suffix: "owns (xs @ ys) w \<Longrightarrow> owns ys w"
  using owns_swap [of xs ys w] owns_prefix by blast

lemma beside_frame:
  assumes "beside_ok pr vs w" "refs w' = refs w" "funs w' = funs w" "proms w' = proms w"
    "tick w \<le> tick w'"
  shows "beside_ok pr vs w'"
  using assms(1,5) slot_frame [OF _ assms(3-5)] owns_cong [OF assms(2)]
  unfolding beside_ok_def by fastforce

lemma beside_alloc: "alloc_frame w w' \<Longrightarrow> beside_ok pr vs w \<Longrightarrow> beside_ok pr vs w'"
  by (rule beside_frame [of pr vs w]) (auto simp: alloc_frame_def)

lemma beside_settle:
  assumes "beside_ok pr vs w" "v \<noteq> JS_JUNK" "\<forall>n. v \<noteq> JS_Ref n"
  shows "\<exists>pr' rs ps. ijSettlePromise E pr rej [v] w = Inr (pr', w\<lparr>refs := rs, proms := ps\<rparr>) \<and>
    beside_ok (ijClearPromise pr') vs (w\<lparr>refs := rs, proms := ps\<rparr>) \<and>
    (pr_valid pr \<longrightarrow> (\<exists>n. pr_p pr = JS_Ref n \<and> ps n = settled_state rej v)) \<and>
    (\<forall>n. pr_p pr \<noteq> JS_Ref n \<longrightarrow> ps n = proms w n)"
proof -
  have a: "slot_ok pr w" "owns (pr_held pr) w" "owns (pr_held pr @ vs) w"
    using assms(1) owns_prefix unfolding beside_ok_def by blast+
  let ?rs = "\<lambda>n. refs w n - count_list (pr_held pr) (JS_Ref n)"
  obtain pr' ps where s: "ijSettlePromise E pr rej [v] w = Inr (pr', w\<lparr>refs := ?rs, proms := ps\<rparr>)"
    "\<forall>n. pr_valid pr \<longrightarrow> pr_p pr = JS_Ref n \<longrightarrow> ps n = settled_state rej v"
    "\<forall>n. pr_p pr \<noteq> JS_Ref n \<longrightarrow> ps n = proms w n"
    using slot_settle [OF a(1,2) assms(2,3), of E rej] by blast
  have "owns vs (w\<lparr>refs := ?rs, proms := ps\<rparr>)"
    using owns_append(2) [OF a(3)] by (simp add: owns_def)
  then have "beside_ok (ijClearPromise pr') vs (w\<lparr>refs := ?rs, proms := ps\<rparr>)"
    using assms(1) by (simp add: beside_ok_def)
  moreover have "pr_valid pr \<longrightarrow> (\<exists>n. pr_p pr = JS_Ref n \<and> ps n = settled_state rej v)"
    using s(2) a(1) by (auto simp: slot_ok_def)
  ultimately show ?thesis using s(1,3) by blast
qed

lemma beside_init:
  assumes "beside_ok pr vs w" "\<not> oom w (tick w)" "ijInitPromise pr w = (v, pr', w')"
  shows "beside_ok pr' vs w'"
  using assms(3)
proof (cases rule: slot_init_cases)
  case oom
  then show ?thesis
    using assms(2,3) by (auto simp: ijInitPromise_live [OF assms(2)] Let_def)
next
  case new
  have vs: "owns vs w" "\<forall>n. JS_Ref n \<in> set vs \<longrightarrow> n < tick w"
    using assms(1) owns_suffix unfolding beside_ok_def by blast+
  have "count_list (pr_held pr') (JS_Ref n) + count_list vs (JS_Ref n) \<le> refs w' n" for n
  proof (cases "n < tick w")
    case True
    then show ?thesis using new vs(1) by (simp add: pr_held_def owns_def)
  next
    case False
    then have "count_list vs (JS_Ref n) = 0" using vs(2) by (intro count_zero) auto
    then show ?thesis using new by (auto simp: pr_held_def)
  qed
  moreover have "JS_JUNK \<notin> set (pr_held pr' @ vs)" using new vs(1) by (auto simp: pr_held_def owns_def)
  moreover have "slot_ok pr' w'" using new by (auto simp: slot_ok_def)
  ultimately show ?thesis using vs(2) new by (auto simp: beside_ok_def owns_def count_list_append)
qed

lemma beside_free:
  assumes "beside_ok pr vs w"
  shows "\<exists>rs. ijFreePromiseRT pr w = Inr (pr\<lparr>pr_valid := False\<rparr>, w\<lparr>refs := rs\<rparr>) \<and>
    owns vs (w\<lparr>refs := rs\<rparr>)"
proof -
  have a: "slot_ok pr w" "owns (pr_held pr) w" "owns (pr_held pr @ vs) w"
    using assms owns_prefix unfolding beside_ok_def by blast+
  have "count_list vs (JS_Ref n) \<le> refs w n - count_list (pr_once pr) (JS_Ref n)" for n
  proof -
    have "count_list (pr_held pr) (JS_Ref n) + count_list vs (JS_Ref n) \<le> refs w n"
      using a(3) by (simp add: owns_def count_list_append)
    then show ?thesis using pr_once_le [of pr "JS_Ref n"] by linarith
  qed
  then show ?thesis using slot_free [OF a(1,2)] a(3) by (auto simp: owns_def)
qed

end
