(* ===== verification/Misc.thy ===== *)
theory Misc
  imports Vm Slots "HOL-Library.AList"
begin

text \<open>
  ijmisc.c and ijversion.c: clock, system names, environment variables, well-known directories,
  printing and random bytes.
\<close>

section \<open>Data\<close>

text \<open>
  The process environment, what was printed, and where random bytes were written: offset and
  length in a buffer of a given size.
\<close>

record misc_rt = vm_rt +
  env_vars :: "(string \<times> string) list"
  out :: string
  err_out :: string
  randomized :: "(int \<times> int \<times> int) list"

text \<open>
  libuv's calls that fill a buffer get its size and answer with a code, the contents and a size:
  the length of the result, or the size needed with UV\_ENOBUFS.
\<close>

type_synonym strcall = "int \<Rightarrow> int \<times> string \<times> int"

datatype ijplatform = IJJS_PLATFORM_WIN32 | IJJS_PLATFORM_OSX | IJJS_PLATFORM_LINUX

record miscenv =
  uv_hrtime :: int
  uv_gettimeofday :: "int + int \<times> int"
  uv_os_uname :: "int + string \<times> string \<times> string \<times> string"
  uv_guess_tty :: "int \<Rightarrow> bool"
  uv_environ :: int
  uv_cwd :: strcall
  uv_homedir :: strcall
  uv_tmpdir :: strcall
  uv_exepath :: strcall
  uv_setenv :: "string \<Rightarrow> string \<Rightarrow> int"
  uv_unsetenv :: "string \<Rightarrow> int"
  uv_random :: "int \<Rightarrow> int"
  uv_ENOBUFS :: int
  uv_ENOENT :: int
  sys_const :: "string \<Rightarrow> int"
  ijplatform :: ijplatform
  script_args :: "string list"
  uv_version_string :: string
  curl_version :: string

text \<open>
  How uv\_cwd, uv\_os\_homedir, uv\_os\_tmpdir and uv\_os\_getenv serve such a call for a value
  \<open>s\<close>; a terminating NUL needs one byte more. uv\_exepath gives no such promise: on Linux it
  cuts a path that does not fit and reports success.
\<close>

definition serve_string :: "int \<Rightarrow> string \<Rightarrow> strcall" where
  "serve_string enobufs s n = (if int (length s) < n then (0, s, int (length s)) else (enobufs, [], int (length s) + 1))"

section \<open>Clock and names\<close>

definition ijHrTime :: "miscenv \<Rightarrow> jsval" where
  "ijHrTime I = JS_BigUint (wrap64 (uv_hrtime I))"

definition JS_NewInt64 :: "int \<Rightarrow> jsval" where
  "JS_NewInt64 i = JS_Int i"

definition ijGetTimeOfDay :: "jsenv \<Rightarrow> miscenv \<Rightarrow> 'z misc_rt_scheme \<Rightarrow> jsval \<times> 'z misc_rt_scheme" where
  "ijGetTimeOfDay E I w = (case uv_gettimeofday I of
     Inl r \<Rightarrow> ijThrowErrno E r w
   | Inr (tv_sec, tv_usec) \<Rightarrow> (JS_NewInt64 (tv_sec * 1000 + tv_usec div 1000), w))"

definition ijUname :: "jsenv \<Rightarrow> miscenv \<Rightarrow> 'z misc_rt_scheme \<Rightarrow> jsval \<times> 'z misc_rt_scheme" where
  "ijUname E I w = (case uv_os_uname I of
     Inl r \<Rightarrow> ijThrowErrno E r w
   | Inr (sysname, release, version, machine) \<Rightarrow>
       (JS_Object [(''sysname'', JS_Str sysname), (''release'', JS_Str release),
          (''version'', JS_Str version), (''machine'', JS_Str machine)], w))"

definition ijIsAtty :: "jsenv \<Rightarrow> miscenv \<Rightarrow> jsval list \<Rightarrow> 'z misc_rt_scheme \<Rightarrow> jsval \<times> 'z misc_rt_scheme" where
  "ijIsAtty E I argv w = (case JS_ToInt32 E (argn 0 argv) w of
     (None, w) \<Rightarrow> (JS_EXCEPTION, w)
   | (Some fd, w) \<Rightarrow> (JS_Bool (uv_guess_tty I fd), w))"

section \<open>Strings from the system\<close>

text \<open>
  The body that ijCwd, ijHomeDir, ijTmpDir, ijExePath and ijGetEnv share: first into a buffer of
  1024 bytes, then, when that is too small, into one of the size asked for.
\<close>

definition uv_string ::
    "jsenv \<Rightarrow> miscenv \<Rightarrow> strcall \<Rightarrow> 'z misc_rt_scheme \<Rightarrow> (jsval \<times> 'z misc_rt_scheme) res" where
  "uv_string E I call w = (case call 1024 of (r, s, sz) \<Rightarrow>
     if r = 0 then Inr (JS_Str (take (nat sz) s), w)
     else if r \<noteq> uv_ENOBUFS I then Inr (ijThrowErrno E r w)
     else case js_malloc w of (dbuf, w) \<Rightarrow>
       if dbuf = 0 then Inr (JS_EXCEPTION, w)
       else case call sz of (r, s, sz) \<Rightarrow>
         if r \<noteq> 0 then bindE (js_free dbuf w) (\<lambda>w. Inr (ijThrowErrno E r w))
         else bindE (js_free dbuf w) (\<lambda>w. Inr (JS_Str (take (nat sz) s), w)))"

definition ijCwd :: "jsenv \<Rightarrow> miscenv \<Rightarrow> 'z misc_rt_scheme \<Rightarrow> (jsval \<times> 'z misc_rt_scheme) res" where
  "ijCwd E I w = uv_string E I (uv_cwd I) w"

definition ijHomeDir :: "jsenv \<Rightarrow> miscenv \<Rightarrow> 'z misc_rt_scheme \<Rightarrow> (jsval \<times> 'z misc_rt_scheme) res" where
  "ijHomeDir E I w = uv_string E I (uv_homedir I) w"

definition ijTmpDir :: "jsenv \<Rightarrow> miscenv \<Rightarrow> 'z misc_rt_scheme \<Rightarrow> (jsval \<times> 'z misc_rt_scheme) res" where
  "ijTmpDir E I w = uv_string E I (uv_tmpdir I) w"

definition ijExePath :: "jsenv \<Rightarrow> miscenv \<Rightarrow> 'z misc_rt_scheme \<Rightarrow> (jsval \<times> 'z misc_rt_scheme) res" where
  "ijExePath E I w = uv_string E I (uv_exepath I) w"

section \<open>Environment variables\<close>

definition ijEnviron :: "jsenv \<Rightarrow> miscenv \<Rightarrow> 'z misc_rt_scheme \<Rightarrow> jsval \<times> 'z misc_rt_scheme" where
  "ijEnviron E I w =
     (if uv_environ I \<noteq> 0 then ijThrowErrno E (uv_environ I) w
      else (JS_Object (fold (\<lambda>(name, value). AList.update name (JS_Str value)) (env_vars w) []), w))"

definition uv_os_getenv :: "miscenv \<Rightarrow> string \<Rightarrow> 'z misc_rt_scheme \<Rightarrow> strcall" where
  "uv_os_getenv I name w n = (case map_of (env_vars w) name of
     None \<Rightarrow> (uv_ENOENT I, [], n) | Some v \<Rightarrow> serve_string (uv_ENOBUFS I) v n)"

text \<open>getenv is declared with no arguments and reads one.\<close>

definition ijGetEnv ::
    "jsenv \<Rightarrow> miscenv \<Rightarrow> jsval list \<Rightarrow> 'z misc_rt_scheme \<Rightarrow> (jsval \<times> 'z misc_rt_scheme) res" where
  "ijGetEnv E I argv w =
     bindE (readable_arg 0 0 argv) (\<lambda>arg.
     case JS_ToCString E arg w of (p, name, w) \<Rightarrow>
     if p = 0 then Inr (JS_EXCEPTION, w) else uv_string E I (uv_os_getenv I name w) w)"

definition ijSetEnv ::
    "jsenv \<Rightarrow> miscenv \<Rightarrow> jsval list \<Rightarrow> 'z misc_rt_scheme \<Rightarrow> jsval \<times> 'z misc_rt_scheme" where
  "ijSetEnv E I argv w = (case JS_ToCString E (argn 0 argv) w of (p, name, w) \<Rightarrow>
     if p = 0 then (JS_EXCEPTION, w)
     else case JS_ToCString E (argn 1 argv) w of (q, value, w) \<Rightarrow>
       if q = 0 then (JS_EXCEPTION, w)
       else if uv_setenv I name value \<noteq> 0 then ijThrowErrno E (uv_setenv I name value) w
       else (JS_UNDEFINED, w\<lparr>env_vars := AList.update name value (env_vars w)\<rparr>))"

definition ijUnsetEnv ::
    "jsenv \<Rightarrow> miscenv \<Rightarrow> jsval list \<Rightarrow> 'z misc_rt_scheme \<Rightarrow> jsval \<times> 'z misc_rt_scheme" where
  "ijUnsetEnv E I argv w = (case JS_ToCString E (argn 0 argv) w of (p, name, w) \<Rightarrow>
     if p = 0 then (JS_EXCEPTION, w)
     else if uv_unsetenv I name \<noteq> 0 then ijThrowErrno E (uv_unsetenv I name) w
     else (JS_UNDEFINED, w\<lparr>env_vars := AList.delete name (env_vars w)\<rparr>))"

section \<open>Printing and random bytes\<close>

definition put :: "int \<Rightarrow> string \<Rightarrow> 'z misc_rt_scheme \<Rightarrow> 'z misc_rt_scheme" where
  "put magic s w = (if magic = 0 then w\<lparr>out := out w @ s\<rparr> else w\<lparr>err_out := err_out w @ s\<rparr>)"

fun print_args ::
    "jsenv \<Rightarrow> int \<Rightarrow> bool \<Rightarrow> jsval list \<Rightarrow> 'z misc_rt_scheme \<Rightarrow> (bool \<times> 'z misc_rt_scheme) res" where
  "print_args E magic first [] w = Inr (True, w)"
| "print_args E magic first (v # vs) w =
     (let w = (if first then w else put magic '' '' w) in
      case JS_ToCString E v w of (p, str, w) \<Rightarrow>
      if p = 0 then Inr (False, w)
      else bindE (JS_FreeCString (p, 0) (put magic str w)) (print_args E magic False vs))"

definition ijPrint ::
    "jsenv \<Rightarrow> int \<Rightarrow> jsval list \<Rightarrow> 'z misc_rt_scheme \<Rightarrow> (jsval \<times> 'z misc_rt_scheme) res" where
  "ijPrint E magic argv w = bindE (print_args E magic True argv w) (\<lambda>(ok, w).
     if ok then Inr (JS_UNDEFINED, put magic [CHR 0x0A] w) else Inr (JS_EXCEPTION, w))"

definition opt_index ::
    "jsenv \<Rightarrow> int \<Rightarrow> jsval \<Rightarrow> 'z misc_rt_scheme \<Rightarrow> int option \<times> 'z misc_rt_scheme" where
  "opt_index E dflt v w = (if JS_IsUndefined v then (Some dflt, w) else JS_ToIndex E v w)"

text \<open>The sum of offset and length is computed in 64 bits; libuv then writes \<open>len\<close> bytes from
  \<open>off\<close> on.\<close>

definition ijRandom ::
    "jsenv \<Rightarrow> miscenv \<Rightarrow> jsval list \<Rightarrow> 'z misc_rt_scheme \<Rightarrow> (jsval \<times> 'z misc_rt_scheme) res" where
  "ijRandom E I argv w = (case argn 0 argv of
     JS_ArrayBuffer buf \<Rightarrow>
       let size = int (length buf) in
       (case opt_index E 0 (argn 1 argv) w of
          (None, w) \<Rightarrow> Inr (JS_EXCEPTION, w)
        | (Some off, w) \<Rightarrow>
          (case opt_index E size (argn 2 argv) w of
             (None, w) \<Rightarrow> Inr (JS_EXCEPTION, w)
           | (Some len, w) \<Rightarrow>
             if wrap64 (off + len) > size then Inr (JS_ThrowRangeError ''array buffer overflow'' w)
             else if off + len > size then Inl BufferOverflow
             else if uv_random I len \<noteq> 0 then Inr (ijThrowErrno E (uv_random I len) w)
             else Inr (JS_UNDEFINED, w\<lparr>randomized := randomized w @ [(off, len, size)]\<rparr>)))
   | _ \<Rightarrow> Inr (JS_ThrowTypeError ''not an ArrayBuffer'' w))"

section \<open>Constants of the module\<close>

definition ijVersion :: string where
  "ijVersion = ''2'' @ ''.'' @ ''2'' @ ''.'' @ ''0'' @ []"

definition QJS_VERSION_STR :: string where
  "QJS_VERSION_STR = ''20200705''"

fun IJJS_PLATFORM_STR :: "ijplatform \<Rightarrow> string" where
  "IJJS_PLATFORM_STR IJJS_PLATFORM_WIN32 = ''windows''"
| "IJJS_PLATFORM_STR IJJS_PLATFORM_OSX = ''Mac''"
| "IJJS_PLATFORM_STR IJJS_PLATFORM_LINUX = ''Linux''"

definition ijGetArgs :: "miscenv \<Rightarrow> jsval" where
  "ijGetArgs I = JS_Array (map JS_Str (script_args I))"

text \<open>An export is a value or a C function with the number of arguments it is declared with.\<close>

datatype export = Value jsval | CFunc nat

definition ijjs_misc_funcs :: "miscenv \<Rightarrow> (string \<times> export) list" where
  "ijjs_misc_funcs I =
     map (\<lambda>c. (c, Value (JS_NewInt32 (sys_const I c))))
       [''AF_INET'', ''AF_INET6'', ''AF_UNSPEC'', ''STDIN_FILENO'', ''STDOUT_FILENO'', ''STDERR_FILENO''] @
     [(''hrtime'', CFunc 0), (''gettimeofday'', CFunc 0), (''uname'', CFunc 0), (''isatty'', CFunc 1),
      (''environ'', CFunc 0), (''getenv'', CFunc 0), (''setenv'', CFunc 2), (''unsetenv'', CFunc 1),
      (''cwd'', CFunc 0), (''homedir'', CFunc 0), (''tmpdir'', CFunc 0), (''exepath'', CFunc 0),
      (''print'', CFunc 1), (''printError'', CFunc 1), (''alert'', CFunc 1), (''random'', CFunc 3)]"

definition ijModMiscInit :: "miscenv \<Rightarrow> (string \<times> export) list" where
  "ijModMiscInit I = ijjs_misc_funcs I @
     [(''args'', Value (ijGetArgs I)), (''platform'', Value (JS_Str (IJJS_PLATFORM_STR (ijplatform I)))),
      (''version'', Value (JS_Str ijVersion)),
      (''versions'', Value (JS_Object [(''quickjs'', JS_Str QJS_VERSION_STR), (''ijjs'', JS_Str ijVersion),
         (''uv'', JS_Str (uv_version_string I)), (''curl'', JS_Str (curl_version I))]))]"

definition ijModMiscExport :: "miscenv \<Rightarrow> string list" where
  "ijModMiscExport I = map fst (ijjs_misc_funcs I) @ [''args'', ''platform'', ''version'', ''versions'']"

text \<open>Initialisation sets exactly the names the module exports, each once.\<close>

lemma misc_exports_set: "map fst (ijModMiscInit I) = ijModMiscExport I \<and> distinct (ijModMiscExport I)"
  by (simp add: ijModMiscInit_def ijModMiscExport_def ijjs_misc_funcs_def)

section \<open>What the calls return\<close>

lemma uv_string_complete:
  assumes "uv_ENOBUFS I \<noteq> 0" "\<not> oom w (tick w)" "fresh_blk w"
  shows "\<exists>w'. uv_string E I (serve_string (uv_ENOBUFS I) s) w = Inr (JS_Str s, w') \<and> blk w' = blk w \<and>
    refs w' = refs w \<and> env_vars w' = env_vars w"
proof -
  have "(blk w)(Suc (tick w) := NoBlock) = blk w" using assms(3) by (auto simp: fresh_blk_def)
  then show ?thesis
    using assms(1,2)
    by (simp add: uv_string_def serve_string_def js_malloc_def js_free_def free_block_def handles_quiet_def)
qed

text \<open>A machine whose directories are longer than the first buffer, for the examples.\<close>

definition misc_world :: misc_rt where
  "misc_world = vm_rt.extend vm_world (misc_rt.fields [] [] [] [])"

definition plain_misc :: miscenv where
  "plain_misc =
     \<lparr>uv_hrtime = 1, uv_gettimeofday = Inr (1, 2000), uv_os_uname = Inr (''Linux'', [], [], []),
      uv_guess_tty = (\<lambda>fd. fd < 3), uv_environ = 0,
      uv_cwd = serve_string (- 105) (replicate 1500 CHR ''d''),
      uv_homedir = serve_string (- 105) ''/root'',
      uv_tmpdir = serve_string (- 105) ''/tmp'',
      uv_exepath = (\<lambda>n. (0, ''/ij'', 3)), uv_setenv = (\<lambda>k v. if k = [] then - 22 else 0),
      uv_unsetenv = (\<lambda>k. if k = [] then - 22 else 0), uv_random = (\<lambda>n. 0), uv_ENOBUFS = - 105,
      uv_ENOENT = - 2, sys_const = (\<lambda>_. 0), ijplatform = IJJS_PLATFORM_LINUX, script_args = [],
      uv_version_string = [], curl_version = []\<rparr>"

lemmas misc_world_defs = misc_world_def vm_world_defs misc_rt.defs

text \<open>The working, home and temporary directory come back complete, however long they are, and the
  buffer of the second attempt is given back.\<close>

theorem directories_complete:
  assumes "uv_ENOBUFS I \<noteq> 0" "\<not> oom w (tick w)" "fresh_blk w"
    and "uv_cwd I = serve_string (uv_ENOBUFS I) c" "uv_homedir I = serve_string (uv_ENOBUFS I) h" "uv_tmpdir I = serve_string (uv_ENOBUFS I) t"
  shows "\<forall>(call, s)\<in>set [(ijCwd E I, c), (ijHomeDir E I, h), (ijTmpDir E I, t)].
    \<exists>w'. call w = Inr (JS_Str s, w') \<and> blk w' = blk w"
proof -
  have "\<exists>w'. uv_string E I (serve_string (uv_ENOBUFS I) s) w = Inr (JS_Str s, w') \<and> blk w' = blk w" for s
    using uv_string_complete [OF assms(1-3), of E s] by blast
  then show ?thesis by (simp add: ijCwd_def ijHomeDir_def ijTmpDir_def assms(4-6))
qed

theorem directories_complete_witness:
  "\<exists>w'. ijCwd plain_env plain_misc misc_world = Inr (JS_Str (replicate 1500 CHR ''d''), w') \<and>
    blk w' = blk misc_world"
  using directories_complete [of plain_misc misc_world "replicate 1500 CHR ''d''" "''/root''" "''/tmp''" plain_env]
  by (simp add: plain_misc_def misc_world_defs fresh_blk_def)

text \<open>C34. Environment variables: a variable that was set reads back with its value, however long, and
  one that was unset is reported as missing. Every set and every read leaves the borrowed C
  strings behind.\<close>

theorem environment_roundtrip:
  assumes "uv_ENOBUFS I \<noteq> 0" "uv_ENOENT I \<noteq> 0" "uv_ENOENT I \<noteq> uv_ENOBUFS I" "\<forall>n. \<not> oom w n" "fresh_blk w"
    and "to_cstr E a = Some name" "to_cstr E b = Some value" "uv_setenv I name value = 0"
    and "uv_unsetenv I name = 0"
  shows "\<exists>w1 w2. ijSetEnv E I [a, b] w = (JS_UNDEFINED, w1) \<and>
    ijGetEnv E I [a] w1 = Inr (JS_Str value, w2) \<and>
    blk w2 = (blk w)(tick w + 1 := CString, tick w + 2 := CString, tick w + 3 := CString) \<and>
    (\<exists>w3 w4. ijUnsetEnv E I [a] w2 = (JS_UNDEFINED, w3) \<and> ijGetEnv E I [a] w3 = Inr (JS_EXCEPTION, w4))"
proof -
  let ?w1 = "snd (ijSetEnv E I [a, b] w)"
  have s: "ijSetEnv E I [a, b] w = (JS_UNDEFINED, ?w1)" "map_of (env_vars ?w1) name = Some value"
    "blk ?w1 = (blk w)(tick w + 1 := CString, tick w + 2 := CString)" "tick ?w1 = tick w + 2" "oom ?w1 = oom w"
    using assms(6-8)
    by (simp_all add: ijSetEnv_def JS_ToCString_def argn_def update_conv)
  let ?u = "snd (snd (JS_ToCString E a ?w1))"
  have u: "JS_ToCString E a ?w1 = (tick w + 3, name, ?u)" "env_vars ?u = env_vars ?w1"
    "blk ?u = (blk w)(tick w + 1 := CString, tick w + 2 := CString, tick w + 3 := CString)"
    "tick ?u = tick w + 3" "oom ?u = oom w"
    using assms(6) s(3-5) by (simp_all add: JS_ToCString_def numeral_3_eq_3)
  have "fresh_blk ?u" using assms(5) u(3,4) by (auto simp: fresh_blk_def)
  moreover have "uv_os_getenv I name ?u = serve_string (uv_ENOBUFS I) value" using s(2) u(2) by (auto simp: uv_os_getenv_def)
  moreover have "\<not> oom ?u (tick ?u)" using assms(4) u(5) by simp
  ultimately obtain w2 where w2: "uv_string E I (uv_os_getenv I name ?u) ?u = Inr (JS_Str value, w2)"
    "blk w2 = blk ?u" using uv_string_complete [of I ?u E "value"] assms(1) by auto
  have "fst (JS_ToCString E a ?w1) = tick w + 3" "fst (snd (JS_ToCString E a ?w1)) = name"
    by (metis u(1) fst_conv, metis u(1) fst_conv snd_conv)
  then have g: "ijGetEnv E I [a] ?w1 = Inr (JS_Str value, w2)"
    using w2(1) by (simp add: ijGetEnv_def readable_arg_def argn_def split_def)
  let ?w3 = "snd (ijUnsetEnv E I [a] w2)"
  have d: "ijUnsetEnv E I [a] w2 = (JS_UNDEFINED, ?w3)" "map_of (env_vars ?w3) name = None"
    using assms(6,9) by (simp_all add: ijUnsetEnv_def JS_ToCString_def argn_def delete_conv)
  have "\<exists>w4. ijGetEnv E I [a] ?w3 = Inr (JS_EXCEPTION, w4)"
    using assms(2,3,6) d(2)
    by (simp add: ijGetEnv_def readable_arg_def argn_def JS_ToCString_def uv_string_def uv_os_getenv_def
        ijThrowErrno_def JS_Throw_def split_def Let_def)
  then show ?thesis using s(1) g w2(2) u(3) d(1) by auto
qed

theorem environment_roundtrip_witness:
  "\<exists>w1 w2. ijSetEnv plain_env plain_misc [JS_Str ''K'', JS_Str ''v''] misc_world = (JS_UNDEFINED, w1) \<and>
    ijGetEnv plain_env plain_misc [JS_Str ''K''] w1 = Inr (JS_Str ''v'', w2)"
proof -
  have "uv_ENOBUFS plain_misc \<noteq> 0" "uv_ENOENT plain_misc \<noteq> 0" "uv_ENOENT plain_misc \<noteq> uv_ENOBUFS plain_misc"
    "\<forall>n. \<not> oom misc_world n" "fresh_blk misc_world" "to_cstr plain_env (JS_Str ''K'') = Some ''K''"
    "to_cstr plain_env (JS_Str ''v'') = Some ''v''" "uv_setenv plain_misc ''K'' ''v'' = 0"
    "uv_unsetenv plain_misc ''K'' = 0"
    by (simp_all add: plain_misc_def misc_world_defs fresh_blk_def plain_env_def)
  from environment_roundtrip [OF this] show ?thesis by blast
qed

text \<open>C35. Random bytes stay inside the buffer: whatever offset and length are asked for, the bytes are
  written within the buffer's bounds or the call throws. The check adds in 64 bits, and the
  conversions bound both operands so that the sum cannot wrap.\<close>

theorem random_in_bounds:
  assumes "jsenv_ok E" "length buf < 2 ^ 53"
  shows "\<exists>v w'. ijRandom E I (JS_ArrayBuffer buf # args) w = Inr (v, w') \<and>
    (\<forall>off len size. (off, len, size) \<in> set (randomized w') - set (randomized w) \<longrightarrow>
       0 \<le> off \<and> 0 \<le> len \<and> off + len \<le> size \<and> size = int (length buf))"
proof -
  have b: "int (length buf) < 2 ^ 53"
    using assms(2) by (metis of_nat_less_iff of_nat_numeral of_nat_power)
  have r: "0 \<le> i \<and> i < 2 ^ 53 \<and> randomized w'' = randomized w'"
    if "opt_index E d x w' = (Some i, w'')" "0 \<le> d" "d < 2 ^ 53" for d x i and w' w'' :: "'a misc_rt_scheme"
  proof -
    have "to_index E x = Some j \<Longrightarrow> 0 \<le> j \<and> j \<le> 2 ^ 53 - 1" for j
      using assms(1) by (simp add: jsenv_ok_def)
    then show ?thesis using that by (auto simp: opt_index_def JS_ToIndex_def split: if_splits option.splits)
  qed
  have n: "randomized w'' = randomized w'" if "opt_index E d x w' = (None, w'')"
    for d x and w' w'' :: "'a misc_rt_scheme"
    using that by (auto simp: opt_index_def JS_ToIndex_def throw_defs split: if_splits option.splits)
  let ?a = "JS_ArrayBuffer buf # args"
  obtain o1 w1 where o1: "opt_index E 0 (argn 1 ?a) w = (o1, w1)" by fastforce
  obtain o2 w2 where o2: "opt_index E (int (length buf)) (argn 2 ?a) w1 = (o2, w2)" by fastforce
  show ?thesis
  proof (cases "o1 = None \<or> o2 = None")
    case True
    then show ?thesis using o1 o2 n [of 0] r [of 0] n [of "int (length buf)"]
      by (cases o1; cases o2) (auto simp: ijRandom_def argn_def)
  next
    case False
    then obtain i j where ij: "o1 = Some i" "o2 = Some j" by auto
    have ri: "0 \<le> i" "i < 2 ^ 53" "randomized w1 = randomized w" using r [of 0] o1 ij by auto
    have rj: "0 \<le> j" "j < 2 ^ 53" "randomized w2 = randomized w1" using r [of "int (length buf)"] o2 ij b by auto
    have "wrap64 (i + j) = i + j" using ri rj by (intro wrap64_id) auto
    then have run: "ijRandom E I ?a w =
        (if i + j > int (length buf) then Inr (JS_ThrowRangeError ''array buffer overflow'' w2)
         else if uv_random I j \<noteq> 0 then Inr (ijThrowErrno E (uv_random I j) w2)
         else Inr (JS_UNDEFINED, w2\<lparr>randomized := randomized w2 @ [(i, j, int (length buf))]\<rparr>))"
      using o1 o2 ij by (simp add: ijRandom_def argn_def)
    obtain v3 w3 where t: "ijThrowErrno E (uv_random I j) w2 = (v3, w3)" by fastforce
    have "rt.more w3 = rt.more w2" using af_throwErrno [OF t] by (simp add: alloc_frame_def)
    then have "randomized w3 = randomized w2" by (cases w2; cases w3) simp
    then show ?thesis using run t ri rj by (auto simp: throw_defs)
  qed
qed

theorem random_in_bounds_witness:
  "\<exists>v w'. ijRandom plain_env plain_misc [JS_ArrayBuffer ''abcd'', JS_Int 1, JS_Int 2] misc_world = Inr (v, w') \<and>
    (\<forall>off len size. (off, len, size) \<in> set (randomized w') \<longrightarrow> off + len \<le> 4)"
proof -
  have "length ''abcd'' < 2 ^ 53" "randomized misc_world = []" by (simp_all add: misc_world_defs)
  with random_in_bounds [OF plain_env_ok, of "''abcd''" plain_misc "[JS_Int 1, JS_Int 2]" misc_world]
  show ?thesis by fastforce
qed

end
