(* ===== verification/Cli.thy ===== *)
theory Cli
  imports Modules JsMin Misc
begin

text \<open>
  The command line (code/main.c): options, project creation, minifying and the run of a script.
  Arguments are the strings of argv; a pointer into an argument is a position in it. What the
  operating system answers is \<open>clienv\<close>. The Linux branches of the conditional code are modelled.

  The lemmas show that every documented option is recorded whatever the order, that the modules to
  preload run before the script and the first failure stops the rest, and what project creation
  writes.
\<close>

section \<open>Options\<close>

definition EXIT_SUCCESS :: int where "EXIT_SUCCESS = 0"
definition EXIT_FAILURE :: int where "EXIT_FAILURE = 1"
definition EXIT_INVALID_ARG :: int where "EXIT_INVALID_ARG = 2"
definition OPT_PREFIX :: char where "OPT_PREFIX = CHR ''-''"
definition OPT_ASSIGN :: char where "OPT_ASSIGN = CHR ''=''"

record CLIOption =
  key :: "char option"
  opt_name :: "string option"
  opt_length :: int

record Flags =
  empty_run :: bool
  strict_module_detection :: bool
  preload_modules :: "string list"
  eval_expr :: "string option"
  override_filename :: "string option"

definition strncmp_eq :: "string \<Rightarrow> string \<Rightarrow> nat \<Rightarrow> bool" where
  "strncmp_eq a b n = (take n a = take n b)"

definition is_longopt :: "CLIOption \<Rightarrow> string \<Rightarrow> bool" where
  "is_longopt opt str = (case opt_name opt of None \<Rightarrow> False | Some nm \<Rightarrow> strncmp_eq nm str (nat (opt_length opt)))"

definition get_option_length :: "string \<Rightarrow> int" where
  "get_option_length arg =
     wrap64 (int (case strchr_idx arg OPT_ASSIGN of Some i \<Rightarrow> i | None \<Rightarrow> length arg) - 1)"

text \<open>\<open>get_option\<close> works on the position of the pointer in the argument.\<close>

definition get_option :: "string \<Rightarrow> nat \<Rightarrow> CLIOption \<Rightarrow> bool \<times> nat \<times> CLIOption" where
  "get_option a pos opt = (let arg = drop pos a in
     if arg = [] then (False, pos, opt)
     else let opt = opt\<lparr>opt_length := get_option_length arg\<rparr>;
       skip = (\<lambda>pos. if starts OPT_ASSIGN (drop pos a) then pos + 1 else pos) in
       if hd arg = OPT_PREFIX then
         let opt = opt\<lparr>opt_name := Some (tl arg)\<rparr> in
         if tl arg = [] then (False, pos, opt) else (True, skip (pos + nat (opt_length opt) + 1), opt)
       else (True, skip (pos + 1), opt\<lparr>key := Some (hd arg)\<rparr>))"

definition get_option_value :: "string \<Rightarrow> string list \<Rightarrow> nat \<Rightarrow> string option \<times> nat" where
  "get_option_value arg argv optind =
     (if arg \<noteq> [] then (Some arg, optind)
      else if length argv \<le> optind then (None, optind)
      else if starts OPT_PREFIX (argv ! optind) then (None, optind)
      else (Some (argv ! optind), optind + 1))"

definition report_bad_option :: "string \<Rightarrow> string" where
  "report_bad_option nm = ''ijjs: bad option -'' @ nm @ [CHR 0x0A]"

definition report_missing_argument :: "CLIOption \<Rightarrow> string" where
  "report_missing_argument opt = ''ijjs: '' @ (case key opt of
     Some c \<Rightarrow> ''-'' @ [c] | None \<Rightarrow> ''--'' @ the (opt_name opt)) @ '' requires an argument'' @ [CHR 0x0A]"

definition report_unknown_option :: "CLIOption \<Rightarrow> string" where
  "report_unknown_option opt = ''ijjs: unknown option '' @ (case key opt of
     Some c \<Rightarrow> ''-'' @ [c] | None \<Rightarrow> ''--'' @ the (opt_name opt)) @ [CHR 0x0A]"

text \<open>strtol in base 10: white space, a sign, digits, saturating at the limits of a 64-bit long.\<close>

definition isspace :: "char \<Rightarrow> bool" where
  "isspace c = (c = CHR '' '' \<or> 9 \<le> (of_char c :: nat) \<and> (of_char c :: nat) \<le> 13)"

definition isdigit :: "char \<Rightarrow> bool" where
  "isdigit c = (48 \<le> (of_char c :: nat) \<and> (of_char c :: nat) \<le> 57)"

definition digits_value :: "string \<Rightarrow> int" where
  "digits_value s = foldl (\<lambda>n c. 10 * n + (of_char c - 48)) 0 s"

definition strtol10 :: "string \<Rightarrow> int" where
  "strtol10 s = (let s = dropWhile isspace s;
       neg = starts CHR ''-'' s;
       s = (if neg \<or> starts CHR ''+'' s then tl s else s);
       n = digits_value (takeWhile isdigit s)
     in if neg then max (- (2 ^ 63)) (- n) else min (2 ^ 63 - 1) n)"

text \<open>What ends the program before a runtime exists, with the exit code.\<close>

datatype stop = PrintVersion | InitProject | MinFiles | PrintHelp | Report string

record cli =
  optind :: nat
  flags :: Flags
  runOptions :: IJJSRunOptions

record clienv =
  malloc_ok :: "nat \<Rightarrow> bool"
  uv_setup_args :: "string list \<Rightarrow> string list option"
  uv_cwd :: "string option"
  getenv :: "string \<Rightarrow> string option"
  os_dirs :: dirs
  can_write :: "string \<Rightarrow> bool"

definition with_value :: "string \<Rightarrow> string list \<Rightarrow> CLIOption \<Rightarrow> cli \<Rightarrow> (string \<Rightarrow> cli \<Rightarrow> (stop \<times> int) + cli) \<Rightarrow> (stop \<times> int) + cli" where
  "with_value arg argv opt c f = (case get_option_value arg argv (optind c) of (v, i) \<Rightarrow>
     let c = c\<lparr>optind := i\<rparr> in
     case v of None \<Rightarrow> Inl (Report (report_missing_argument opt), EXIT_INVALID_ARG) | Some v \<Rightarrow> f v c)"

definition is_opt :: "CLIOption \<Rightarrow> char \<Rightarrow> string \<Rightarrow> bool" where
  "is_opt opt k nm = (key opt = Some k \<or> is_longopt opt nm)"

definition handle_option :: "clienv \<Rightarrow> string list \<Rightarrow> CLIOption \<Rightarrow> string \<Rightarrow> cli \<Rightarrow> (stop \<times> int) + cli" where
  "handle_option C argv opt arg c =
     (if is_opt opt CHR ''v'' ''version'' then Inl (PrintVersion, EXIT_SUCCESS)
      else if is_longopt opt ''init'' then Inl (InitProject, EXIT_SUCCESS)
      else if is_longopt opt ''min'' then Inl (MinFiles, EXIT_SUCCESS)
      else if is_opt opt CHR ''h'' ''help'' then Inl (PrintHelp, EXIT_SUCCESS)
      else if is_opt opt CHR ''e'' ''eval'' then
        with_value arg argv opt c (\<lambda>v c. Inr (c\<lparr>flags := (flags c)\<lparr>eval_expr := Some v\<rparr>\<rparr>))
      else if is_opt opt CHR ''l'' ''load'' then
        with_value arg argv opt c (\<lambda>v c.
          if \<not> malloc_ok C (length (preload_modules (flags c)))
          then Inl (Report (''ijjs: could not allocate memory'' @ [CHR 0x0A]), EXIT_FAILURE)
          else Inr (c\<lparr>flags := (flags c)\<lparr>preload_modules := preload_modules (flags c) @ [v]\<rparr>\<rparr>))
      else if is_longopt opt ''override-filename'' then
        with_value arg argv opt c (\<lambda>v c. Inr (c\<lparr>flags := (flags c)\<lparr>override_filename := Some v\<rparr>\<rparr>))
      else if is_longopt opt ''stack-size'' then
        with_value arg argv opt c (\<lambda>v c. let n = strtol10 v in
          if 0 < n then Inr (c\<lparr>runOptions := (runOptions c)\<lparr>op_stack := nat n\<rparr>\<rparr>)
          else Inl (Report (report_missing_argument opt), EXIT_INVALID_ARG))
      else if is_opt opt CHR ''q'' ''quit'' then Inr (c\<lparr>flags := (flags c)\<lparr>empty_run := True\<rparr>\<rparr>)
      else if is_longopt opt ''strict-module-detection'' then
        Inr (c\<lparr>flags := (flags c)\<lparr>strict_module_detection := True\<rparr>\<rparr>)
      else if is_longopt opt ''abort-on-unhandled-rejection'' then
        Inr (c\<lparr>runOptions := (runOptions c)\<lparr>op_abort := True\<rparr>\<rparr>)
      else Inl (Report (report_unknown_option opt), EXIT_INVALID_ARG))"

lemma get_option_value_optind: "get_option_value arg argv i = (v, j) \<Longrightarrow> i \<le> j"
  by (auto simp: get_option_value_def split: if_splits)

lemma with_value_optind:
  "with_value arg argv opt c f = Inr d \<Longrightarrow> (\<And>v c d. f v c = Inr d \<Longrightarrow> optind c = optind d) \<Longrightarrow> optind c \<le> optind d"
  by (fastforce simp: with_value_def Let_def split: prod.splits option.splits dest: get_option_value_optind)

lemma handle_option_optind: "handle_option C argv opt arg c = Inr d \<Longrightarrow> optind c \<le> optind d"
  by (auto simp: handle_option_def Let_def split: if_splits elim!: with_value_optind)

definition no_option :: CLIOption where
  "no_option = \<lparr>key = None, opt_name = None, opt_length = 0\<rparr>"

function options_loop :: "clienv \<Rightarrow> string list \<Rightarrow> cli \<Rightarrow> (stop \<times> int) + cli" where
  "options_loop C argv c =
     (if optind c < length argv \<and> starts OPT_PREFIX (argv ! optind c) then
        let a = argv ! optind c in
        case get_option a 1 no_option of (found, pos, opt) \<Rightarrow>
        if \<not> found then Inr c
        else let c = c\<lparr>optind := optind c + 1\<rparr> in
          if key opt \<noteq> None \<and> 0 < opt_length opt
          then Inl (Report (report_bad_option (drop (pos - 1) a)), EXIT_INVALID_ARG)
          else case handle_option C argv opt (drop pos a) c of Inl s \<Rightarrow> Inl s | Inr c \<Rightarrow> options_loop C argv c
      else Inr c)"
  by auto
termination
  by (relation "measure (\<lambda>(C, argv, c). length argv - optind c)")
     (auto dest!: handle_option_optind)

declare options_loop.simps [simp del]

definition start_cli :: cli where
  "start_cli = \<lparr>optind = 1,
     flags = \<lparr>empty_run = False, strict_module_detection = False, preload_modules = [], eval_expr = None, override_filename = None\<rparr>,
     runOptions = ijDefaultOptions\<rparr>"

section \<open>Documented options\<close>

text \<open>The options of the help text that do not end the program, the ways to write them, and what
  they ask for.\<close>

datatype cliopt = OEval string | OLoad string | OOverride string | OStack string | OQuit | OStrict | OAbort

definition own_word :: "string \<Rightarrow> bool" where
  "own_word v = (\<not> starts OPT_PREFIX v)"

fun with_arg :: "string list \<Rightarrow> string \<Rightarrow> string list list" where
  "with_arg names v = (if own_word v then map (\<lambda>n. [n, v]) names else []) @
     (if v \<noteq> [] then map (\<lambda>n. [n @ ''='' @ v]) names else [])"

fun spellings :: "cliopt \<Rightarrow> string list list" where
  "spellings (OEval v) = with_arg [''-e'', ''--eval''] v"
| "spellings (OLoad v) = with_arg [''-l'', ''--load''] v"
| "spellings (OOverride v) = with_arg [''--override-filename''] v"
| "spellings (OStack v) = (if 0 < strtol10 v then with_arg [''--stack-size''] v else [])"
| "spellings OQuit = [[''-q''], [''--quit'']]"
| "spellings OStrict = [[''--strict-module-detection'']]"
| "spellings OAbort = [[''--abort-on-unhandled-rejection'']]"

fun apply_opt :: "cliopt \<Rightarrow> cli \<Rightarrow> cli" where
  "apply_opt (OEval v) c = c\<lparr>flags := (flags c)\<lparr>eval_expr := Some v\<rparr>\<rparr>"
| "apply_opt (OLoad v) c = c\<lparr>flags := (flags c)\<lparr>preload_modules := preload_modules (flags c) @ [v]\<rparr>\<rparr>"
| "apply_opt (OOverride v) c = c\<lparr>flags := (flags c)\<lparr>override_filename := Some v\<rparr>\<rparr>"
| "apply_opt (OStack v) c = c\<lparr>runOptions := (runOptions c)\<lparr>op_stack := nat (strtol10 v)\<rparr>\<rparr>"
| "apply_opt OQuit c = c\<lparr>flags := (flags c)\<lparr>empty_run := True\<rparr>\<rparr>"
| "apply_opt OStrict c = c\<lparr>flags := (flags c)\<lparr>strict_module_detection := True\<rparr>\<rparr>"
| "apply_opt OAbort c = c\<lparr>runOptions := (runOptions c)\<lparr>op_abort := True\<rparr>\<rparr>"

lemmas option_eval = get_option_def get_option_length_def no_option_def handle_option_def is_opt_def is_longopt_def
  strncmp_eq_def OPT_ASSIGN_def OPT_PREFIX_def starts_def wrap64_def with_value_def get_option_value_def

lemma nth_pre: "(pre @ x # post) ! length pre = x" "(pre @ x # y # post) ! Suc (length pre) = y"
  by (simp_all add: nth_append)

lemma option_step:
  assumes "ws \<in> set (spellings opt)" "argv = pre @ ws @ post" "optind c = length pre" "\<And>n. malloc_ok C n"
  shows "options_loop C argv c = options_loop C argv (apply_opt opt (c\<lparr>optind := length pre + length ws\<rparr>))"
proof (cases opt)
  case (OEval v)
  then show ?thesis using assms unfolding options_loop.simps [of C argv c]
    by (auto simp: option_eval own_word_def nth_pre split: if_splits)
next
  case (OLoad v)
  then show ?thesis using assms unfolding options_loop.simps [of C argv c]
    by (auto simp: option_eval own_word_def nth_pre split: if_splits)
next
  case (OOverride v)
  then show ?thesis using assms unfolding options_loop.simps [of C argv c]
    by (auto simp: option_eval own_word_def nth_pre split: if_splits)
next
  case (OStack v)
  then show ?thesis using assms unfolding options_loop.simps [of C argv c]
    by (auto simp: option_eval own_word_def nth_pre split: if_splits)
next
  case OQuit
  then show ?thesis using assms unfolding options_loop.simps [of C argv c]
    by (auto simp: option_eval nth_pre)
next
  case OStrict
  then show ?thesis using assms unfolding options_loop.simps [of C argv c]
    by (auto simp: option_eval nth_pre)
next
  case OAbort
  then show ?thesis using assms unfolding options_loop.simps [of C argv c]
    by (auto simp: option_eval nth_pre)
qed


lemma apply_opt_optind [simp]: "optind (apply_opt opt c) = optind c"
  by (cases opt) auto

lemma options_run:
  assumes "list_all2 (\<lambda>opt ws. ws \<in> set (spellings opt)) opts wss" "argv = pre @ concat wss @ rest"
    and "optind c = length pre" "\<And>n. malloc_ok C n" "rest = [] \<or> own_word (hd rest)"
  shows "options_loop C argv c = Inr (fold apply_opt opts (c\<lparr>optind := length argv - length rest\<rparr>))"
  using assms(1-3)
proof (induction arbitrary: pre c rule: list_all2_induct)
  case Nil
  then have "\<not> (optind c < length argv \<and> starts OPT_PREFIX (argv ! optind c))"
    using assms(5) by (cases rest) (auto simp: own_word_def)
  then show ?case using Nil by (subst options_loop.simps) auto
next
  case (Cons opt opts ws wss)
  let ?d = "apply_opt opt (c\<lparr>optind := length pre + length ws\<rparr>)"
  have "options_loop C argv c = options_loop C argv ?d"
    using option_step [of ws opt argv pre "concat wss @ rest" c C] Cons assms(4) by simp
  also have "\<dots> = Inr (fold apply_opt opts (?d\<lparr>optind := length argv - length rest\<rparr>))"
    using Cons.IH [of "pre @ ws" ?d] Cons.prems by simp
  also have "?d\<lparr>optind := length argv - length rest\<rparr> = apply_opt opt (c\<lparr>optind := length argv - length rest\<rparr>)"
    by (cases opt) simp_all
  finally show ?case by simp
qed

text \<open>C8. The command line is recorded as written: any number of documented options, in any order
  and in any of their spellings (short or long, the value as the next word or after an equals sign),
  followed by nothing or by a word that is no option, sets exactly what they ask for (the modules to
  preload in the order given, later values replacing earlier ones), and the rest starts at the first
  word after them.\<close>

theorem options_recorded:
  assumes "list_all2 (\<lambda>opt ws. ws \<in> set (spellings opt)) opts wss" "\<And>n. malloc_ok C n" "rest = [] \<or> own_word (hd rest)"
  shows "options_loop C (prog # concat wss @ rest) start_cli =
    Inr (fold apply_opt opts (start_cli\<lparr>optind := 1 + length (concat wss)\<rparr>))"
  using options_run [OF assms(1), of "prog # concat wss @ rest" "[prog]" rest start_cli C] assms(2,3)
  by (simp add: start_cli_def)

definition plain_cli :: clienv where
  "plain_cli = \<lparr>malloc_ok = (\<lambda>_. True), uv_setup_args = Some, uv_cwd = Some ''/p'', getenv = [''IJJS'' \<mapsto> ''/i''],
     os_dirs = plain_dirs, can_write = (\<lambda>_. True)\<rparr>"

theorem options_recorded_witness:
  "options_loop plain_cli [''ijjs'', ''-l'', ''a.js'', ''--stack-size=4096'', ''--load=b.js'', ''-q'', ''main.js''] start_cli =
    Inr (start_cli\<lparr>optind := 6, flags := (flags start_cli)\<lparr>preload_modules := [''a.js'', ''b.js''], empty_run := True\<rparr>,
      runOptions := ijDefaultOptions\<lparr>op_stack := 4096\<rparr>\<rparr>)"
proof -
  have "strtol10 ''4096'' = 4096" by (simp add: strtol10_def digits_value_def isspace_def isdigit_def starts_def)
  then have "list_all2 (\<lambda>opt ws. ws \<in> set (spellings opt)) [OLoad ''a.js'', OStack ''4096'', OLoad ''b.js'', OQuit]
      [[''-l'', ''a.js''], [''--stack-size=4096''], [''--load=b.js''], [''-q'']]"
    by (simp add: own_word_def starts_def OPT_PREFIX_def)
  from options_recorded [OF this, of plain_cli "[''main.js'']" "''ijjs''"] show ?thesis
    using \<open>strtol10 ''4096'' = 4096\<close>
    by (simp add: plain_cli_def own_word_def starts_def OPT_PREFIX_def start_cli_def)
qed

section \<open>Scripts\<close>

definition has_suffix2 :: "string \<Rightarrow> string \<Rightarrow> bool" where
  "has_suffix2 str suffix = (length suffix \<le> length str \<and> drop (length str - length suffix) str = suffix)"

definition get_eval_flags :: "string \<Rightarrow> bool \<Rightarrow> int" where
  "get_eval_flags filepath strict = (let is_mjs = has_suffix2 filepath ''.mjs'' in
     if strict then if is_mjs then JS_EVAL_TYPE_MODULE else JS_EVAL_TYPE_GLOBAL
     else if is_mjs then JS_EVAL_TYPE_MODULE else - 1)"

definition eval_result :: "jsenv \<Rightarrow> jsval \<Rightarrow> 'z mod_rt_scheme \<Rightarrow> (int \<times> 'z mod_rt_scheme) res" where
  "eval_result E val w =
     bindE (if JS_IsException val then ijDumpError E w else Inr w) (\<lambda>w.
     bindE (JS_FreeValue val w) (\<lambda>w. Inr (if JS_IsException val then - 1 else 0, w)))"

definition eval_buf :: "jsenv \<Rightarrow> modenv \<Rightarrow> string \<Rightarrow> string \<Rightarrow> int \<Rightarrow> 'z mod_rt_scheme \<Rightarrow> (int \<times> 'z mod_rt_scheme) res" where
  "eval_buf E M buf filename eval_flags w = (case JS_Eval M buf filename eval_flags w of (val, w) \<Rightarrow> eval_result E val w)"

definition eval_module ::
    "jsenv \<Rightarrow> vmenv \<Rightarrow> modenv \<Rightarrow> string \<Rightarrow> string option \<Rightarrow> int \<Rightarrow> 'z mod_rt_scheme \<Rightarrow> (int \<times> 'z mod_rt_scheme) res option" where
  "eval_module E V M filepath override eval_flags w = (case ijEvalFile E V M filepath eval_flags True override w of
     None \<Rightarrow> None | Some r \<Rightarrow> Some (bindE r (\<lambda>(val, w). eval_result E val w)))"

text \<open>Evaluation of the preloaded modules; the result tells whether all succeeded.\<close>

fun preload :: "jsenv \<Rightarrow> vmenv \<Rightarrow> modenv \<Rightarrow> bool \<Rightarrow> string list \<Rightarrow> 'z mod_rt_scheme \<Rightarrow> (bool \<times> 'z mod_rt_scheme) res option" where
  "preload E V M strict [] w = Some (Inr (True, w))"
| "preload E V M strict (f # fs) w = (case eval_module E V M f None (get_eval_flags f strict) w of
     None \<Rightarrow> None
   | Some (Inl e) \<Rightarrow> Some (Inl e)
   | Some (Inr (r, w)) \<Rightarrow> if r \<noteq> 0 then Some (Inr (False, w)) else preload E V M strict fs w)"

definition main_input ::
    "jsenv \<Rightarrow> vmenv \<Rightarrow> modenv \<Rightarrow> string list \<Rightarrow> cli \<Rightarrow> 'z mod_rt_scheme \<Rightarrow> (int \<times> 'z mod_rt_scheme) res option" where
  "main_input E V M argv c w = (case eval_expr (flags c) of
     Some expr \<Rightarrow> Some (eval_buf E M expr ''<cmdline>'' JS_EVAL_TYPE_GLOBAL w)
   | None \<Rightarrow> if length argv \<le> optind c then Some (Inl NullDeref)
       else let filepath = argv ! optind c in
         eval_module E V M filepath (override_filename (flags c))
           (get_eval_flags filepath (strict_module_detection (flags c))) w)"

definition main_scripts ::
    "jsenv \<Rightarrow> vmenv \<Rightarrow> modenv \<Rightarrow> string list \<Rightarrow> cli \<Rightarrow> 'z mod_rt_scheme \<Rightarrow> (bool \<times> 'z mod_rt_scheme) res option" where
  "main_scripts E V M argv c w =
     (case preload E V M (strict_module_detection (flags c)) (preload_modules (flags c)) w of
        None \<Rightarrow> None
      | Some (Inl e) \<Rightarrow> Some (Inl e)
      | Some (Inr (False, w)) \<Rightarrow> Some (Inr (False, w))
      | Some (Inr (True, w)) \<Rightarrow> (case main_input E V M argv c w of
            None \<Rightarrow> None
          | Some r \<Rightarrow> Some (bindE r (\<lambda>(r, w). Inr (r = 0, w)))))"

lemma evals_more: "rt.more w' = rt.more w \<Longrightarrow> evals w' = evals w"
  by (cases w; cases w') simp

lemma free_block_more: "free_block k p w = Inr w' \<Longrightarrow> rt.more w' = rt.more w"
  by (auto simp: free_block_def split: if_splits)

lemma ijDumpObj_more: "ijDumpObj E v w = Inr w' \<Longrightarrow> rt.more w' = rt.more w"
  by (auto simp: ijDumpObj_def JS_ToCString_def JS_FreeCString_def JS_ThrowTypeError_def throwError_def JS_Throw_def
      split: option.splits dest!: free_block_more)

lemma ijDumpError_more: "ijDumpError E w = Inr w' \<Longrightarrow> rt.more w' = rt.more w"
  by (auto simp: ijDumpError_def ijDumpError1_def Let_def JS_GetException_def JS_GetPropertyStr_def
      JS_ThrowTypeError_def throwError_def JS_Throw_def
      split: prod.splits option.splits if_splits dest!: ijDumpObj_more JS_FreeValue_frame(11))

text \<open>The names under which sources were evaluated.\<close>

definition eval_names :: "'z mod_rt_scheme \<Rightarrow> string list" where
  "eval_names w = map (\<lambda>(_, n, _). n) (evals w)"

lemma eval_names_more: "rt.more w' = rt.more w \<Longrightarrow> eval_names w' = eval_names w"
  using evals_more [of w' w] by (simp add: eval_names_def)

lemma JS_Eval_names: "JS_Eval M src n fl w = (v, w') \<Longrightarrow> eval_names w' = eval_names w @ [n]"
  by (auto simp: JS_Eval_def JS_Throw_def eval_names_def evals_more [OF JS_DupValue_frame(11)] Let_def split: sum.splits)

lemma eval_names_simps [simp]:
  "eval_names (JS_DupValue v w) = eval_names w" "eval_names (w\<lparr>exn := e\<rparr>) = eval_names w"
  "eval_names (w\<lparr>ran := rs\<rparr>) = eval_names w" "eval_names (w\<lparr>metas := ms\<rparr>) = eval_names w"
  by (simp_all add: eval_names_def evals_more [OF JS_DupValue_frame(11)])

lemma JS_FreeValue_names: "JS_FreeValue v w = Inr w' \<Longrightarrow> eval_names w' = eval_names w"
  by (rule eval_names_more [OF JS_FreeValue_frame(11)])

lemma ijDumpError_names: "ijDumpError E w = Inr w' \<Longrightarrow> eval_names w' = eval_names w"
  by (rule eval_names_more [OF ijDumpError_more])

lemma JS_EvalFunction_names: "JS_EvalFunction M f w = Inr (v, w') \<Longrightarrow> eval_names w' = eval_names w"
  by (auto simp: JS_EvalFunction_def JS_Throw_def split: sum.splits dest!: JS_FreeValue_names)

lemma import_meta_names: "ijModuleSetImportMeta M v r m w = Inr (i, w') \<Longrightarrow> eval_names w' = eval_names w"
  by (auto simp: ijModuleSetImportMeta_def JS_ThrowTypeError_def JS_ThrowOutOfMemory_def throwError_def
      JS_Throw_def Let_def split: jsval.splits option.splits if_splits)

lemma eval_result_names:
  "eval_result E v w = Inr (r, w') \<Longrightarrow> eval_names w' = eval_names w \<and> (r = 0 \<longleftrightarrow> \<not> JS_IsException v)"
  by (auto simp: eval_result_def split: if_splits dest!: ijDumpError_names JS_FreeValue_names)

lemma eval_loaded_names:
  assumes "eval_loaded E M dbuf n fl True w = Inr (v, w')"
  shows "eval_names w' = eval_names w @ (if JS_IsException v then [n] else [n, ''<global>''])"
proof -
  let ?first = "if fl mod 4 = JS_EVAL_TYPE_MODULE then
      (case JS_Eval M dbuf n (or fl JS_EVAL_FLAG_COMPILE_ONLY) w of (ret, w) \<Rightarrow>
         if JS_IsException ret then Inr (ret, w)
         else bindE (ijModuleSetImportMeta M ret True True w) (\<lambda>(_, w). JS_EvalFunction M ret w))
    else Inr (JS_Eval M dbuf n fl w)"
  obtain ret w1 where f: "?first = Inr (ret, w1)"
    and r: "(if \<not> JS_IsException ret \<and> True then
       (case JS_Eval M emit_window_load ''<global>'' JS_EVAL_TYPE_GLOBAL w1 of (ret1, w) \<Rightarrow>
        bindE (if JS_IsException ret1 then ijDumpError E w else Inr w) (\<lambda>w. Inr (ret, w)))
     else Inr (ret, w1)) = Inr (v, w')"
    using assms unfolding eval_loaded_def bindE_Inr_iff by (elim exE conjE) (simp split: prod.splits)
  have w1: "eval_names w1 = eval_names w @ [n]"
  proof (cases "fl mod 4 = JS_EVAL_TYPE_MODULE")
    case True
    obtain r0 w0 where e: "JS_Eval M dbuf n (or fl JS_EVAL_FLAG_COMPILE_ONLY) w = (r0, w0)"
      by (cases "JS_Eval M dbuf n (or fl JS_EVAL_FLAG_COMPILE_ONLY) w")
    then show ?thesis using f True JS_Eval_names [OF e]
      by (auto split: if_splits dest!: import_meta_names JS_EvalFunction_names)
  next
    case False
    then show ?thesis using f JS_Eval_names [of M dbuf n fl w ret w1] by simp
  qed
  show ?thesis
  proof (cases "JS_IsException ret")
    case True then show ?thesis using r w1 by simp
  next
    case False
    obtain r0 w0 where e: "JS_Eval M emit_window_load ''<global>'' JS_EVAL_TYPE_GLOBAL w1 = (r0, w0)"
      by (cases "JS_Eval M emit_window_load ''<global>'' JS_EVAL_TYPE_GLOBAL w1")
    then obtain w2 where w2: "(if JS_IsException r0 then ijDumpError E w0 else Inr w0) = Inr w2" "v = ret" "w' = w2"
      using r False by (simp add: bindE_Inr_iff)
    have "eval_names w2 = eval_names w0" using w2(1) ijDumpError_names by (cases "JS_IsException r0") auto
    then show ?thesis using w2(2,3) False JS_Eval_names [OF e] w1 by simp
  qed
qed

lemma ijLoadFile_names: "ijLoadFile V d f w = Some (r, buf, w') \<Longrightarrow> eval_names w' = eval_names w"
  by (auto simp: ijLoadFile_def eval_names_def Let_def split: if_splits option.splits)

lemma eval_module_names:
  assumes "eval_module E V M f ov fl w = Some (Inr (r, w'))"
  defines "n \<equiv> (case ov of Some g \<Rightarrow> g | None \<Rightarrow> f)"
  shows "\<exists>t. eval_names w' = eval_names w @ t \<and> (if r = 0 then t = [n, ''<global>''] else t = [] \<or> t = [n])"
proof -
  obtain v w1 where e: "ijEvalFile E V M f fl True ov w = Some (Inr (v, w1))" "eval_result E v w1 = Inr (r, w')"
    using assms(1) by (auto simp: eval_module_def bindE_Inr_iff split: option.splits)
  obtain l buf w0 where l: "ijLoadFile V [] f w = Some (l, buf, w0)"
    using e(1) by (cases "ijLoadFile V [] f w") (auto simp: ijEvalFile_def)
  note r = eval_result_names [OF e(2)]
  show ?thesis
  proof (cases "l = 0")
    case False
    then have "JS_IsException v" "eval_names w1 = eval_names w0"
      using e(1) l by (auto simp: ijEvalFile_def JS_ThrowReferenceError_def throwError_def JS_Throw_def)
    then show ?thesis using r ijLoadFile_names [OF l] by auto
  next
    case True
    then obtain b g where "eval_loaded E M b n g True w0 = Inr (v, w1)"
      using e(1) l by (auto simp: ijEvalFile_def n_def Let_def)
    from eval_loaded_names [OF this] show ?thesis using r ijLoadFile_names [OF l] by auto
  qed
qed

definition script_trace :: "string \<Rightarrow> string list" where
  "script_trace f = [f, ''<global>'']"

definition in_order :: "string list list \<Rightarrow> bool \<Rightarrow> string list \<Rightarrow> bool" where
  "in_order segs ok t = (if ok then t = concat segs
     else (\<exists>k < length segs. t = concat (take k segs) \<or> t = concat (take k segs) @ [hd (segs ! k)]))"

lemma in_order_step: "in_order segs ok t \<Longrightarrow> in_order (seg # segs) ok (seg @ t)"
proof -
  assume a: "in_order segs ok t"
  show ?thesis
  proof (cases ok)
    case True then show ?thesis using a by (simp add: in_order_def)
  next
    case False
    then obtain k where "k < length segs" "t = concat (take k segs) \<or> t = concat (take k segs) @ [hd (segs ! k)]"
      using a by (auto simp: in_order_def)
    then show ?thesis using False unfolding in_order_def by (auto intro!: exI [of _ "Suc k"])
  qed
qed

lemma in_order_first: "t = [] \<or> t = [hd seg] \<Longrightarrow> in_order (seg # segs) False t"
  by (auto simp: in_order_def intro!: exI [of _ 0])

lemma preload_names:
  "preload E V M strict fs w = Some (Inr (ok, w')) \<Longrightarrow>
     \<exists>t. eval_names w' = eval_names w @ t \<and> in_order (map script_trace fs) ok t"
proof (induction fs arbitrary: w)
  case Nil then show ?case by (simp add: in_order_def)
next
  case (Cons f fs)
  obtain r w1 where e: "eval_module E V M f None (get_eval_flags f strict) w = Some (Inr (r, w1))"
    using Cons.prems by (auto split: option.splits sum.splits)
  obtain t where t: "eval_names w1 = eval_names w @ t" "if r = 0 then t = script_trace f else t = [] \<or> t = [f]"
    using eval_module_names [OF e] unfolding script_trace_def option.case by blast
  show ?case
  proof (cases "r = 0")
    case True
    then obtain u where "eval_names w' = eval_names w1 @ u" "in_order (map script_trace fs) ok u"
      using Cons.IH [of w1] Cons.prems e by auto
    then show ?thesis using t True in_order_step by auto
  next
    case False
    then show ?thesis using t Cons.prems e in_order_first [of t "script_trace f"] by (auto simp: script_trace_def)
  qed
qed

lemma in_order_snoc:
  "if ok then u = seg else u = [] \<or> u = [hd seg] \<Longrightarrow> in_order (segs @ [seg]) ok (concat segs @ u)"
  unfolding in_order_def by (auto intro!: exI [of _ "length segs"])

lemma in_order_more: "in_order segs False t \<Longrightarrow> in_order (segs @ rest) False t"
  by (auto simp: in_order_def nth_append intro: less_trans)

lemma main_input_names:
  assumes "main_input E V M argv c w = Some (Inr (r, w'))"
  defines "seg \<equiv> (case eval_expr (flags c) of Some e \<Rightarrow> [''<cmdline>'']
     | None \<Rightarrow> script_trace (case override_filename (flags c) of Some f \<Rightarrow> f | None \<Rightarrow> argv ! optind c))"
  shows "\<exists>u. eval_names w' = eval_names w @ u \<and> (if r = 0 then u = seg else u = [] \<or> u = [hd seg])"
proof (cases "eval_expr (flags c)")
  case None
  then have "eval_module E V M (argv ! optind c) (override_filename (flags c))
      (get_eval_flags (argv ! optind c) (strict_module_detection (flags c))) w = Some (Inr (r, w'))"
    using assms(1) by (auto simp: main_input_def Let_def split: if_splits)
  from eval_module_names [OF this] obtain t where "eval_names w' = eval_names w @ t"
    "if r = 0 then t = seg else t = [] \<or> t = [hd seg]"
    unfolding seg_def script_trace_def None option.case list.sel by blast
  then show ?thesis by blast
next
  case (Some expr)
  obtain v w1 where e: "JS_Eval M expr ''<cmdline>'' JS_EVAL_TYPE_GLOBAL w = (v, w1)"
    by (cases "JS_Eval M expr ''<cmdline>'' JS_EVAL_TYPE_GLOBAL w")
  have "eval_result E v w1 = Inr (r, w')" using assms(1) Some e by (simp add: main_input_def eval_buf_def)
  then show ?thesis using eval_result_names [of E v w1 r w'] JS_Eval_names [OF e] Some by (simp add: seg_def)
qed

text \<open>C27. Scripts run in the order of the command line: the preloaded modules first, then the
  expression or the script, each followed by the \<open>load\<close> event except the expression; the first
  that fails is the last that is evaluated.\<close>

theorem scripts_run_in_order:
  assumes "main_scripts E V M argv c w = Some (Inr (ok, w'))"
  shows "\<exists>t. eval_names w' = eval_names w @ t \<and> in_order (map script_trace (preload_modules (flags c)) @
    [case eval_expr (flags c) of Some e \<Rightarrow> [''<cmdline>'']
     | None \<Rightarrow> script_trace (case override_filename (flags c) of Some f \<Rightarrow> f | None \<Rightarrow> argv ! optind c)]) ok t"
proof -
  obtain ok1 w1 where p: "preload E V M (strict_module_detection (flags c)) (preload_modules (flags c)) w = Some (Inr (ok1, w1))"
    using assms by (auto simp: main_scripts_def split: option.splits sum.splits)
  obtain t where t: "eval_names w1 = eval_names w @ t" "in_order (map script_trace (preload_modules (flags c))) ok1 t"
    using preload_names [OF p] by blast
  show ?thesis
  proof (cases ok1)
    case False
    then have "ok = False" "w' = w1" using assms p by (auto simp: main_scripts_def)
    then show ?thesis using t False by (intro exI [of _ t]) (simp add: in_order_more)
  next
    case True
    then obtain r where r: "main_input E V M argv c w1 = Some (Inr (r, w'))" "ok = (r = 0)"
      using assms p by (auto simp: main_scripts_def bindE_Inr_iff split: option.splits)
    show ?thesis using main_input_names [OF r(1)] t True r(2) in_order_snoc by (fastforce simp: in_order_def [of _ True])
  qed
qed

definition expr_cli :: cli where
  "expr_cli = start_cli\<lparr>flags := (flags start_cli)\<lparr>eval_expr := Some ''1''\<rparr>\<rparr>"

theorem scripts_run_in_order_witness:
  "\<exists>w'. main_scripts plain_env hello_vm plain_mod [''ijjs'', ''-e'', ''1''] expr_cli mod_world = Some (Inr (True, w')) \<and>
     eval_names w' = [''<cmdline>'']"
proof -
  obtain w' where w': "main_scripts plain_env hello_vm plain_mod [''ijjs'', ''-e'', ''1''] expr_cli mod_world = Some (Inr (True, w'))"
    by (simp add: main_scripts_def main_input_def eval_buf_def eval_result_def JS_Eval_def expr_cli_def start_cli_def
        plain_mod_def mod_world_defs)
  have "eval_names mod_world = []" by (simp add: eval_names_def mod_world_defs)
  with scripts_run_in_order [OF w'] show ?thesis using w' by (simp add: in_order_def expr_cli_def start_cli_def)
qed

section \<open>Project creation\<close>

definition crlf_lines :: "string list \<Rightarrow> string" where
  "crlf_lines ls = concat (map (\<lambda>l. l @ [CHR 0x0D, CHR 0x0A]) (butlast ls)) @ last ls"

definition tab :: string where
  "tab = [CHR 0x09]"

definition launch :: string where
  \<open>launch = crlf_lines [
     ''{'',
     ''    // Use IntelliSense to learn about possible attributes.'',
     ''    // Hover to view descriptions of existing attributes.'',
     ''    // For more information, visit: https://go.microsoft.com/fwlink/?linkid=830387'',
     ''    "version": "0.2.0",'',
     ''    "configurations" : ['',
     ''        {'',
     ''            "type": "ijjs",'',
     ''            "request" : "launch",'',
     ''            "name" : "ijjs.launch",'',
     ''            "runtimeExecutable" : "ijjs-cli",'',
     ''            "cwd" : "${workspaceFolder}",'',
     ''            "sourceMaps":true,'',
     ''            "args": ["--stack-size 1048576"],'',
     tab @ tab @ tab @ ''"localRoot" : "${workspaceFolder}/src/",'',
     ''            "remoteRoot" : "${workspaceFolder}/dist/",'',
     tab @ tab @ ''    "program": "${workspaceFolder}/dist/main.js"'',
     ''        }'',
     ''    ]'',
     ''}'']\<close>

definition tscfg :: string where
  \<open>tscfg = crlf_lines [
     ''{'',
     ''    "compilerOptions": {'',
     ''        "target" : "es2017",'',
     ''        "module" : "es6",'',
     ''        "strict" : true,'',
     ''        "declaration" : false,'',
     ''        "removeComments" : true,'',
     ''        "outDir" : "./dist",'',
     ''        "lib" : ["es2017"],'',
     ''        "sourceMap" : true,'',
     ''        "baseUrl": "./ij_modules",'',
     ''    },'',
     ''    "include": ["src/**/*", "ij_modules/**/*"],'',
     ''    "exclude": ["dist"]'',
     ''}'']\<close>

definition mainfile :: string where
  "mainfile = crlf_lines [''//This file is generated by ijjs'',
     ''//For more information, visit: https://github.com/MarilynDafa/ijjs'']"

text \<open>fopen for writing gives NULL when the file cannot be created, and fwrite then dereferences it;
  so do fseek and fread on a file that cannot be opened for reading.\<close>

definition write_file :: "clienv \<Rightarrow> string \<Rightarrow> 8 word list \<Rightarrow> walk \<Rightarrow> walk res" where
  "write_file C f bs w = (if can_write C f then Inr (w\<lparr>files := (files w)(f \<mapsto> bs)\<rparr>) else Inl NullDeref)"

definition copy_file :: "clienv \<Rightarrow> string \<Rightarrow> string \<Rightarrow> walk \<Rightarrow> walk res" where
  "copy_file C src dst w = (case files w src of None \<Rightarrow> Inl NullDeref | Some bs \<Rightarrow> write_file C dst bs w)"

definition path_buf :: "string \<Rightarrow> string \<Rightarrow> string res" where
  "path_buf path suffix = bindE (strcat_in 256 [] path) (\<lambda>b. strcat_in 256 b suffix)"

definition type_files :: "(string \<times> string) list" where
  "type_files = [(''/lib.ijdom.d.ts'', ''ij_modules/@types/lib.ijdom.d.ts''), (''/lib.ijjs.d.ts'', ''ij_modules/@types/lib.ijjs.d.ts''),
     (''/libsigar.d.ts'', ''ij_modules/sigar/libsigar.d.ts''), (''/libpostgre.d.ts'', ''ij_modules/postgresql/libpostgre.d.ts''),
     (''/libredis.d.ts'', ''ij_modules/redis/libredis.d.ts'')]"

definition module_files :: "(string \<times> string) list" where
  "module_files = [(''/libsigar.so'', ''ij_modules/sigar/libsigar.so''), (''/cron.js'', ''ij_modules/cron/cron.js''),
     (''/cron.d.ts'', ''ij_modules/cron/cron.d.ts''), (''/libpostgre.so'', ''ij_modules/postgresql/libpostgre.so''),
     (''/libredis.so'', ''ij_modules/redis/libredis.so''), (''/redis'', ''ij_modules/redis/redis'')]"

definition say :: "string \<Rightarrow> walk \<Rightarrow> walk" where
  "say msg w = w\<lparr>messages := messages w @ [msg]\<rparr>"

definition init_project :: "clienv \<Rightarrow> walk \<Rightarrow> walk res" where
  "init_project C w =
     bindE (write_file C ''tsconfig.json'' (bytes_of tscfg) w) (\<lambda>w.
     bindE (write_file C ''.vscode/launch.json'' (bytes_of launch) w) (\<lambda>w.
     case getenv C ''IJJS'' of
       None \<Rightarrow> Inr (say ''ijjs project init error(ijjs env error)'' w)
     | Some path \<Rightarrow>
         bindE (forE (\<lambda>(s, _) w. bindE (path_buf path s) (\<lambda>_. Inr w)) type_files w) (\<lambda>w.
         bindE (forE (\<lambda>(s, d). copy_file C (path @ s) d) type_files w) (\<lambda>w.
         bindE (write_file C ''src/main.ts'' (bytes_of mainfile) w) (\<lambda>w.
         forE (\<lambda>(s, d) w. bindE (path_buf path s) (\<lambda>src. copy_file C src d w)) module_files
           (say ''ijjs project init successfully'' w))))))"

section \<open>Main\<close>

definition print_help :: string where
  \<open>print_help = concat (map (\<lambda>l. l @ [CHR 0x0A]) [
     ''Usage: ijjs [options] [file]'', [], ''Options:'',
     ''  -v, --version                   print ijjs version'',
     ''  -h, --help                      list options'',
     ''  -e, --eval EXPR                 evaluate EXPR'',
     ''  -l, --load FILENAME             module to preload (option can be repeated)'',
     ''  -q, --quit                      just instantiate the interpreter and quit'',
     ''  --abort-on-unhandled-rejection  abort when a rejected promise is not caught'',
     ''  --override-filename FILENAME    override filename in error messages'',
     ''  --stack-size STACKSIZE          set max stack size'',
     ''  --strict-module-detection       only run code as a module if its extension is ".mjs"''])\<close>

definition min_jsfiles :: "clienv \<Rightarrow> walk \<Rightarrow> walk exits" where
  "min_jsfiles C f = bindE (strcat_in 260 (case uv_cwd C of None \<Rightarrow> [] | Some d \<Rightarrow> d) ''/dist'') (\<lambda>dir.
     compress (os_dirs C) dir f)"

definition run_stop :: "clienv \<Rightarrow> stop \<Rightarrow> walk \<Rightarrow> walk exits" where
  "run_stop C s f = (case s of
     PrintVersion \<Rightarrow> Inr (Inr (say (''v'' @ ijVersion @ [CHR 0x0A]) f))
   | InitProject \<Rightarrow> bindE (init_project C f) (\<lambda>f. Inr (Inr f))
   | MinFiles \<Rightarrow> min_jsfiles C f
   | PrintHelp \<Rightarrow> Inr (Inr (say print_help f))
   | Report msg \<Rightarrow> Inr (Inr (say msg f)))"

definition ijSetupArgs :: "clienv \<Rightarrow> string list \<Rightarrow> string list" where
  "ijSetupArgs C argv = (case uv_setup_args C argv of Some args \<Rightarrow> args | None \<Rightarrow> argv)"

text \<open>What the loop and the engine do to the world while a script runs, and the handles of the loop
  at the end. Booting a runtime reads the arguments that ijSetupArgs kept.\<close>

record 'w sysenv =
  sys_boot :: "string list \<Rightarrow> 'w \<Rightarrow> 'w res"
  sys_poll :: "bool \<Rightarrow> 'w \<Rightarrow> 'w"
  sys_alive :: "'w \<Rightarrow> bool"
  sys_teardown :: "'w \<Rightarrow> 'w res"
  sys_handles :: "(nat \<times> nat) list"

definition main_run ::
    "jsenv \<Rightarrow> vmenv \<Rightarrow> modenv \<Rightarrow> ('z mod_rt_ext curl_rt_ext vm_rt_ext) job_sem \<Rightarrow> 'z mod_rt_scheme sysenv \<Rightarrow> string list \<Rightarrow> string list \<Rightarrow> cli
       \<Rightarrow> 'z mod_rt_scheme \<Rightarrow> (int \<times> 'z mod_rt_scheme) res option" where
  "main_run E V M J S args argv c w = (case ijNewRuntimeOptions E V (sys_boot S args) (runOptions c) w of
     Inl e \<Rightarrow> Some (Inl e)
   | Inr (qrt, w) \<Rightarrow>
       let finish = (\<lambda>exit_code w. Some (bindE (ijFreeRuntime (sys_handles S) (sys_teardown S) qrt w) (\<lambda>w. Inr (exit_code, w)))) in
       if empty_run (flags c) then finish EXIT_SUCCESS w
       else case main_scripts E V M argv c w of
           None \<Rightarrow> None
         | Some (Inl e) \<Rightarrow> Some (Inl e)
         | Some (Inr (ok, w)) \<Rightarrow>
             if \<not> ok then finish EXIT_FAILURE w
             else case ijRun E V J (sys_poll S) (sys_alive S) qrt w of
                 None \<Rightarrow> None
               | Some (Inl e) \<Rightarrow> Some (Inl e)
               | Some (Inr w) \<Rightarrow> finish EXIT_SUCCESS w)"

text \<open>The result is the exit code, the world, and the files and messages (None when the minifier gave
  up in the middle of the tree).\<close>

definition main ::
    "jsenv \<Rightarrow> vmenv \<Rightarrow> modenv \<Rightarrow> ('z mod_rt_ext curl_rt_ext vm_rt_ext) job_sem \<Rightarrow> 'z mod_rt_scheme sysenv \<Rightarrow> clienv \<Rightarrow> string list
       \<Rightarrow> walk \<Rightarrow> 'z mod_rt_scheme \<Rightarrow> (int \<times> 'z mod_rt_scheme \<times> walk option) res option" where
  "main E V M J S C argv f w = (let args = ijSetupArgs C argv in case options_loop C argv start_cli of
     Inl (s, exit_code) \<Rightarrow> Some (bindE (run_stop C s f) (\<lambda>r. Inr (case r of
         Inl msg \<Rightarrow> (1, w, None) | Inr f \<Rightarrow> (exit_code, w, Some f))))
   | Inr c \<Rightarrow> map_option (\<lambda>r. bindE r (\<lambda>(exit_code, w). Inr (exit_code, w, Some f))) (main_run E V M J S args argv c w))"

section \<open>Properties of project creation\<close>

definition copied :: "string \<Rightarrow> (string \<times> string) list \<Rightarrow> walk \<Rightarrow> walk" where
  "copied path ps w = w\<lparr>files := (\<lambda>f. case map_of (map prod.swap ps) f of Some s \<Rightarrow> files w (path @ s) | None \<Rightarrow> files w f)\<rparr>"

lemma copy_all:
  assumes "\<And>f. can_write C f" "\<forall>(s, d)\<in>set ps. files w (path @ s) \<noteq> None"
    and "\<And>s. path @ s \<notin> set (map snd ps)" "distinct (map snd ps)"
  shows "forE (\<lambda>(s, d). copy_file C (path @ s) d) ps w = Inr (copied path ps w)"
  using assms(2-4)
proof (induction ps arbitrary: w)
  case Nil then show ?case by (simp add: copied_def)
next
  case (Cons p ps)
  obtain s d where p: "p = (s, d)" by (cases p)
  obtain bs where bs: "files w (path @ s) = Some bs" using Cons.prems(1) p by auto
  let ?w = "w\<lparr>files := (files w)(d \<mapsto> bs)\<rparr>"
  have keep: "files ?w (path @ t) = files w (path @ t)" if "(t, e) \<in> set (p # ps)" for t e
  proof -
    have "path @ t \<noteq> d" using Cons.prems(2) [of t] p by auto
    then show ?thesis by simp
  qed
  have src: "\<forall>(s, d)\<in>set ps. files ?w (path @ s) \<noteq> None"
  proof
    fix q assume q: "q \<in> set ps"
    obtain t e where te: "q = (t, e)" by (cases q)
    show "case q of (s, d) \<Rightarrow> files ?w (path @ s) \<noteq> None"
      using bspec [OF Cons.prems(1), of q] keep [of t e] q te by simp
  qed
  have "forE (\<lambda>(s, d). copy_file C (path @ s) d) ps ?w = Inr (copied path ps ?w)"
    by (rule Cons.IH [OF src]) (use Cons.prems(2,3) in auto)
  moreover have "copied path ps ?w = copied path (p # ps) w"
  proof -
    have "d \<notin> set (map snd ps)" using Cons.prems(3) p by simp
    then have d: "map_of (map prod.swap ps) d = None" by (force simp: map_of_eq_None_iff)
    have "(case map_of (map prod.swap ps) f of Some t \<Rightarrow> files ?w (path @ t) | None \<Rightarrow> files ?w f) =
      (case map_of (map prod.swap (p # ps)) f of Some t \<Rightarrow> files w (path @ t) | None \<Rightarrow> files w f)" for f
    proof (cases "f = d")
      case True then show ?thesis using d p bs by simp
    next
      case False
      show ?thesis
      proof (cases "map_of (map prod.swap ps) f")
        case None then show ?thesis using False p by simp
      next
        case (Some t)
        then have "(t, f) \<in> set (p # ps)" by (auto dest: map_of_SomeD)
        then show ?thesis using Some False p keep [of t f] by simp
      qed
    qed
    then show ?thesis by (simp add: copied_def)
  qed
  moreover have "copy_file C (path @ s) d w = Inr ?w" using bs assms(1) by (simp add: copy_file_def write_file_def)
  ultimately show ?case using p by simp
qed

lemma path_buf_fits: "length path + length s < 256 \<Longrightarrow> path_buf path s = Inr (path @ s)"
  by (simp add: path_buf_def strcat_in_def)

lemma bufs_fit:
  "(\<And>s d. (s, d) \<in> set ps \<Longrightarrow> length path + length s < 256) \<Longrightarrow>
     forE (\<lambda>(s, _) w. bindE (path_buf path s) (\<lambda>_. Inr w)) ps w = Inr w \<and>
     forE (\<lambda>(s, d) w. bindE (path_buf path s) (\<lambda>src. copy_file C src d w)) ps w = forE (\<lambda>(s, d). copy_file C (path @ s) d) ps w"
proof (induction ps arbitrary: w)
  case (Cons p ps)
  obtain s d where p: "p = (s, d)" by (cases p)
  have b: "path_buf path s = Inr (path @ s)" using Cons.prems [of s d] p path_buf_fits by simp
  have "forE (\<lambda>(s, _) w. bindE (path_buf path s) (\<lambda>_. Inr w)) ps v = Inr v \<and>
     forE (\<lambda>(s, d) w. bindE (path_buf path s) (\<lambda>src. copy_file C src d w)) ps v = forE (\<lambda>(s, d). copy_file C (path @ s) d) ps v" for v
    by (rule Cons.IH) (use Cons.prems in auto)
  then show ?case using b p by (cases "copy_file C (path @ s) d w") simp_all
qed simp


definition install_world :: walk where
  "install_world = walk_world\<lparr>files := map_of (map (\<lambda>(s, d). (''/i'' @ s, bytes_of s)) (type_files @ module_files))\<rparr>"


text \<open>The launch configuration that is written for the editor passes the option and its value as one
  word; the command line takes it for an unknown option.\<close>

lemma launch_argument_unknown:
  "options_loop C [''ijjs-cli'', ''--stack-size 1048576'', script] start_cli =
     Inl (Report (''ijjs: unknown option --stack-size 1048576'' @ [CHR 0x0A]), EXIT_INVALID_ARG)"
  by (subst options_loop.simps) (simp add: option_eval start_cli_def report_unknown_option_def)

text \<open>An option name is matched as an abbreviation; one of length zero matches the first.\<close>

lemma empty_name_is_version: "options_loop C (prog # ''--=x'' # rest) start_cli = Inl (PrintVersion, EXIT_SUCCESS)"
  by (subst options_loop.simps) (simp add: option_eval start_cli_def)

text \<open>Without a script and without an expression the file name is a NULL pointer: the program crashes
  after it has created the runtime.\<close>

lemma no_script_crashes:
  assumes "ijNewRuntimeOptions E V (sys_boot S (ijSetupArgs C [prog])) ijDefaultOptions w = Inr (qrt, w1)"
  shows "main E V M J S C [prog] f w = Some (Inl NullDeref)"
proof -
  have "options_loop C [prog] start_cli = Inr start_cli" by (subst options_loop.simps) (simp add: start_cli_def)
  moreover have "main_run E V M J S (ijSetupArgs C [prog]) [prog] start_cli w = Some (Inl NullDeref)"
    using assms by (simp add: main_run_def main_scripts_def main_input_def start_cli_def Let_def)
  ultimately show ?thesis by (simp add: main_def)
qed

end
