(* ===== verification/Timers.thy ===== *)
theory Timers
  imports Jobs
begin

text \<open>
  ijtimers.c: setTimeout, setInterval, clearTimeout, clearInterval. A timer object holds the
  callback, its arguments and, while it can still fire, a reference to itself; libuv holds
  the expiry time and the repeat value.
\<close>

section \<open>Data\<close>

text \<open>\<open>tm_run\<close> is libuv's part of the handle: timeout and repeat of an active timer.\<close>

record IJJSTimer =
  tm_interval :: int
  tm_obj :: jsval
  tm_func :: jsval
  tm_argv :: "jsval list"
  tm_run :: "(int \<times> int) option"

record timer_rt = rt +
  timers :: "nat \<Rightarrow> IJJSTimer"

definition ijjs_timer_class_id :: nat where "ijjs_timer_class_id = 11"

definition tm_upd :: "nat \<Rightarrow> (IJJSTimer \<Rightarrow> IJJSTimer) \<Rightarrow> 'z timer_rt_scheme \<Rightarrow> 'z timer_rt_scheme" where
  "tm_upd p f w = w\<lparr>timers := (timers w)(p := f (timers w p))\<rparr>"

section \<open>Operations\<close>

definition ijClearTimer :: "nat \<Rightarrow> 'z timer_rt_scheme \<Rightarrow> 'z timer_rt_scheme res" where
  "ijClearTimer p w =
     bindE (deref p w) (\<lambda>w.
     bindE (JS_FreeValue (tm_func (timers w p)) w) (\<lambda>w.
     let w = tm_upd p (\<lambda>th. th\<lparr>tm_func := JS_UNDEFINED\<rparr>) w in
     bindE (forE JS_FreeValue (tm_argv (timers w p)) w) (\<lambda>w.
     let w = tm_upd p (\<lambda>th. th\<lparr>tm_argv := []\<rparr>) w;
         obj = tm_obj (timers w p);
         w = tm_upd p (\<lambda>th. th\<lparr>tm_obj := JS_UNDEFINED\<rparr>) w
     in JS_FreeValue obj w)))"

definition ijCallTimer :: "jsenv \<Rightarrow> nat \<Rightarrow> 'z timer_rt_scheme \<Rightarrow> 'z timer_rt_scheme res" where
  "ijCallTimer E p w =
     bindE (deref p w) (\<lambda>w.
     let func1 = tm_func (timers w p); argv = tm_argv (timers w p); w = JS_DupValue func1 w in
     bindE (JS_Call E func1 argv w) (\<lambda>(ret, w).
     bindE (JS_FreeValue func1 w) (\<lambda>w.
     bindE (if JS_IsException ret then ijDumpError E w else Inr w) (\<lambda>w.
     JS_FreeValue ret w))))"

definition uvTimerClose :: "nat \<Rightarrow> 'z timer_rt_scheme \<Rightarrow> 'z timer_rt_scheme res" where
  "uvTimerClose p w = bindE (CHECK (p \<noteq> 0) w) (je_free p)"

definition uvTimerCb ::
    "jsenv \<Rightarrow> 'z timer_rt_ext job_sem \<Rightarrow> nat \<Rightarrow> 'z timer_rt_scheme
       \<Rightarrow> 'z timer_rt_scheme res option" where
  "uvTimerCb E J p w = (case bindE (CHECK (p \<noteq> 0) w) (deref p) of
     Inl c \<Rightarrow> Some (Inl c)
   | Inr w \<Rightarrow>
      (case ijExecuteJobs E J w of
         None \<Rightarrow> None
       | Some r \<Rightarrow> Some (bindE r (\<lambda>w.
           bindE (ijCallTimer E p w) (\<lambda>w.
           if tm_interval (timers w p) = 0 then ijClearTimer p w else Inr w)))))"

definition ijTimerFinalizer :: "jsval \<Rightarrow> 'z timer_rt_scheme \<Rightarrow> 'z timer_rt_scheme res" where
  "ijTimerFinalizer val w =
     (let th = JS_GetOpaque val ijjs_timer_class_id w
      in if th \<noteq> 0 then bindE (ijClearTimer th w) (uv_close th 0) else Inr w)"

definition ijTimerMark :: "jsval \<Rightarrow> 'z timer_rt_scheme \<Rightarrow> jsval list" where
  "ijTimerMark val w =
     (let th = JS_GetOpaque val ijjs_timer_class_id w
      in if th \<noteq> 0 then tm_func (timers w th) # tm_argv (timers w th) else [])"

text \<open>libuv takes the delay as an unsigned 64-bit number.\<close>

definition uv_timer_start ::
    "nat \<Rightarrow> int \<Rightarrow> int \<Rightarrow> 'z timer_rt_scheme \<Rightarrow> 'z timer_rt_scheme" where
  "uv_timer_start p timeout repeat =
     tm_upd p (\<lambda>th. th\<lparr>tm_run := Some (timeout mod 2 ^ 64, repeat mod 2 ^ 64)\<rparr>)"

definition uv_timer_stop :: "nat \<Rightarrow> 'z timer_rt_scheme \<Rightarrow> 'z timer_rt_scheme" where
  "uv_timer_stop p = tm_upd p (\<lambda>th. th\<lparr>tm_run := None\<rparr>)"

text \<open>
  The block is sized for \<open>argc - 2\<close> arguments; QuickJS passes the caller's argument count,
  so with one argument the block is one value short of the structure itself and the writes
  to its last fields fall outside it.
\<close>

definition ijSetTimeout ::
    "jsenv \<Rightarrow> jsval list \<Rightarrow> int \<Rightarrow> 'z timer_rt_scheme \<Rightarrow> (jsval \<times> 'z timer_rt_scheme) res" where
  "ijSetTimeout E argv magic w =
     (let func = argn 0 argv in
      if \<not> JS_IsFunction func w then Inr (JS_ThrowTypeError ''not a function'' w)
      else case JS_ToInt64 E (argn 1 argv) w of
        (None, w) \<Rightarrow> Inr (JS_EXCEPTION, w)
      | (Some delay, w) \<Rightarrow>
        (case JS_NewObjectClass ijjs_timer_class_id w of (obj, w) \<Rightarrow>
         if JS_IsException obj then Inr (obj, w)
         else (let nargs = int (length argv) - 2 in
           case je_calloc w of (th, w) \<Rightarrow>
           if th = 0 then bindE (JS_FreeValue obj w) (\<lambda>w. Inr (JS_EXCEPTION, w))
           else if nargs < 0 then Inl BufferOverflow
           else
             (let w = uv_handle_init th 0 w;
                  args = drop 2 argv;
                  w = fold JS_DupValue args (JS_DupValue func (JS_DupValue obj w));
                  w = tm_upd th (\<lambda>_. \<lparr>tm_interval = magic, tm_obj = obj, tm_func = func,
                        tm_argv = args, tm_run = None\<rparr>) w;
                  w = uv_timer_start th delay (if magic \<noteq> 0 then delay else 0) w
              in Inr (obj, JS_SetOpaque obj th w)))))"

definition ijClearTimeout ::
    "jsval list \<Rightarrow> 'z timer_rt_scheme \<Rightarrow> (jsval \<times> 'z timer_rt_scheme) res" where
  "ijClearTimeout argv w = (case JS_GetOpaque2 (argn 0 argv) ijjs_timer_class_id w of
     (th, w) \<Rightarrow>
       if th = 0 then Inr (JS_EXCEPTION, w)
       else bindE (ijClearTimer th (uv_timer_stop th w)) (\<lambda>w. Inr (JS_UNDEFINED, w)))"

text \<open>
  Expiry, as libuv runs it: the handle is stopped, started again if it repeats, and then its
  callback runs.
\<close>

definition uv_timer_expire ::
    "jsenv \<Rightarrow> 'z timer_rt_ext job_sem \<Rightarrow> nat \<Rightarrow> 'z timer_rt_scheme
       \<Rightarrow> 'z timer_rt_scheme res option" where
  "uv_timer_expire E J p w = (case tm_run (timers w p) of
     None \<Rightarrow> Some (Inr w)
   | Some (timeout, repeat) \<Rightarrow>
       uvTimerCb E J p (if repeat \<noteq> 0 then uv_timer_start p repeat repeat w
                        else uv_timer_stop p w))"

lemmas timer_defs [handler_defs] = tm_upd_def ijClearTimer_def ijCallTimer_def
  uvTimerClose_def uvTimerCb_def ijTimerFinalizer_def ijTimerMark_def uv_timer_start_def
  uv_timer_stop_def ijSetTimeout_def ijClearTimeout_def uv_timer_expire_def

section \<open>What a timer holds\<close>

definition tm_held :: "IJJSTimer \<Rightarrow> jsval list" where
  "tm_held th = tm_func th # tm_argv th @ [tm_obj th]"

definition tm_cleared :: "IJJSTimer \<Rightarrow> IJJSTimer" where
  "tm_cleared th = th\<lparr>tm_func := JS_UNDEFINED, tm_argv := [], tm_obj := JS_UNDEFINED\<rparr>"

lemma timers_more: "rt.more w' = rt.more w \<Longrightarrow> timers w' = timers w"
  by (cases w; cases w') simp

lemma unobs_timers: "unobs w w' \<Longrightarrow> timers w' = timers w"
  by (rule timers_more) (simp add: unobs_def)

lemma timers_refs_upd: "w\<lparr>timers := t, refs := r\<rparr> = w\<lparr>refs := r, timers := t\<rparr>"
  by (rule timer_rt.equality) simp_all

lemma held_cleared: "tm_held (tm_cleared th) = [JS_UNDEFINED, JS_UNDEFINED]"
  by (simp add: tm_held_def tm_cleared_def)

lemma run_cleared [simp]: "tm_run (tm_cleared th) = tm_run th"
  by (simp add: tm_cleared_def)

lemma owns_undef [simp]: "owns [JS_UNDEFINED, JS_UNDEFINED] w"
  by (simp add: owns_def)

lemma ijClearTimer_eq:
  assumes "p \<noteq> 0" "blk w p \<noteq> NoBlock" "owns (tm_held (timers w p)) w"
  shows "ijClearTimer p w = Inr (w\<lparr>
    refs := (\<lambda>n. refs w n - count_list (tm_held (timers w p)) (JS_Ref n)),
    timers := (timers w)(p := tm_cleared (timers w p))\<rparr>)"
proof -
  let ?th = "timers w p"
  let ?w1 = "w\<lparr>refs := dec_ref (tm_func ?th) (refs w)\<rparr>"
  let ?w2 = "?w1\<lparr>refs := (\<lambda>n. refs ?w1 n - count_list (tm_argv ?th) (JS_Ref n))\<rparr>"
  have f: "owned (tm_func ?th) 1 w" "owns (tm_argv ?th @ [tm_obj ?th]) ?w1"
    using owns_Cons owns_tail assms(3) unfolding tm_held_def by blast+
  note a = owns_append [OF f(2)]
  have "forE JS_FreeValue (tm_argv ?th) (?w1\<lparr>timers := t\<rparr>) = Inr (?w2\<lparr>timers := t\<rparr>)" for t
    using forE_free [of "tm_argv ?th" "?w1\<lparr>timers := t\<rparr>"] a(1) by (simp add: owns_def)
  moreover have "JS_FreeValue (tm_obj ?th) (?w2\<lparr>timers := t\<rparr>) =
      Inr (?w2\<lparr>refs := dec_ref (tm_obj ?th) (refs ?w2), timers := t\<rparr>)" for t
  proof -
    have "owned (tm_obj ?th) 1 (?w2\<lparr>timers := t\<rparr>)"
      using owns_Cons [OF a(2)] by (subst owned_cong [where w = ?w2]) simp_all
    from JS_FreeValue_eq [OF this] show ?thesis by (simp add: timers_refs_upd)
  qed
  moreover have "dec_ref (tm_obj ?th) (\<lambda>n. dec_ref (tm_func ?th) (refs w) n -
      count_list (tm_argv ?th) (JS_Ref n))
      = (\<lambda>n. refs w n - count_list (tm_held ?th) (JS_Ref n))"
    by (rule ext) (simp add: dec_ref_def tm_held_def count_list_append)
  ultimately show ?thesis
    using assms(1,2) JS_FreeValue_eq [OF f(1)]
    by (simp add: ijClearTimer_def deref_def tm_upd_def tm_cleared_def)
qed

text \<open>A live timer whose callback is a user function, with no job pending.\<close>

definition timer_live :: "nat \<Rightarrow> nat \<Rightarrow> 'z timer_rt_scheme \<Rightarrow> bool" where
  "timer_live p f w \<longleftrightarrow> p \<noteq> 0 \<and> p \<le> tick w \<and> blk w p = JeBlock \<and> fresh_blk w \<and> jobs w = [] \<and>
     tm_func (timers w p) = JS_Ref f \<and> funs w f = UserFun"

lemma ijCallTimer_live:
  assumes "jsenv_ok E" "timer_live p f w"
  shows "\<exists>w'. ijCallTimer E p w = Inr w' \<and>
    unobs (w\<lparr>calls := calls w @ [(JS_Ref f, tm_argv (timers w p))]\<rparr>) w'"
  using call_release [of w E f "tm_argv (timers w p)"] assms
  by (simp add: ijCallTimer_def timer_live_def deref_def Let_def)

lemma uvTimerCb_live:
  assumes "jsenv_ok E" "timer_live p f w"
  shows "\<exists>w'. uvTimerCb E J p w =
      Some (if tm_interval (timers w p) = 0 then ijClearTimer p w' else Inr w') \<and>
    unobs (w\<lparr>calls := calls w @ [(JS_Ref f, tm_argv (timers w p))]\<rparr>) w'"
proof -
  obtain w' where w': "ijCallTimer E p w = Inr w'"
    "unobs (w\<lparr>calls := calls w @ [(JS_Ref f, tm_argv (timers w p))]\<rparr>) w'"
    using ijCallTimer_live [OF assms] by blast
  have "ijExecuteJobs E J w = Some (Inr w)"
    using assms(2) by (subst ijExecuteJobs.simps)
      (simp add: JS_ExecutePendingJob_def timer_live_def)
  then show ?thesis
    using w' unobs_timers [OF w'(2)] assms(2)
    by (auto simp: uvTimerCb_def CHECK_def deref_def timer_live_def)
qed

section \<open>The invariant of a timer\<close>

definition timer_inv :: "nat \<Rightarrow> nat \<Rightarrow> 'z timer_rt_scheme \<Rightarrow> bool" where
  "timer_inv ob p w \<longleftrightarrow>
     p \<noteq> 0 \<and> p \<le> tick w \<and> blk w p = JeBlock \<and> fresh_blk w \<and> jobs w = [] \<and>
     opaque w ob = (ijjs_timer_class_id, p) \<and> hnd w p 0 = HOpen \<and> hnd w p 1 = HNone \<and>
     owns (tm_held (timers w p)) w \<and>
     (tm_run (timers w p) \<noteq> None \<longrightarrow> tm_obj (timers w p) = JS_Ref ob \<and>
        (\<exists>f. tm_func (timers w p) = JS_Ref f \<and> funs w f = UserFun))"

lemma held_run: "tm_held (th\<lparr>tm_run := r\<rparr>) = tm_held th"
  by (simp add: tm_held_def)

lemma timer_inv_unobs: "unobs w w' \<Longrightarrow> timer_inv ob p w \<Longrightarrow> timer_inv ob p w'"
proof -
  assume u: "unobs w w'" and i: "timer_inv ob p w"
  have "owns (tm_held (timers w p)) w'"
    using u i owns_cong [of w' w "tm_held (timers w p)"] by (simp add: unobs_def timer_inv_def)
  then show "timer_inv ob p w'"
    using u i unobs_fresh [OF u] unobs_timers [OF u]
    by (simp add: timer_inv_def unobs_def)
qed

lemma timer_inv_clear:
  assumes "timer_inv ob p w" "tm_run (timers w p) = None"
  shows "\<exists>w'. ijClearTimer p w = Inr w' \<and> timer_inv ob p w' \<and>
    timers w' = (timers w)(p := tm_cleared (timers w p))"
proof -
  have "ijClearTimer p w = Inr (w\<lparr>
      refs := (\<lambda>n. refs w n - count_list (tm_held (timers w p)) (JS_Ref n)),
      timers := (timers w)(p := tm_cleared (timers w p))\<rparr>)"
    using assms(1) by (intro ijClearTimer_eq) (auto simp: timer_inv_def)
  then show ?thesis
    using assms by (auto simp: timer_inv_def fresh_blk_def held_cleared)
qed

lemma timer_inv_run:
  assumes "timer_inv ob p w" "r = None \<or> tm_run (timers w p) \<noteq> None"
  shows "timer_inv ob p (w\<lparr>timers := (timers w)(p := (timers w p)\<lparr>tm_run := r\<rparr>)\<rparr>)"
proof -
  have "owns (tm_held (timers w p))
      (w\<lparr>timers := (timers w)(p := (timers w p)\<lparr>tm_run := r\<rparr>)\<rparr>)"
    using assms(1) by (subst owns_cong [where w = w]) (simp_all add: timer_inv_def)
  then show ?thesis
    using assms by (auto simp: timer_inv_def fresh_blk_def held_run)
qed

lemma timer_inv_live: "timer_inv ob p w \<Longrightarrow> tm_run (timers w p) \<noteq> None \<Longrightarrow> \<exists>f. timer_live p f w"
  by (auto simp: timer_inv_def timer_live_def)

lemma timer_inv_calls: "timer_inv ob p w \<Longrightarrow> timer_inv ob p (w\<lparr>calls := c\<rparr>)"
proof -
  assume i: "timer_inv ob p w"
  then have "owns (tm_held (timers w p)) (w\<lparr>calls := c\<rparr>)"
    by (subst owns_cong [where w = w]) (simp_all add: timer_inv_def)
  with i show ?thesis by (simp add: timer_inv_def fresh_blk_def)
qed

definition rearmed :: "IJJSTimer \<Rightarrow> IJJSTimer" where
  "rearmed th = th\<lparr>tm_run := (case tm_run th of None \<Rightarrow> None
     | Some (t, r) \<Rightarrow> if r \<noteq> 0 then Some (r mod 2 ^ 64, r mod 2 ^ 64) else None)\<rparr>"

lemma expire_live:
  assumes "jsenv_ok E" "timer_live p f w" "tm_run (timers w p) \<noteq> None"
  shows "\<exists>w'. uv_timer_expire E J p w =
      Some (if tm_interval (timers w p) = 0 then ijClearTimer p w' else Inr w') \<and>
    unobs (w\<lparr>timers := (timers w)(p := rearmed (timers w p)),
             calls := calls w @ [(JS_Ref f, tm_argv (timers w p))]\<rparr>) w'"
proof -
  obtain t r where x: "tm_run (timers w p) = Some (t, r)" using assms(3) by auto
  let ?w = "w\<lparr>timers := (timers w)(p := rearmed (timers w p))\<rparr>"
  have "uv_timer_expire E J p w = uvTimerCb E J p ?w"
    by (simp add: uv_timer_expire_def x rearmed_def uv_timer_start_def uv_timer_stop_def
        tm_upd_def)
  moreover have "timer_live p f ?w"
    using assms(2) by (simp add: timer_live_def fresh_blk_def rearmed_def)
  from uvTimerCb_live [OF assms(1) this, of J]
  have "\<exists>w'. uvTimerCb E J p ?w = Some (if tm_interval (timers w p) = 0 then ijClearTimer p w'
      else Inr w') \<and> unobs (?w\<lparr>calls := calls w @ [(JS_Ref f, tm_argv (timers w p))]\<rparr>) w'"
    by (simp add: rearmed_def)
  ultimately show ?thesis by simp
qed

text \<open>Expiry keeps the invariant and clears a timer that does not repeat.\<close>

lemma timer_inv_expire:
  assumes "jsenv_ok E" "timer_inv ob p w"
    and "tm_interval (timers w p) = 0 \<longrightarrow> (\<forall>t r. tm_run (timers w p) = Some (t, r) \<longrightarrow> r = 0)"
  shows "\<exists>w'. uv_timer_expire E J p w = Some (Inr w') \<and> timer_inv ob p w' \<and>
    tm_interval (timers w' p) = tm_interval (timers w p) \<and>
    (tm_interval (timers w p) = 0 \<longrightarrow> tm_run (timers w' p) = None)"
proof (cases "tm_run (timers w p) = None")
  case False
  then obtain f where f: "timer_live p f w" using timer_inv_live [OF assms(2)] by auto
  obtain w2 where w2: "uv_timer_expire E J p w =
      Some (if tm_interval (timers w p) = 0 then ijClearTimer p w2 else Inr w2)"
    "unobs (w\<lparr>timers := (timers w)(p := rearmed (timers w p)),
             calls := calls w @ [(JS_Ref f, tm_argv (timers w p))]\<rparr>) w2"
    using expire_live [OF assms(1) f False] by blast
  have "timer_inv ob p (w\<lparr>timers := (timers w)(p := rearmed (timers w p))\<rparr>)"
    unfolding rearmed_def by (rule timer_inv_run [OF assms(2)]) (simp add: False)
  then have i2: "timer_inv ob p w2"
    by (rule timer_inv_unobs [OF w2(2) timer_inv_calls])
  have t2: "timers w2 p = rearmed (timers w p)" using unobs_timers [OF w2(2)] by simp
  show ?thesis
  proof (cases "tm_interval (timers w p) = 0")
    case True
    then have n: "tm_run (timers w2 p) = None"
      using assms(3) by (auto simp: t2 rearmed_def split: option.splits)
    from timer_inv_clear [OF i2 n] True show ?thesis
      using t2 n by (auto simp: w2(1) tm_cleared_def rearmed_def)
  qed (use i2 t2 in \<open>simp add: w2(1) rearmed_def\<close>)
qed (use assms in \<open>simp add: uv_timer_expire_def\<close>)

section \<open>Runs of a timer\<close>

text \<open>
  \<open>TDrop\<close> is the JS side giving up a reference of the timer object that it owns (one not
  held by the timer itself); \<open>TClear\<close> is clearTimeout, which needs such a reference.
\<close>

datatype timer_act = TExpire | TClear | TDrop

definition js_side :: "nat \<Rightarrow> nat \<Rightarrow> 'z timer_rt_scheme \<Rightarrow> bool" where
  "js_side ob p w = (count_list (tm_held (timers w p)) (JS_Ref ob) < refs w ob)"

fun timer_do ::
    "jsenv \<Rightarrow> 'z timer_rt_ext job_sem \<Rightarrow> nat \<Rightarrow> nat \<Rightarrow> timer_act \<Rightarrow> 'z timer_rt_scheme
       \<Rightarrow> 'z timer_rt_scheme res option" where
  "timer_do E J ob p TExpire w = uv_timer_expire E J p w"
| "timer_do E J ob p TClear w =
     (if js_side ob p w then Some (bindE (ijClearTimeout [JS_Ref ob] w) (\<lambda>(_, w). Inr w))
      else Some (Inr w))"
| "timer_do E J ob p TDrop w =
     (if js_side ob p w then Some (JS_FreeValue (JS_Ref ob) w) else Some (Inr w))"

fun timer_run ::
    "jsenv \<Rightarrow> 'z timer_rt_ext job_sem \<Rightarrow> nat \<Rightarrow> nat \<Rightarrow> timer_act list \<Rightarrow> 'z timer_rt_scheme
       \<Rightarrow> 'z timer_rt_scheme res option" where
  "timer_run E J ob p [] w = Some (Inr w)"
| "timer_run E J ob p (a # as) w = (case timer_do E J ob p a w of
     None \<Rightarrow> None | Some (Inl c) \<Rightarrow> Some (Inl c) | Some (Inr w) \<Rightarrow> timer_run E J ob p as w)"

text \<open>A timer that is not an interval never repeats.\<close>

definition tm_shape :: "IJJSTimer \<Rightarrow> bool" where
  "tm_shape th \<longleftrightarrow> (tm_interval th = 0 \<longrightarrow> (\<forall>t r. tm_run th = Some (t, r) \<longrightarrow> r = 0))"

lemma timer_inv_clearTimeout:
  assumes "timer_inv ob p w"
  shows "\<exists>w'. ijClearTimeout [JS_Ref ob] w = Inr (JS_UNDEFINED, w') \<and> timer_inv ob p w' \<and>
    timers w' p = tm_cleared ((timers w p)\<lparr>tm_run := None\<rparr>)"
proof -
  let ?w = "w\<lparr>timers := (timers w)(p := (timers w p)\<lparr>tm_run := None\<rparr>)\<rparr>"
  have i: "timer_inv ob p ?w" by (rule timer_inv_run [OF assms]) simp
  have g: "JS_GetOpaque2 (JS_Ref ob) ijjs_timer_class_id w = (p, w)" "p \<noteq> 0"
    using assms by (simp_all add: timer_inv_def JS_GetOpaque2_def)
  obtain w' where "ijClearTimer p ?w = Inr w'" "timer_inv ob p w'"
    "timers w' = (timers ?w)(p := tm_cleared (timers ?w p))"
    using timer_inv_clear [OF i] by auto
  then show ?thesis
    using g by (simp add: ijClearTimeout_def argn_def uv_timer_stop_def tm_upd_def)
qed

lemma timer_inv_drop:
  assumes "timer_inv ob p w" "js_side ob p w"
  shows "\<exists>w'. JS_FreeValue (JS_Ref ob) w = Inr w' \<and> timer_inv ob p w' \<and> timers w' = timers w"
proof -
  have "count_list (tm_held (timers w p)) (JS_Ref n) \<le>
      ((refs w)(ob := refs w ob - 1)) n" for n
    using assms by (cases "n = ob") (auto simp: timer_inv_def js_side_def owns_def)
  then have "owns (tm_held (timers w p)) (w\<lparr>refs := (refs w)(ob := refs w ob - 1)\<rparr>)"
    using assms(1) by (simp add: owns_def timer_inv_def)
  then show ?thesis
    using assms by (auto simp: timer_inv_def js_side_def fresh_blk_def)
qed

lemma timer_do_safe:
  assumes "jsenv_ok E" "timer_inv ob p w" "tm_shape (timers w p)"
  shows "\<exists>w'. timer_do E J ob p a w = Some (Inr w') \<and> timer_inv ob p w' \<and>
    tm_shape (timers w' p)"
proof (cases a)
  case TExpire
  then show ?thesis
    using timer_inv_expire [OF assms(1,2), of J] assms(3) by (auto simp: tm_shape_def)
next
  case TClear
  then show ?thesis
    using timer_inv_clearTimeout [OF assms(2)] assms by (auto simp: tm_shape_def)
next
  case TDrop
  then show ?thesis
    using timer_inv_drop [OF assms(2)] assms by (auto simp: tm_shape_def
        simp del: JS_FreeValue.simps)
qed

lemma timer_run_safe:
  assumes "jsenv_ok E" "timer_inv ob p w" "tm_shape (timers w p)"
  shows "\<exists>w'. timer_run E J ob p as w = Some (Inr w') \<and> timer_inv ob p w'"
  using assms(2,3)
proof (induction as arbitrary: w)
  case (Cons a as)
  then obtain w1 where "timer_do E J ob p a w = Some (Inr w1)" "timer_inv ob p w1"
    "tm_shape (timers w1 p)"
    using timer_do_safe [OF assms(1)] by blast
  then show ?case using Cons.IH by simp
qed simp

text \<open>Once nobody holds the object, it is not running and its finalizer can close it.\<close>

lemma timer_collect:
  assumes "timer_inv ob p w" "refs w ob = 0"
  shows "tm_run (timers w p) = None"
    "\<exists>w1 w2. ijTimerFinalizer (JS_Ref ob) w = Inr w1 \<and> hnd w1 p 0 = HClosing \<and>
       uvTimerClose p (uv_finish_close p 0 w1) = Inr w2 \<and> blk w2 p = NoBlock"
proof -
  have "count_list (tm_held (timers w p)) (JS_Ref ob) = 0"
    using assms by (auto simp: timer_inv_def owns_def dest: spec [of _ ob])
  then have "tm_obj (timers w p) \<noteq> JS_Ref ob"
    by (auto simp: tm_held_def count_list_append split: if_splits)
  then show n: "tm_run (timers w p) = None"
    using assms(1) by (cases "tm_run (timers w p)") (auto simp: timer_inv_def)
  obtain w' where w': "ijClearTimer p w = Inr w'" "timer_inv ob p w'"
    using timer_inv_clear [OF assms(1) n] by blast
  have "JS_GetOpaque (JS_Ref ob) ijjs_timer_class_id w = p" "p \<noteq> 0"
    using assms(1) by (simp_all add: timer_inv_def)
  then show "\<exists>w1 w2. ijTimerFinalizer (JS_Ref ob) w = Inr w1 \<and> hnd w1 p 0 = HClosing \<and>
      uvTimerClose p (uv_finish_close p 0 w1) = Inr w2 \<and> blk w2 p = NoBlock"
    using w' by (simp add: ijTimerFinalizer_def uv_close_def timer_inv_def uvTimerClose_def
        uv_finish_close_def je_free_def free_block_def handles_quiet_def CHECK_def)
qed

section \<open>Setting a timer\<close>

text \<open>What the caller of setTimeout has: a user function and arguments, all older than the
  timer, with room for the object and the structure.\<close>

definition can_set :: "jsenv \<Rightarrow> nat \<Rightarrow> jsval \<Rightarrow> int \<Rightarrow> jsval list \<Rightarrow> 'z timer_rt_scheme \<Rightarrow> bool" where
  "can_set E f d delay args w \<longleftrightarrow>
     jsenv_ok E \<and> fresh_blk w \<and> jobs w = [] \<and> \<not> oom w (tick w) \<and> \<not> oom w (Suc (tick w)) \<and>
     f < tick w \<and> funs w f = UserFun \<and> JS_JUNK \<notin> set args \<and>
     (\<forall>n. JS_Ref n \<in> set args \<longrightarrow> n < tick w) \<and> to_i64 E d = Some delay"

definition new_timer :: "nat \<Rightarrow> int \<Rightarrow> int \<Rightarrow> jsval list \<Rightarrow> nat \<Rightarrow> IJJSTimer" where
  "new_timer f magic delay args ob = \<lparr>tm_interval = magic, tm_obj = JS_Ref ob,
     tm_func = JS_Ref f, tm_argv = args,
     tm_run = Some (delay mod 2 ^ 64, (if magic \<noteq> 0 then delay else 0) mod 2 ^ 64)\<rparr>"

lemma count_fresh: "(\<And>n. JS_Ref n \<in> set vs \<Longrightarrow> n < t) \<Longrightarrow> count_list vs (JS_Ref t) = 0"
  by (metis count_notin less_irrefl)

lemma set_timeout_inv:
  assumes "can_set E f d delay args w"
  shows "\<exists>p w'. ijSetTimeout E (JS_Ref f # d # args) magic w = Inr (JS_Ref (tick w), w') \<and>
    p \<noteq> 0 \<and> timer_inv (tick w) p w' \<and>
    timers w' p = new_timer f magic delay args (tick w) \<and>
    refs w' = (\<lambda>n. if n = tick w then 2 else refs w n + count_list (JS_Ref f # args) (JS_Ref n)) \<and>
    calls w' = calls w"
proof -
  let ?th = "new_timer f magic delay args (tick w)"
  define w0 where "w0 = w\<lparr>tick := tick w + 2, opaque := (opaque w)(tick w := (11, tick w + 2)),
    funs := (funs w)(tick w := NotFun), blk := (blk w)(tick w + 2 := JeBlock),
    hnd := (hnd w)(tick w + 2 := (\<lambda>_. HNone)(0 := HOpen)),
    timers := (timers w)(tick w + 2 := ?th),
    refs := (\<lambda>n. if n = tick w then 2 else refs w n + count_list (JS_Ref f # args) (JS_Ref n))\<rparr>"
  have c0: "count_list args (JS_Ref (tick w)) = 0"
    using assms by (intro count_fresh) (auto simp: can_set_def)
  have "ijSetTimeout E (JS_Ref f # d # args) magic w = Inr (JS_Ref (tick w), w0)"
    using assms c0
    by (auto simp: can_set_def ijSetTimeout_def argn_def JS_ToInt64_def JS_NewObjectClass_def
        je_calloc_def uv_handle_init_def fold_dup tm_upd_def uv_timer_start_def new_timer_def
        w0_def ijjs_timer_class_id_def fun_eq_iff Let_def intro!: timer_rt.equality)
  moreover have "owns (tm_held ?th) w0"
    using assms c0 by (auto simp: owns_def tm_held_def new_timer_def can_set_def
        count_list_append w0_def)
  then have "timer_inv (tick w) (tick w + 2) w0"
    using assms by (auto simp: timer_inv_def w0_def can_set_def fresh_blk_def new_timer_def
        ijjs_timer_class_id_def)
  ultimately show ?thesis by (auto simp: w0_def intro!: exI [of _ "tick w + 2"])
qed

lemma new_timer_live:
  "timer_inv ob p w \<Longrightarrow> timers w p = new_timer f magic delay args ob \<Longrightarrow> timer_live p f w"
  by (auto simp: timer_inv_def timer_live_def new_timer_def)

section \<open>Properties\<close>

text \<open>C3. A timer is memory safe and collectable: after setTimeout or setInterval, any sequence
  of expiries, clearTimeout calls and dropped references runs without a crash, whether or
  not the callback throws; and when the last reference of the object is gone the timer is
  not running, its finalizer closes the handle, and the close callback frees the
  structure.\<close>

theorem timer_lifecycle_safe:
  assumes "can_set E f d delay args w"
  shows "\<exists>ob p w1. ijSetTimeout E (JS_Ref f # d # args) magic w = Inr (JS_Ref ob, w1) \<and>
    (\<forall>as. \<exists>w2. timer_run E J ob p as w1 = Some (Inr w2) \<and>
      (refs w2 ob = 0 \<longrightarrow> tm_run (timers w2 p) = None \<and>
        (\<exists>w3 w4. ijTimerFinalizer (JS_Ref ob) w2 = Inr w3 \<and> hnd w3 p 0 = HClosing \<and>
           uvTimerClose p (uv_finish_close p 0 w3) = Inr w4 \<and> blk w4 p = NoBlock)))"
proof -
  obtain p w1
    where w1: "ijSetTimeout E (JS_Ref f # d # args) magic w = Inr (JS_Ref (tick w), w1)"
      "timer_inv (tick w) p w1" "timers w1 p = new_timer f magic delay args (tick w)"
    using set_timeout_inv [OF assms] by blast
  have E: "jsenv_ok E" using assms by (simp add: can_set_def)
  have "tm_shape (timers w1 p)" by (simp add: w1(3) tm_shape_def new_timer_def)
  note run = timer_run_safe [OF E w1(2) this, of J]
  have "\<exists>w2. timer_run E J (tick w) p as w1 = Some (Inr w2) \<and>
      (refs w2 (tick w) = 0 \<longrightarrow> tm_run (timers w2 p) = None \<and>
        (\<exists>w3 w4. ijTimerFinalizer (JS_Ref (tick w)) w2 = Inr w3 \<and> hnd w3 p 0 = HClosing \<and>
           uvTimerClose p (uv_finish_close p 0 w3) = Inr w4 \<and> blk w4 p = NoBlock))" for as
    using run [of as] timer_collect [of "tick w" p] by blast
  with w1(1) show ?thesis by blast
qed

text \<open>A caller with a user function 0 in hand.\<close>

definition timer_demo :: timer_rt where
  "timer_demo = rt.extend (rt0\<lparr>tick := 1, refs := (\<lambda>_. 0)(0 := 1),
       funs := (\<lambda>_. NotFun)(0 := UserFun)\<rparr>)
     (timer_rt.fields (\<lambda>_. \<lparr>tm_interval = 0, tm_obj = JS_UNDEFINED, tm_func = JS_UNDEFINED,
        tm_argv = [], tm_run = None\<rparr>))"

lemma timer_demo_can_set: "0 \<le> i \<Longrightarrow> i < 1000 \<Longrightarrow>
    can_set plain_env 0 (JS_Int i) i [JS_Int 5] timer_demo"
  by (simp add: can_set_def plain_env_ok timer_demo_def rt.defs timer_rt.defs rt0_def fresh_blk_def)
     (simp add: plain_env_def)

theorem timer_lifecycle_safe_witness:
  "\<exists>ob p w1. ijSetTimeout plain_env [JS_Ref 0, JS_Int 10, JS_Int 5] 0 timer_demo
      = Inr (JS_Ref ob, w1) \<and>
    (\<exists>w2. timer_run plain_env countdown ob p [TDrop, TExpire, TClear] w1 = Some (Inr w2))"
  using timer_lifecycle_safe [OF timer_demo_can_set [of 10], of 0 countdown]
  by (simp del: timer_run.simps) blast

text \<open>C13. setTimeout runs its callback exactly once, with the arguments given after the delay:
  at expiry the call is made, the timer gives back the function, the arguments and itself
  (only the caller's reference of the object is left), and a further expiry does
  nothing.\<close>

theorem timeout_fires_once:
  assumes "can_set E f d delay args w"
  shows "\<exists>ob p w1 w2. ijSetTimeout E (JS_Ref f # d # args) 0 w = Inr (JS_Ref ob, w1) \<and>
    tm_run (timers w1 p) = Some (delay mod 2 ^ 64, 0) \<and>
    uv_timer_expire E J p w1 = Some (Inr w2) \<and>
    calls w2 = calls w @ [(JS_Ref f, args)] \<and>
    refs w2 = (refs w)(ob := 1) \<and>
    uv_timer_expire E J p w2 = Some (Inr w2)"
proof -
  let ?ob = "tick w"
  obtain p w1 where w1: "ijSetTimeout E (JS_Ref f # d # args) 0 w = Inr (JS_Ref ?ob, w1)"
    "p \<noteq> 0" "timer_inv ?ob p w1" "timers w1 p = new_timer f 0 delay args ?ob"
    "refs w1 = (\<lambda>n. if n = ?ob then 2 else refs w n + count_list (JS_Ref f # args) (JS_Ref n))"
    "calls w1 = calls w"
    using set_timeout_inv [OF assms, of 0] by blast
  have E: "jsenv_ok E" using assms by (simp add: can_set_def)
  obtain w2 where w2: "uv_timer_expire E J p w1 = Some (ijClearTimer p w2)"
    "unobs (w1\<lparr>timers := (timers w1)(p := rearmed (timers w1 p)),
              calls := calls w @ [(JS_Ref f, args)]\<rparr>) w2"
    using expire_live [OF E new_timer_live [OF w1(3,4)], of J] w1(4,6)
    by (auto simp: new_timer_def)
  have t2: "timers w2 p = (new_timer f 0 delay args ?ob)\<lparr>tm_run := None\<rparr>"
    using unobs_timers [OF w2(2)] w1(4) by (simp add: rearmed_def new_timer_def)
  define w3 where "w3 = w2\<lparr>
    refs := (\<lambda>n. refs w2 n - count_list (tm_held (timers w2 p)) (JS_Ref n)),
    timers := (timers w2)(p := tm_cleared (timers w2 p))\<rparr>"
  have "ijClearTimer p w2 = Inr w3"
    unfolding w3_def
  proof (rule ijClearTimer_eq)
    have "owns (tm_held (timers w1 p)) w2"
      using w1(3) w2(2) owns_cong [of w2 w1 "tm_held (timers w1 p)"]
      by (simp add: timer_inv_def unobs_def)
    then show "owns (tm_held (timers w2 p)) w2" by (simp add: t2 w1(4) held_run)
    show "blk w2 p \<noteq> NoBlock" using w1(3) w2(2) by (simp add: timer_inv_def unobs_def)
  qed (rule w1(2))
  then have "uv_timer_expire E J p w1 = Some (Inr w3)" using w2(1) by simp
  moreover have "refs w3 = (refs w)(?ob := 1)"
  proof -
    have "count_list args (JS_Ref ?ob) = 0" "f \<noteq> ?ob"
      using assms by (auto intro!: count_fresh simp: can_set_def)
    then show ?thesis
      using w2(2) w1(5) by (auto simp: w3_def t2 held_run unobs_def fun_eq_iff tm_held_def
          new_timer_def count_list_append)
  qed
  moreover have "calls w3 = calls w @ [(JS_Ref f, args)]"
    using w2(2) by (simp add: unobs_def w3_def)
  moreover have "uv_timer_expire E J p w3 = Some (Inr w3)"
    by (simp add: uv_timer_expire_def w3_def t2)
  moreover have "tm_run (timers w1 p) = Some (delay mod 2 ^ 64, 0)"
    by (simp add: w1(4) new_timer_def)
  ultimately show ?thesis using w1(1) by blast
qed

theorem timeout_fires_once_witness:
  "\<exists>ob p w1 w2. ijSetTimeout plain_env [JS_Ref 0, JS_Int 10, JS_Int 5] 0 timer_demo
      = Inr (JS_Ref ob, w1) \<and> uv_timer_expire plain_env countdown p w1 = Some (Inr w2) \<and>
    calls w2 = calls timer_demo @ [(JS_Ref 0, [JS_Int 5])]"
  using timeout_fires_once [OF timer_demo_can_set [of 10], of countdown] by auto

lemma interval_expire:
  assumes "can_set E f d delay args w"
  shows "\<exists>p w1 w2. ijSetTimeout E (JS_Ref f # d # args) 1 w = Inr (JS_Ref (tick w), w1) \<and>
    uv_timer_expire E J p w1 = Some (Inr w2) \<and> calls w2 = calls w @ [(JS_Ref f, args)] \<and>
    refs w2 = refs w1 \<and> refs w1 (tick w) = 2 \<and>
    timers w2 p = rearmed (new_timer f 1 delay args (tick w))"
proof -
  obtain p w1 where w1: "ijSetTimeout E (JS_Ref f # d # args) 1 w = Inr (JS_Ref (tick w), w1)"
    "timer_inv (tick w) p w1" "timers w1 p = new_timer f 1 delay args (tick w)"
    "refs w1 (tick w) = 2" "calls w1 = calls w"
    using set_timeout_inv [OF assms, of 1] by auto
  have E: "jsenv_ok E" using assms by (simp add: can_set_def)
  obtain w2 where w2: "uv_timer_expire E J p w1 = Some (Inr w2)"
    "unobs (w1\<lparr>timers := (timers w1)(p := rearmed (timers w1 p)),
              calls := calls w @ [(JS_Ref f, args)]\<rparr>) w2"
    using expire_live [OF E new_timer_live [OF w1(2,3)], of J] w1(3,5)
    by (auto simp: new_timer_def)
  then have "calls w2 = calls w @ [(JS_Ref f, args)]" "refs w2 = refs w1"
    "timers w2 p = rearmed (new_timer f 1 delay args (tick w))"
    using unobs_timers [OF w2(2)] by (simp_all add: unobs_def w1(3))
  with w1(1,4) w2(1) show ?thesis by blast
qed

text \<open>setInterval with a positive delay runs its callback at every expiry and is armed
  again for the same delay, without taking or giving up any reference.\<close>

theorem interval_rearms:
  assumes "can_set E f d delay args w" "0 < delay" "delay < 2 ^ 63"
  shows "\<exists>ob p w1 w2. ijSetTimeout E (JS_Ref f # d # args) 1 w = Inr (JS_Ref ob, w1) \<and>
    uv_timer_expire E J p w1 = Some (Inr w2) \<and> calls w2 = calls w @ [(JS_Ref f, args)] \<and>
    refs w2 = refs w1 \<and> tm_run (timers w2 p) = Some (delay, delay)"
proof -
  have "delay mod 2 ^ 64 = delay" using assms(2,3) by simp
  then have "tm_run (rearmed (new_timer f 1 delay args ob)) = Some (delay, delay)" for ob
    using assms(2) by (simp add: rearmed_def new_timer_def)
  then show ?thesis using interval_expire [OF assms(1), of J] by metis
qed

theorem interval_rearms_witness:
  "\<exists>ob p w1 w2. ijSetTimeout plain_env [JS_Ref 0, JS_Int 10, JS_Int 5] 1 timer_demo
      = Inr (JS_Ref ob, w1) \<and> uv_timer_expire plain_env countdown p w1 = Some (Inr w2) \<and>
    tm_run (timers w2 p) = Some (10, 10)"
proof -
  have "(0 :: int) < 10" "(10 :: int) < 2 ^ 63" by simp_all
  from interval_rearms [OF timer_demo_can_set [of 10] this, of countdown]
  show ?thesis by auto
qed

text \<open>setInterval with delay 0 runs its callback once only: libuv takes a repeat of 0 as
  \<open>do not repeat\<close>, so the timer stops; and since it counts as an interval it is not
  cleared, so the object, the function and the arguments stay referenced.\<close>

theorem interval_zero_stalls:
  assumes "can_set E f d 0 args w"
  shows "\<exists>ob p w1 w2. ijSetTimeout E (JS_Ref f # d # args) 1 w = Inr (JS_Ref ob, w1) \<and>
    uv_timer_expire E J p w1 = Some (Inr w2) \<and> calls w2 = calls w @ [(JS_Ref f, args)] \<and>
    refs w2 = refs w1 \<and> refs w2 ob = 2 \<and> tm_obj (timers w2 p) = JS_Ref ob \<and>
    uv_timer_expire E J p w2 = Some (Inr w2)"
proof -
  have "tm_run (rearmed (new_timer f 1 0 args ob)) = None"
    "tm_obj (rearmed (new_timer f 1 0 args ob)) = JS_Ref ob" for ob
    by (simp_all add: rearmed_def new_timer_def)
  moreover have "tm_run (timers w2 p) = None \<Longrightarrow> uv_timer_expire E J p w2 = Some (Inr w2)"
    for w2 p by (simp add: uv_timer_expire_def)
  ultimately show ?thesis using interval_expire [OF assms, of J] by metis
qed

theorem interval_zero_stalls_witness:
  "\<exists>ob p w1 w2. ijSetTimeout plain_env [JS_Ref 0, JS_Int 0, JS_Int 5] 1 timer_demo
      = Inr (JS_Ref ob, w1) \<and> uv_timer_expire plain_env countdown p w1 = Some (Inr w2) \<and>
    uv_timer_expire plain_env countdown p w2 = Some (Inr w2)"
proof -
  have "can_set plain_env 0 (JS_Int 0) 0 [JS_Int 5] timer_demo"
    by (rule timer_demo_can_set) simp_all
  from interval_zero_stalls [OF this, of countdown] show ?thesis by auto
qed

text \<open>setTimeout or setInterval called with the callback only writes outside the block it
  allocates: QuickJS passes the actual argument count 1, so the block is sized for minus
  one arguments.\<close>

theorem set_timeout_one_argument_overflows:
  assumes "funs w f = UserFun" "to_i64 E JS_UNDEFINED = Some delay"
    and "\<not> oom w (tick w)" "\<not> oom w (Suc (tick w))"
  shows "ijSetTimeout E [JS_Ref f] magic w = Inl BufferOverflow"
  using assms by (simp add: ijSetTimeout_def argn_def JS_ToInt64_def JS_NewObjectClass_def
      je_calloc_def)

theorem set_timeout_one_argument_overflows_witness:
  "ijSetTimeout (plain_env\<lparr>to_i64 := (\<lambda>v. Some 0)\<rparr>) [JS_Ref 0] 0 timer_demo
     = Inl BufferOverflow"
  by (rule set_timeout_one_argument_overflows [where delay = 0])
     (simp_all add: timer_demo_def rt.defs timer_rt.defs rt0_def)

end
