(* ===== verification/Lifecycle.thy ===== *)
theory Lifecycle
  imports Engine
begin

text \<open>
  The contract of an object that wraps a libuv handle (streams, UDP sockets, signal handlers,
  processes): the C structure lives until libuv has run the close callback and the garbage
  collector has finalized the JS object, in whichever order, and is then freed once. The
  contract is an automaton; a component implements it when its operations simulate the
  automaton's steps without ever failing.
\<close>

section \<open>The automaton\<close>

record lc =
  lc_h :: hstate
  lc_closed :: bool
  lc_fin :: bool
  lc_freed :: bool

text \<open>
  \<open>UserClose\<close> is the close method, \<open>CloseDone\<close> libuv running the close callback,
  \<open>Finalize\<close> the garbage collector, \<open>Use u\<close> any other operation of the component.
\<close>

datatype 'u lc_act = UserClose | CloseDone | Finalize | Use 'u

definition lc_init :: lc where
  "lc_init = \<lparr>lc_h = HOpen, lc_closed = False, lc_fin = False, lc_freed = False\<rparr>"

definition lc_request :: "lc \<Rightarrow> lc" where
  "lc_request s = (if lc_h s = HOpen then s\<lparr>lc_h := HClosing\<rparr> else s)"

fun lc_step :: "('u \<Rightarrow> lc \<Rightarrow> bool) \<Rightarrow> 'u lc_act \<Rightarrow> lc \<Rightarrow> lc option" where
  "lc_step ena UserClose s =
     (if lc_freed s \<or> lc_fin s then None else Some (lc_request s))"
| "lc_step ena CloseDone s =
     (if lc_freed s \<or> lc_h s \<noteq> HClosing then None
      else Some (s\<lparr>lc_h := HClosed, lc_closed := True, lc_freed := lc_fin s\<rparr>))"
| "lc_step ena Finalize s =
     (if lc_freed s \<or> lc_fin s then None
      else if lc_closed s then Some (s\<lparr>lc_fin := True, lc_freed := True\<rparr>)
      else Some (lc_request (s\<lparr>lc_fin := True\<rparr>)))"
| "lc_step ena (Use u) s = (if lc_freed s \<or> \<not> ena u s then None else Some s)"

fun lc_run :: "('u \<Rightarrow> lc \<Rightarrow> bool) \<Rightarrow> 'u lc_act list \<Rightarrow> lc \<Rightarrow> lc option" where
  "lc_run ena [] s = Some s"
| "lc_run ena (a # as) s = (case lc_step ena a s of None \<Rightarrow> None | Some s' \<Rightarrow> lc_run ena as s')"

text \<open>The states a run can reach.\<close>

definition lc_wf :: "lc \<Rightarrow> bool" where
  "lc_wf s \<longleftrightarrow> lc_h s \<noteq> HNone \<and> (lc_closed s \<longleftrightarrow> lc_h s = HClosed) \<and>
     (lc_freed s \<longleftrightarrow> lc_closed s \<and> lc_fin s) \<and> (lc_fin s \<longrightarrow> lc_h s \<noteq> HOpen)"

lemma lc_init_wf: "lc_wf lc_init"
  by (simp add: lc_wf_def lc_init_def)

lemma lc_step_wf: "lc_wf s \<Longrightarrow> lc_step ena a s = Some s' \<Longrightarrow> lc_wf s'"
  by (cases a) (auto simp: lc_wf_def lc_request_def split: if_splits)

lemma lc_run_wf: "lc_wf s \<Longrightarrow> lc_run ena as s = Some s' \<Longrightarrow> lc_wf s'"
  by (induction as arbitrary: s) (auto split: option.splits dest: lc_step_wf)

lemma lc_freed_stuck: "lc_freed s \<Longrightarrow> lc_step ena a s = None"
  by (cases a) auto

text \<open>
  Nothing is leaked: once the object is finalized, one run of the close callback frees it,
  whatever happens in between.
\<close>

lemma lc_finalized_frees:
  "lc_wf s \<Longrightarrow> lc_fin s \<Longrightarrow> lc_step ena CloseDone s = Some s' \<Longrightarrow> lc_freed s'"
  by (auto split: if_splits)

lemma lc_finalized_pending:
  "lc_wf s \<Longrightarrow> lc_fin s \<Longrightarrow> \<not> lc_freed s \<Longrightarrow> lc_h s = HClosing"
  by (cases "lc_h s") (auto simp: lc_wf_def)

lemma lc_run_append:
  "lc_run ena (as @ bs) s = (case lc_run ena as s of None \<Rightarrow> None | Some t \<Rightarrow> lc_run ena bs t)"
  by (induction as arbitrary: s) (auto split: option.splits)

lemma lc_fin_mono: "lc_step ena a s = Some s' \<Longrightarrow> lc_fin s \<Longrightarrow> lc_fin s'"
  by (cases a) (auto simp: lc_request_def split: if_splits)

lemma lc_closed_mono: "lc_step ena a s = Some s' \<Longrightarrow> lc_closed s \<Longrightarrow> lc_closed s'"
  by (cases a) (auto simp: lc_request_def split: if_splits)

lemma lc_run_fin_mono: "lc_run ena as s = Some s' \<Longrightarrow> lc_fin s \<Longrightarrow> lc_fin s'"
  by (induction as arbitrary: s) (auto split: option.splits dest: lc_fin_mono)

lemma lc_run_closed_mono: "lc_run ena as s = Some s' \<Longrightarrow> lc_closed s \<Longrightarrow> lc_closed s'"
  by (induction as arbitrary: s) (auto split: option.splits dest: lc_closed_mono)

lemma lc_step_does:
  "lc_step ena Finalize s = Some s' \<Longrightarrow> lc_fin s'"
  "lc_step ena CloseDone s = Some s' \<Longrightarrow> lc_closed s'"
  by (auto simp: lc_request_def split: if_splits)

lemma lc_run_finalizes: "lc_run ena as s = Some s' \<Longrightarrow> Finalize \<in> set as \<Longrightarrow> lc_fin s'"
  by (induction as arbitrary: s)
     (auto split: option.splits intro: lc_run_fin_mono lc_step_does(1))

lemma lc_run_closes: "lc_run ena as s = Some s' \<Longrightarrow> CloseDone \<in> set as \<Longrightarrow> lc_closed s'"
  by (induction as arbitrary: s)
     (auto split: option.splits intro: lc_run_closed_mono lc_step_does(2))

lemma lc_run_frees:
  assumes "lc_wf s" "lc_run ena as s = Some s'" "Finalize \<in> set as" "CloseDone \<in> set as"
  shows "lc_freed s'"
  using lc_run_wf [OF assms(1,2)] lc_run_finalizes [OF assms(2,3)] lc_run_closes [OF assms(2,4)]
  by (simp add: lc_wf_def)

section \<open>What a component has to promise\<close>

fun run_ops :: "('u lc_act \<Rightarrow> nat \<Rightarrow> 'w \<Rightarrow> 'w res) \<Rightarrow> nat \<Rightarrow> 'u lc_act list \<Rightarrow> 'w \<Rightarrow> 'w res" where
  "run_ops f p [] w = Inr w"
| "run_ops f p (a # as) w = bindE (f a p w) (run_ops f p as)"

text \<open>
  \<open>absf p w\<close> reads the automaton's state off the structure at \<open>p\<close>, \<open>good p w\<close> is the
  component's own invariant of a structure that is not freed, \<open>perform a p w\<close> runs the
  component's operation for the action \<open>a\<close>.
\<close>

locale closeable =
  fixes absf :: "nat \<Rightarrow> 'w \<Rightarrow> lc"
    and good :: "nat \<Rightarrow> 'w \<Rightarrow> bool"
    and ena :: "'u \<Rightarrow> lc \<Rightarrow> bool"
    and perform :: "'u lc_act \<Rightarrow> nat \<Rightarrow> 'w \<Rightarrow> 'w res"
  assumes simulates:
    "good p w \<Longrightarrow> lc_wf (absf p w) \<Longrightarrow> lc_step ena a (absf p w) = Some s \<Longrightarrow>
       \<exists>w'. perform a p w = Inr w' \<and> absf p w' = s \<and> (\<not> lc_freed s \<longrightarrow> good p w')"
begin

lemma run_simulates:
  assumes "good p w" "lc_wf (absf p w)" "lc_run ena as (absf p w) = Some s"
  shows "\<exists>w'. run_ops perform p as w = Inr w' \<and> absf p w' = s"
  using assms
proof (induction as arbitrary: w)
  case (Cons a as)
  then obtain t where t: "lc_step ena a (absf p w) = Some t" "lc_run ena as t = Some s"
    by (auto split: option.splits)
  obtain w1 where w1: "perform a p w = Inr w1" "absf p w1 = t" "\<not> lc_freed t \<longrightarrow> good p w1"
    using simulates [OF Cons.prems(1,2) t(1)] by blast
  show ?case
  proof (cases "lc_freed t")
    case True
    then have "as = []" "s = t"
      using t(2) by (cases as; simp add: lc_freed_stuck)+
    then show ?thesis using w1 by simp
  next
    case False
    then show ?thesis
      using Cons.IH [of w1] w1 t lc_step_wf [OF Cons.prems(2) t(1)] by simp
  qed
qed simp

text \<open>Every run that the automaton allows succeeds, and ends freed if and only if the object
  was both closed and finalized.\<close>

lemma run_safe:
  assumes "good p w" "absf p w = lc_init" "lc_run ena as lc_init = Some s"
  shows "\<exists>w'. run_ops perform p as w = Inr w' \<and> absf p w' = s \<and>
    (lc_freed (absf p w') \<longleftrightarrow> lc_closed (absf p w') \<and> lc_fin (absf p w'))"
  using run_simulates [of p w as s] assms lc_init_wf lc_run_wf [OF lc_init_wf assms(3)]
  by (auto simp: lc_wf_def)

lemma run_frees:
  assumes "good p w" "absf p w = lc_init" "lc_run ena as lc_init = Some s"
    and "Finalize \<in> set as" "CloseDone \<in> set as"
  shows "\<exists>w'. run_ops perform p as w = Inr w' \<and> lc_freed (absf p w')"
  using run_safe [OF assms(1-3)] lc_run_frees [OF lc_init_wf assms(3-5)] by auto

end

end
