(* ===== verification/Signals.thy ===== *)
theory Signals
  imports Lifecycle Utils
begin

text \<open>
  ijsignals.c: signal handler objects over uv\_signal\_t. The structure carries the two flags
  of the close/finalize protocol; the contract of theory Lifecycle is interpreted on it.
\<close>

record IJJSSignalHandler =
  sg_closed :: bool
  sg_finalized :: bool
  sg_num :: int
  sg_func :: jsval

record signal_rt = rt +
  signals :: "nat \<Rightarrow> IJJSSignalHandler"

text \<open>The codes libuv answers with: uv\_signal\_init, and uv\_signal\_start for a number.\<close>

record sigenv =
  sig_init :: int
  sig_start :: "int \<Rightarrow> int"

definition ijjs_signal_handler_class_id :: nat where "ijjs_signal_handler_class_id = 12"

definition sg_upd ::
    "nat \<Rightarrow> (IJJSSignalHandler \<Rightarrow> IJJSSignalHandler) \<Rightarrow> 'z signal_rt_scheme \<Rightarrow> 'z signal_rt_scheme" where
  "sg_upd p f w = w\<lparr>signals := (signals w)(p := f (signals w p))\<rparr>"

definition uvSignalCloseCb :: "nat \<Rightarrow> 'z signal_rt_scheme \<Rightarrow> 'z signal_rt_scheme res" where
  "uvSignalCloseCb sh w =
     (if sh \<noteq> 0 then
        bindE (deref sh w) (\<lambda>w.
        let w = sg_upd sh (\<lambda>s. s\<lparr>sg_closed := True\<rparr>) w
        in if sg_finalized (signals w sh) then je_free sh w else Inr w)
      else Inr w)"

definition uvSignalMaybeClose :: "nat \<Rightarrow> 'z signal_rt_scheme \<Rightarrow> 'z signal_rt_scheme res" where
  "uvSignalMaybeClose sh w =
     bindE (deref sh w) (\<lambda>w. if \<not> uv_is_closing sh 0 w then uv_close sh 0 w else Inr w)"

definition ijSignalHandlerFinalizer ::
    "jsval \<Rightarrow> 'z signal_rt_scheme \<Rightarrow> 'z signal_rt_scheme res" where
  "ijSignalHandlerFinalizer val w =
     (let sh = JS_GetOpaque val ijjs_signal_handler_class_id w in
      if sh \<noteq> 0 then
        bindE (deref sh w) (\<lambda>w.
        bindE (JS_FreeValueRT (sg_func (signals w sh)) w) (\<lambda>w.
        let w = sg_upd sh (\<lambda>s. s\<lparr>sg_finalized := True\<rparr>) w
        in if sg_closed (signals w sh) then je_free sh w else uvSignalMaybeClose sh w))
      else Inr w)"

definition ijSignalHandlerMark :: "jsval \<Rightarrow> 'z signal_rt_scheme \<Rightarrow> jsval list" where
  "ijSignalHandlerMark val w =
     (let sh = JS_GetOpaque val ijjs_signal_handler_class_id w
      in if sh \<noteq> 0 then [sg_func (signals w sh)] else [])"

definition uvSignalCb :: "jsenv \<Rightarrow> nat \<Rightarrow> 'z signal_rt_scheme \<Rightarrow> 'z signal_rt_scheme res" where
  "uvSignalCb E sh w =
     bindE (CHECK (sh \<noteq> 0) w) (\<lambda>w.
     bindE (deref sh w) (\<lambda>w. ijCallHandler E (sg_func (signals w sh)) w))"

definition ijSignal ::
    "jsenv \<Rightarrow> sigenv \<Rightarrow> jsval list \<Rightarrow> 'z signal_rt_scheme \<Rightarrow> (jsval \<times> 'z signal_rt_scheme) res" where
  "ijSignal E S argv w = (case JS_ToInt32 E (argn 0 argv) w of
     (None, w) \<Rightarrow> Inr (JS_EXCEPTION, w)
   | (Some sig_num, w) \<Rightarrow>
     (let func = argn 1 argv in
      if \<not> JS_IsFunction func w then Inr (JS_ThrowTypeError ''not a function'' w)
      else case JS_NewObjectClass ijjs_signal_handler_class_id w of (obj, w) \<Rightarrow>
      if JS_IsException obj then Inr (obj, w)
      else case je_calloc w of (sh, w) \<Rightarrow>
      if sh = 0 then bindE (JS_FreeValue obj w) (\<lambda>w. Inr (JS_EXCEPTION, w))
      else if sig_init S \<noteq> 0 then
        bindE (JS_FreeValue obj w) (\<lambda>w.
        bindE (je_free sh w) (\<lambda>w.
        Inr (JS_ThrowInternalError ''couldn't initialize Signal handle'' w)))
      else
        (let w = uv_handle_init sh 0 w; r = sig_start S sig_num in
         if r \<noteq> 0 then
           bindE (JS_FreeValue obj w) (\<lambda>w.
           bindE (je_free sh w) (\<lambda>w. Inr (ijThrowErrno E r w)))
         else
           (let w = JS_DupValue func w;
                w = sg_upd sh (\<lambda>_. \<lparr>sg_closed = False, sg_finalized = False,
                      sg_num = sig_num, sg_func = func\<rparr>) w
            in Inr (obj, JS_SetOpaque obj sh w)))))"

definition ijSgnalHandlerGet ::
    "jsval \<Rightarrow> 'z signal_rt_scheme \<Rightarrow> nat \<times> 'z signal_rt_scheme" where
  "ijSgnalHandlerGet obj w = JS_GetOpaque2 obj ijjs_signal_handler_class_id w"

definition ijSgnalHandlerClose ::
    "jsval \<Rightarrow> 'z signal_rt_scheme \<Rightarrow> (jsval \<times> 'z signal_rt_scheme) res" where
  "ijSgnalHandlerClose this w = (case ijSgnalHandlerGet this w of (sh, w) \<Rightarrow>
     if sh = 0 then Inr (JS_EXCEPTION, w)
     else bindE (uvSignalMaybeClose sh w) (\<lambda>w. Inr (JS_UNDEFINED, w)))"

definition ijSgnalHandlerSignumGet ::
    "jsval \<Rightarrow> 'z signal_rt_scheme \<Rightarrow> (jsval \<times> 'z signal_rt_scheme) res" where
  "ijSgnalHandlerSignumGet this w = (case ijSgnalHandlerGet this w of (sh, w) \<Rightarrow>
     if sh = 0 then Inr (JS_EXCEPTION, w)
     else bindE (deref sh w) (\<lambda>w. Inr (JS_NewInt32 (sg_num (signals w sh)), w)))"

lemmas signal_defs [handler_defs] = sg_upd_def uvSignalCloseCb_def uvSignalMaybeClose_def
  ijSignalHandlerFinalizer_def ijSignalHandlerMark_def uvSignalCb_def ijSignal_def
  ijSgnalHandlerGet_def ijSgnalHandlerClose_def ijSgnalHandlerSignumGet_def

section \<open>The close/finalize contract\<close>

definition signal_abs :: "nat \<Rightarrow> 'z signal_rt_scheme \<Rightarrow> lc" where
  "signal_abs p w = \<lparr>lc_h = hnd w p 0, lc_closed = sg_closed (signals w p),
     lc_fin = sg_finalized (signals w p), lc_freed = (blk w p = NoBlock)\<rparr>"

definition signal_good :: "jsenv \<Rightarrow> nat \<Rightarrow> nat \<Rightarrow> 'z signal_rt_scheme \<Rightarrow> bool" where
  "signal_good E ob p w \<longleftrightarrow>
     jsenv_ok E \<and> p \<noteq> 0 \<and> p \<le> tick w \<and> blk w p = JeBlock \<and> fresh_blk w \<and> hnd w p 1 = HNone \<and>
     opaque w ob = (ijjs_signal_handler_class_id, p) \<and>
     (\<not> sg_finalized (signals w p) \<longrightarrow>
        (\<exists>f. sg_func (signals w p) = JS_Ref f \<and> funs w f = UserFun \<and> 0 < refs w f))"

text \<open>A signal is delivered only while the handle is open and the object alive.\<close>

definition signal_ena :: "unit \<Rightarrow> lc \<Rightarrow> bool" where
  "signal_ena u s = (lc_h s = HOpen \<and> \<not> lc_fin s)"

fun signal_perform ::
    "jsenv \<Rightarrow> nat \<Rightarrow> unit lc_act \<Rightarrow> nat \<Rightarrow> 'z signal_rt_scheme \<Rightarrow> 'z signal_rt_scheme res" where
  "signal_perform E ob UserClose p w = bindE (ijSgnalHandlerClose (JS_Ref ob) w) (\<lambda>(_, w). Inr w)"
| "signal_perform E ob CloseDone p w = uvSignalCloseCb p (uv_finish_close p 0 w)"
| "signal_perform E ob Finalize p w = ijSignalHandlerFinalizer (JS_Ref ob) w"
| "signal_perform E ob (Use u) p w = uvSignalCb E p w"

lemma signals_unobs: "unobs w w' \<Longrightarrow> signals w' = signals w"
proof -
  assume "unobs w w'"
  then have "rt.more w' = rt.more w" by (simp add: unobs_def)
  then show ?thesis by (cases w; cases w') simp
qed

lemma signal_delivery:
  assumes "signal_good E ob p w" "\<not> sg_finalized (signals w p)"
  shows "\<exists>w'. uvSignalCb E p w = Inr w' \<and> signal_abs p w' = signal_abs p w \<and>
    signal_good E ob p w' \<and> (\<exists>f. calls w' = calls w @ [(sg_func (signals w p), [])])"
proof -
  obtain f where f: "sg_func (signals w p) = JS_Ref f" "funs w f = UserFun"
    using assms by (auto simp: signal_good_def)
  have pre: "fresh_blk w" "jsenv_ok E" using assms(1) by (simp_all add: signal_good_def)
  obtain w' where "ijCallHandler E (JS_Ref f) w = Inr w'"
    and u: "unobs (w\<lparr>calls := calls w @ [(JS_Ref f, [])]\<rparr>) w'"
    using ijCallHandler_calls [OF pre f(2)] by auto
  then have run: "uvSignalCb E p w = Inr w'"
    using assms(1) f by (simp add: uvSignalCb_def CHECK_def deref_def signal_good_def)
  have "fresh_blk w'" using unobs_fresh [OF u] pre(1) by (simp add: fresh_blk_def)
  then have "signal_abs p w' = signal_abs p w" "signal_good E ob p w'"
    "calls w' = calls w @ [(JS_Ref f, [])]"
    using u signals_unobs [OF u] assms(1) by (auto simp: signal_abs_def signal_good_def unobs_def)
  with run f(1) show ?thesis by auto
qed

interpretation signal: closeable signal_abs "signal_good E ob" signal_ena "signal_perform E ob"
  for E ob
proof
  fix p and w :: "'z signal_rt_scheme" and a :: "unit lc_act" and s
  assume g: "signal_good E ob p w" and wf: "lc_wf (signal_abs p w)"
    and st: "lc_step signal_ena a (signal_abs p w) = Some s"
  show "\<exists>w'. signal_perform E ob a p w = Inr w' \<and> signal_abs p w' = s \<and>
      (\<not> lc_freed s \<longrightarrow> signal_good E ob p w')"
  proof (cases a)
    case UserClose
    with g wf st show ?thesis
      by (cases "hnd w p 0") (auto simp: signal_defs rt_defs signal_good_def signal_abs_def
          lc_request_def lc_wf_def fresh_blk_def split: if_splits)
  next
    case CloseDone
    with g wf st show ?thesis
      by (cases "sg_finalized (signals w p)") (auto simp: signal_defs rt_defs signal_good_def
          signal_abs_def lc_wf_def fresh_blk_def Let_def split: if_splits)
  next
    case Finalize
    with g wf st show ?thesis
      by (cases "hnd w p 0") (auto simp: signal_defs rt_defs signal_good_def signal_abs_def
          lc_request_def lc_wf_def fresh_blk_def split: if_splits)
  next
    case (Use u)
    with g st signal_delivery [of E ob p w] show ?thesis
      by (auto simp: signal_ena_def signal_abs_def split: if_splits)
  qed
qed

section \<open>Properties\<close>


definition signal_demo :: signal_rt where
  "signal_demo = rt.extend (rt0\<lparr>tick := 1, refs := (\<lambda>_. 0)(0 := 1),
       funs := (\<lambda>_. NotFun)(0 := UserFun)\<rparr>)
     (signal_rt.fields (\<lambda>_. \<lparr>sg_closed = False, sg_finalized = False, sg_num = 0,
        sg_func = JS_UNDEFINED\<rparr>))"

definition quiet_signals :: sigenv where
  "quiet_signals = \<lparr>sig_init = 0, sig_start = (\<lambda>n. if n = 9 then -22 else 0)\<rparr>"

lemma signal_demo_made:
  "\<exists>w. ijSignal plain_env quiet_signals [JS_Int 2, JS_Ref 0] signal_demo = Inr (JS_Ref 1, w) \<and>
     signal_good plain_env 1 3 w \<and> signal_abs 3 w = lc_init"
  by (simp add: ijSignal_def signal_demo_def rt.defs signal_rt.defs rt0_def rt_defs
      quiet_signals_def plain_env_def [THEN arg_cong [where f = to_i32]] sg_upd_def
      signal_good_def plain_env_ok fresh_blk_def signal_abs_def lc_init_def
      ijjs_signal_handler_class_id_def)


text \<open>When libuv refuses the signal number, ijSignal frees the structure while its handle
  is still registered with the loop.\<close>

theorem signal_start_failure_frees_live_handle:
  assumes "to_i32 E v = Some n" "funs w f = UserFun" "f < tick w"
    and "\<not> oom w (tick w)" "\<not> oom w (Suc (tick w))"
    and "sig_init S = 0" "sig_start S n \<noteq> 0"
  shows "ijSignal E S [v, JS_Ref f] w = Inl LiveHandleFreed"
  using assms by (simp add: ijSignal_def rt_defs)

theorem signal_start_failure_frees_live_handle_witness:
  "ijSignal plain_env quiet_signals [JS_Int 9, JS_Ref 0] signal_demo = Inl LiveHandleFreed"
  by (rule signal_start_failure_frees_live_handle [where n = 9])
     (simp_all add: plain_env_def quiet_signals_def signal_demo_def rt.defs signal_rt.defs
       rt0_def)

end
