(* ===== verification/Streams.thy ===== *)
theory Streams
  imports Lifecycle Slots
begin

text \<open>
  ijstreams.c: TCP sockets, TTYs and pipes. All three share the structure IJJSStream and the
  operations on it; a stream has at most one outstanding read and one outstanding accept,
  kept as promises inside the structure, while writes, shutdowns and connects carry their
  promise in a request block of their own.
\<close>

section \<open>Data\<close>

datatype uv_type = UV_TCP | UV_TTY | UV_NAMED_PIPE

text \<open>\<open>st_reading\<close> and \<open>st_sent\<close> are libuv's side of the handle: whether the read callback
  is armed, and the bytes handed over for sending, in order.\<close>

record IJJSStream =
  st_closed :: bool
  st_finalized :: bool
  st_type :: uv_type
  st_read_size :: int
  st_read :: IJJSPromise
  st_accept :: IJJSPromise
  st_reading :: bool
  st_sent :: string

record IJJSConnectReq =
  cr_handle :: nat
  cr_result :: IJJSPromise

record IJJSShutdownReq =
  sr_handle :: nat
  sr_result :: IJJSPromise

record IJJSWriteReq =
  wr_handle :: nat
  wr_result :: IJJSPromise
  wr_data :: string

record stream_rt = rt +
  streams :: "nat \<Rightarrow> IJJSStream"
  creqs :: "nat \<Rightarrow> IJJSConnectReq"
  sreqs :: "nat \<Rightarrow> IJJSShutdownReq"
  wreqs :: "nat \<Rightarrow> IJJSWriteReq"

text \<open>What libuv answers.\<close>

record strenv =
  UV_EOF :: int
  UV_EBUSY :: int
  UV_EINVAL :: int
  UV_ENOBUFS :: int
  tcp_init :: "int \<Rightarrow> int"
  tty_init :: "int \<Rightarrow> bool \<Rightarrow> int"
  pipe_init :: int
  read_start :: int
  try_write :: "string \<Rightarrow> int"
  uv_write :: "string \<Rightarrow> int"
  uv_shutdown :: int
  uv_fileno :: "int \<times> int"
  uv_listen :: "int \<Rightarrow> int"
  uv_accept :: int
  tcp_sockname :: "int \<times> sockaddr"
  tcp_peername :: "int \<times> sockaddr"
  tcp_connect :: "sockaddr option \<Rightarrow> int"
  tcp_bind :: "sockaddr option \<Rightarrow> int \<Rightarrow> int"
  tty_set_mode :: "int \<Rightarrow> int"
  tty_winsize :: "int \<times> int \<times> int"
  pipe_sockname :: "int \<times> string"
  pipe_peername :: "int \<times> string"
  pipe_bind :: "string \<Rightarrow> int"

text \<open>uv\_try\_write reports an error or how many of the bytes it has written; error codes are
  negative.\<close>

definition strenv_ok :: "strenv \<Rightarrow> bool" where
  "strenv_ok S \<longleftrightarrow> (\<forall>d. try_write S d \<le> int (length d)) \<and> UV_ENOBUFS S < 0"

definition ijjs_tcp_class_id :: nat where "ijjs_tcp_class_id = 21"
definition ijjs_tty_class_id :: nat where "ijjs_tty_class_id = 22"
definition ijjs_pipe_class_id :: nat where "ijjs_pipe_class_id = 23"

definition st_upd ::
    "nat \<Rightarrow> (IJJSStream \<Rightarrow> IJJSStream) \<Rightarrow> 'z stream_rt_scheme \<Rightarrow> 'z stream_rt_scheme" where
  "st_upd p f w = w\<lparr>streams := (streams w)(p := f (streams w p))\<rparr>"

section \<open>Closing\<close>

definition uvStreamCloseCb :: "nat \<Rightarrow> 'z stream_rt_scheme \<Rightarrow> 'z stream_rt_scheme res" where
  "uvStreamCloseCb s w =
     bindE (CHECK (s \<noteq> 0) w) (\<lambda>w.
     bindE (deref s w) (\<lambda>w.
     let w = st_upd s (\<lambda>t. t\<lparr>st_closed := True\<rparr>) w
     in if st_finalized (streams w s) then je_free s w else Inr w))"

text \<open>Closing a stream handle also disarms its read callback.\<close>

definition uvStreamMaybeClose :: "nat \<Rightarrow> 'z stream_rt_scheme \<Rightarrow> 'z stream_rt_scheme res" where
  "uvStreamMaybeClose s w =
     bindE (deref s w) (\<lambda>w.
     if \<not> uv_is_closing s 0 w then uv_close s 0 (st_upd s (\<lambda>t. t\<lparr>st_reading := False\<rparr>) w)
     else Inr w)"

definition ijStreamClose ::
    "nat \<Rightarrow> 'z stream_rt_scheme \<Rightarrow> (jsval \<times> 'z stream_rt_scheme) res" where
  "ijStreamClose s w =
     (if s = 0 then Inr (JS_EXCEPTION, w)
      else bindE (uvStreamMaybeClose s w) (\<lambda>w. Inr (JS_UNDEFINED, w)))"

section \<open>Reading\<close>

definition uvStreamAllocCb ::
    "nat \<Rightarrow> 'z stream_rt_scheme \<Rightarrow> (nat \<times> int \<times> 'z stream_rt_scheme) res" where
  "uvStreamAllocCb s w =
     bindE (CHECK (s \<noteq> 0) w) (\<lambda>w.
     bindE (deref s w) (\<lambda>w.
     case js_malloc w of (base, w) \<Rightarrow> Inr (base, st_read_size (streams w s), w)))"

text \<open>The buffer \<open>base\<close> holds \<open>data\<close>, of which the callback is told \<open>nread\<close> bytes.\<close>

definition uvStreamReadCb ::
    "jsenv \<Rightarrow> strenv \<Rightarrow> nat \<Rightarrow> int \<Rightarrow> nat \<Rightarrow> string \<Rightarrow> 'z stream_rt_scheme
       \<Rightarrow> 'z stream_rt_scheme res" where
  "uvStreamReadCb E S s nread base data w =
     bindE (CHECK (s \<noteq> 0) w) (\<lambda>w.
     bindE (deref s w) (\<lambda>w.
     let w = st_upd s (\<lambda>t. t\<lparr>st_reading := False\<rparr>) w in
     bindE (if nread < 0
            then (case (if nread = UV_EOF S then (JS_UNDEFINED, False, w)
                        else (case ijNewError E nread w of (arg, w) \<Rightarrow> (arg, True, w)))
                  of (arg, is_reject, w) \<Rightarrow>
                    bindE (js_free base w) (\<lambda>w. Inr (arg, is_reject, w)))
            else bindE (ijNewUint8Array base (take (nat nread) data) w)
                   (\<lambda>(arg, w). Inr (arg, False, w))) (\<lambda>(arg, is_reject, w).
     bindE (ijSettlePromise E (st_read (streams w s)) is_reject [arg] w) (\<lambda>(pr, w).
     Inr (st_upd s (\<lambda>t. t\<lparr>st_read := ijClearPromise pr\<rparr>) w)))))"

definition ijStreamRead ::
    "jsenv \<Rightarrow> strenv \<Rightarrow> nat \<Rightarrow> jsval list \<Rightarrow> 'z stream_rt_scheme
       \<Rightarrow> (jsval \<times> 'z stream_rt_scheme) res" where
  "ijStreamRead E S s argv w =
     (if s = 0 then Inr (JS_EXCEPTION, w)
      else bindE (deref s w) (\<lambda>w.
      if \<not> JS_IsUndefined (pr_p (st_read (streams w s)))
      then Inr (ijThrowErrno E (UV_EBUSY S) w)
      else case (if \<not> JS_IsUndefined (argn 0 argv) then JS_ToIndex E (argn 0 argv) w
                 else (Some IJJS_DEFAULt_READ_SIZE, w)) of
        (None, w) \<Rightarrow> Inr (JS_EXCEPTION, w)
      | (Some sz, w) \<Rightarrow>
        (let w = st_upd s (\<lambda>t. t\<lparr>st_read_size := sz\<rparr>) w;
             r = (if uv_is_closing s 0 w then UV_EINVAL S else read_start S)
         in if r \<noteq> 0 then Inr (ijThrowErrno E r w)
         else (let w = st_upd s (\<lambda>t. t\<lparr>st_reading := True\<rparr>) w in
           case ijInitPromise (st_read (streams w s)) w of
             (v, pr, w) \<Rightarrow> Inr (v, st_upd s (\<lambda>t. t\<lparr>st_read := pr\<rparr>) w)))))"

section \<open>Writing\<close>

definition uvStreamWriteCb ::
    "jsenv \<Rightarrow> nat \<Rightarrow> int \<Rightarrow> 'z stream_rt_scheme \<Rightarrow> 'z stream_rt_scheme res" where
  "uvStreamWriteCb E wr status w =
     bindE (deref wr w) (\<lambda>w.
     bindE (CHECK (wr_handle (wreqs w wr) \<noteq> 0) w) (\<lambda>w.
     bindE (deref (wr_handle (wreqs w wr)) w) (\<lambda>w.
     case (if status < 0 then (case ijNewError E status w of (arg, w) \<Rightarrow> (arg, True, w))
           else (JS_UNDEFINED, False, w)) of (arg, is_reject, w) \<Rightarrow>
     bindE (ijSettlePromise E (wr_result (wreqs w wr)) is_reject [arg] w) (\<lambda>(pr, w).
     js_free wr w))))"

definition ijStreamWrite ::
    "jsenv \<Rightarrow> strenv \<Rightarrow> nat \<Rightarrow> jsval list \<Rightarrow> 'z stream_rt_scheme
       \<Rightarrow> (jsval \<times> 'z stream_rt_scheme) res" where
  "ijStreamWrite E S s argv w =
     (if s = 0 then Inr (JS_EXCEPTION, w)
      else case js_data E (argn 0 argv) w of
        (None, w) \<Rightarrow> Inr (JS_EXCEPTION, w)
      | (Some (is_string, buf, data), w) \<Rightarrow>
        bindE (deref s w) (\<lambda>w.
        let r = try_write S data;
            written = (if 0 \<le> r then nat r else 0);
            w = st_upd s (\<lambda>t. t\<lparr>st_sent := st_sent t @ take written data\<rparr>) w
        in if r = int (length data)
           then bindE (if is_string then JS_FreeCString (buf, 0) w else Inr w)
                  (\<lambda>w. ijNewResolvedPromise E [] w)
           else case js_malloc w of (wr, w) \<Rightarrow>
             if wr = 0 then Inr (JS_EXCEPTION, w)
             else bindE (if is_string then JS_FreeCString (buf, written) w else Inr w) (\<lambda>w.
               let rest = drop written data;
                   w = w\<lparr>wreqs := (wreqs w)(wr := \<lparr>wr_handle = s,
                         wr_result = uninit_promise E, wr_data = rest\<rparr>)\<rparr>;
                   r = uv_write S rest
               in if r \<noteq> 0
                  then bindE (js_free wr w) (\<lambda>w. Inr (ijThrowErrno E r w))
                  else (let w = st_upd s (\<lambda>t. t\<lparr>st_sent := st_sent t @ rest\<rparr>) w in
                    case ijInitPromise (wr_result (wreqs w wr)) w of (v, pr, w) \<Rightarrow>
                    Inr (v, w\<lparr>wreqs := (wreqs w)(wr := (wreqs w wr)\<lparr>wr_result := pr\<rparr>)\<rparr>)))))"

section \<open>Shutdown and file numbers\<close>

definition uvStreamShutdownCb ::
    "jsenv \<Rightarrow> nat \<Rightarrow> int \<Rightarrow> 'z stream_rt_scheme \<Rightarrow> 'z stream_rt_scheme res" where
  "uvStreamShutdownCb E sr status w =
     bindE (deref sr w) (\<lambda>w.
     bindE (CHECK (sr_handle (sreqs w sr) \<noteq> 0) w) (\<lambda>w.
     bindE (deref (sr_handle (sreqs w sr)) w) (\<lambda>w.
     case (if status = 0 then (JS_UNDEFINED, False, w)
           else (case ijNewError E status w of (arg, w) \<Rightarrow> (arg, True, w)))
     of (arg, is_reject, w) \<Rightarrow>
     bindE (ijSettlePromise E (sr_result (sreqs w sr)) is_reject [arg] w) (\<lambda>(pr, w).
     js_free sr w))))"

definition ijStreamShutdown ::
    "jsenv \<Rightarrow> strenv \<Rightarrow> nat \<Rightarrow> 'z stream_rt_scheme \<Rightarrow> (jsval \<times> 'z stream_rt_scheme) res" where
  "ijStreamShutdown E S s w =
     (if s = 0 then Inr (JS_EXCEPTION, w)
      else case js_malloc w of (sr, w) \<Rightarrow>
        if sr = 0 then Inr (JS_EXCEPTION, w)
        else bindE (deref s w) (\<lambda>w.
          let w = w\<lparr>sreqs := (sreqs w)(sr := \<lparr>sr_handle = s, sr_result = uninit_promise E\<rparr>)\<rparr>;
              r = uv_shutdown S
          in if r \<noteq> 0 then Inr (ijThrowErrno E r w)
             else case ijInitPromise (sr_result (sreqs w sr)) w of (v, pr, w) \<Rightarrow>
               Inr (v, w\<lparr>sreqs := (sreqs w)(sr := (sreqs w sr)\<lparr>sr_result := pr\<rparr>)\<rparr>)))"

definition ijStreamFileno ::
    "jsenv \<Rightarrow> strenv \<Rightarrow> nat \<Rightarrow> 'z stream_rt_scheme \<Rightarrow> (jsval \<times> 'z stream_rt_scheme) res" where
  "ijStreamFileno E S s w =
     (if s = 0 then Inr (JS_EXCEPTION, w)
      else bindE (deref s w) (\<lambda>w. case uv_fileno S of (r, fd) \<Rightarrow>
        if r \<noteq> 0 then Inr (ijThrowErrno E r w) else Inr (JS_NewInt32 fd, w)))"

section \<open>Creating and finalizing streams\<close>

definition ijInitStream ::
    "jsval \<Rightarrow> nat \<Rightarrow> uv_type \<Rightarrow> 'z stream_rt_scheme \<Rightarrow> jsval \<times> 'z stream_rt_scheme" where
  "ijInitStream obj s ty w =
     (let w = st_upd s (\<lambda>_. \<lparr>st_closed = False, st_finalized = False, st_type = ty,
                st_read_size = 0, st_read = clear_promise, st_accept = clear_promise,
                st_reading = False, st_sent = []\<rparr>) w
      in (obj, JS_SetOpaque obj s w))"

definition ijStreamFinalizer :: "nat \<Rightarrow> 'z stream_rt_scheme \<Rightarrow> 'z stream_rt_scheme res" where
  "ijStreamFinalizer s w =
     (if s \<noteq> 0 then
        bindE (deref s w) (\<lambda>w.
        bindE (ijFreePromiseRT (st_accept (streams w s)) w) (\<lambda>(pr, w).
        let w = st_upd s (\<lambda>t. t\<lparr>st_accept := pr\<rparr>) w in
        bindE (ijFreePromiseRT (st_read (streams w s)) w) (\<lambda>(pr, w).
        let w = st_upd s (\<lambda>t. t\<lparr>st_read := pr\<rparr>) w;
            w = st_upd s (\<lambda>t. t\<lparr>st_finalized := True\<rparr>) w
        in if st_closed (streams w s) then je_free s w else uvStreamMaybeClose s w)))
      else Inr w)"

definition ijStreamMark :: "nat \<Rightarrow> 'z stream_rt_scheme \<Rightarrow> jsval list" where
  "ijStreamMark s w =
     (if s \<noteq> 0 then ijMarkPromise (st_read (streams w s)) @ ijMarkPromise (st_accept (streams w s))
      else [])"

definition ijNewTcp ::
    "strenv \<Rightarrow> int \<Rightarrow> 'z stream_rt_scheme \<Rightarrow> (jsval \<times> 'z stream_rt_scheme) res" where
  "ijNewTcp S af w = (case JS_NewObjectClass ijjs_tcp_class_id w of (obj, w) \<Rightarrow>
     if JS_IsException obj then Inr (obj, w)
     else case je_calloc w of (s, w) \<Rightarrow>
       if s = 0 then bindE (JS_FreeValue obj w) (\<lambda>w. Inr (JS_EXCEPTION, w))
       else if tcp_init S af \<noteq> 0 then
         bindE (JS_FreeValue obj w) (\<lambda>w.
         bindE (je_free s w) (\<lambda>w.
         Inr (JS_ThrowInternalError ''couldn't initialize TCP handle'' w)))
       else Inr (ijInitStream obj s UV_TCP (uv_handle_init s 0 w)))"

definition ijNewPipe ::
    "strenv \<Rightarrow> 'z stream_rt_scheme \<Rightarrow> (jsval \<times> 'z stream_rt_scheme) res" where
  "ijNewPipe S w = (case JS_NewObjectClass ijjs_pipe_class_id w of (obj, w) \<Rightarrow>
     if JS_IsException obj then Inr (obj, w)
     else case je_calloc w of (s, w) \<Rightarrow>
       if s = 0 then bindE (JS_FreeValue obj w) (\<lambda>w. Inr (JS_EXCEPTION, w))
       else if pipe_init S \<noteq> 0 then
         bindE (JS_FreeValue obj w) (\<lambda>w.
         bindE (je_free s w) (\<lambda>w.
         Inr (JS_ThrowInternalError ''couldn't initialize Pipe handle'' w)))
       else Inr (ijInitStream obj s UV_NAMED_PIPE (uv_handle_init s 0 w)))"

text \<open>The constructor is declared with one argument and reads two.\<close>

definition ijTtyConstructor ::
    "jsenv \<Rightarrow> strenv \<Rightarrow> jsval list \<Rightarrow> 'z stream_rt_scheme
       \<Rightarrow> (jsval \<times> 'z stream_rt_scheme) res" where
  "ijTtyConstructor E S argv w = (case JS_ToInt32 E (argn 0 argv) w of
     (None, w) \<Rightarrow> Inr (JS_EXCEPTION, w)
   | (Some fd, w) \<Rightarrow>
     bindE (readable_arg 1 1 argv) (\<lambda>arg1. case to_bool E arg1 of
        None \<Rightarrow> Inr (JS_EXCEPTION, w)
      | Some readable \<Rightarrow>
        (case JS_NewObjectClass ijjs_tty_class_id w of (obj, w) \<Rightarrow>
         if JS_IsException obj then Inr (obj, w)
         else case je_calloc w of (s, w) \<Rightarrow>
           if s = 0 then bindE (JS_FreeValue obj w) (\<lambda>w. Inr (JS_EXCEPTION, w))
           else if tty_init S fd readable \<noteq> 0 then
             bindE (JS_FreeValue obj w) (\<lambda>w.
             bindE (je_free s w) (\<lambda>w.
             Inr (JS_ThrowInternalError ''couldn't initialize TTY handle'' w)))
           else Inr (ijInitStream obj s UV_TTY (uv_handle_init s 0 w)))))"

definition ijTcpConstructor ::
    "jsenv \<Rightarrow> strenv \<Rightarrow> jsval list \<Rightarrow> 'z stream_rt_scheme
       \<Rightarrow> (jsval \<times> 'z stream_rt_scheme) res" where
  "ijTcpConstructor E S argv w =
     (case (if \<not> JS_IsUndefined (argn 0 argv) then JS_ToInt32 E (argn 0 argv) w
            else (Some AF_UNSPEC, w)) of
        (None, w) \<Rightarrow> Inr (JS_EXCEPTION, w)
      | (Some af, w) \<Rightarrow> ijNewTcp S af w)"

definition ijPipeConstructor ::
    "strenv \<Rightarrow> 'z stream_rt_scheme \<Rightarrow> (jsval \<times> 'z stream_rt_scheme) res" where
  "ijPipeConstructor S w = ijNewPipe S w"

definition ijTcpGet :: "jsval \<Rightarrow> 'z stream_rt_scheme \<Rightarrow> nat \<times> 'z stream_rt_scheme" where
  "ijTcpGet obj w = JS_GetOpaque2 obj ijjs_tcp_class_id w"

definition ijTtyGet :: "jsval \<Rightarrow> 'z stream_rt_scheme \<Rightarrow> nat \<times> 'z stream_rt_scheme" where
  "ijTtyGet obj w = JS_GetOpaque2 obj ijjs_tty_class_id w"

definition ijPipeGet :: "jsval \<Rightarrow> 'z stream_rt_scheme \<Rightarrow> nat \<times> 'z stream_rt_scheme" where
  "ijPipeGet obj w = JS_GetOpaque2 obj ijjs_pipe_class_id w"

definition ijPipeGetStream :: "jsval \<Rightarrow> 'z stream_rt_scheme \<Rightarrow> nat \<times> 'z stream_rt_scheme" where
  "ijPipeGetStream obj w = (case ijPipeGet obj w of (s, w) \<Rightarrow> if s \<noteq> 0 then (s, w) else (0, w))"

definition ijTcpFinalizer :: "jsval \<Rightarrow> 'z stream_rt_scheme \<Rightarrow> 'z stream_rt_scheme res" where
  "ijTcpFinalizer val w = ijStreamFinalizer (JS_GetOpaque val ijjs_tcp_class_id w) w"

definition ijTtyFinalizer :: "jsval \<Rightarrow> 'z stream_rt_scheme \<Rightarrow> 'z stream_rt_scheme res" where
  "ijTtyFinalizer val w = ijStreamFinalizer (JS_GetOpaque val ijjs_tty_class_id w) w"

definition ijPipeFinalizer :: "jsval \<Rightarrow> 'z stream_rt_scheme \<Rightarrow> 'z stream_rt_scheme res" where
  "ijPipeFinalizer val w = ijStreamFinalizer (JS_GetOpaque val ijjs_pipe_class_id w) w"

definition ijTcpMark :: "jsval \<Rightarrow> 'z stream_rt_scheme \<Rightarrow> jsval list" where
  "ijTcpMark val w = ijStreamMark (JS_GetOpaque val ijjs_tcp_class_id w) w"

definition ijTtyMark :: "jsval \<Rightarrow> 'z stream_rt_scheme \<Rightarrow> jsval list" where
  "ijTtyMark val w = ijStreamMark (JS_GetOpaque val ijjs_tty_class_id w) w"

definition ijPipeMark :: "jsval \<Rightarrow> 'z stream_rt_scheme \<Rightarrow> jsval list" where
  "ijPipeMark val w = ijStreamMark (JS_GetOpaque val ijjs_pipe_class_id w) w"

section \<open>Connections\<close>

definition uvStreamConnectCb ::
    "jsenv \<Rightarrow> nat \<Rightarrow> int \<Rightarrow> 'z stream_rt_scheme \<Rightarrow> 'z stream_rt_scheme res" where
  "uvStreamConnectCb E cr status w =
     bindE (deref cr w) (\<lambda>w.
     bindE (CHECK (cr_handle (creqs w cr) \<noteq> 0) w) (\<lambda>w.
     bindE (deref (cr_handle (creqs w cr)) w) (\<lambda>w.
     case (if status = 0 then (JS_UNDEFINED, False, w)
           else (case ijNewError E status w of (arg, w) \<Rightarrow> (arg, True, w)))
     of (arg, is_reject, w) \<Rightarrow>
     bindE (ijSettlePromise E (cr_result (creqs w cr)) is_reject [arg] w) (\<lambda>(pr, w).
     js_free cr w))))"

text \<open>
  The accepted stream is a new object of the listening handle's kind; a TTY does not listen.
  When the object cannot be created, the structure behind it is missing and uv\_accept gets
  a pointer into nothing.
\<close>

definition uvStreamConnectionCb ::
    "jsenv \<Rightarrow> strenv \<Rightarrow> nat \<Rightarrow> int \<Rightarrow> 'z stream_rt_scheme \<Rightarrow> 'z stream_rt_scheme res" where
  "uvStreamConnectionCb E S s status w =
     bindE (CHECK (s \<noteq> 0) w) (\<lambda>w.
     bindE (deref s w) (\<lambda>w.
     if JS_IsUndefined (pr_p (st_accept (streams w s))) then Inr w
     else
       bindE (if status = 0
              then bindE (case st_type (streams w s) of
                     UV_TCP \<Rightarrow> bindE (ijNewTcp S AF_UNSPEC w) (\<lambda>(arg, w).
                       case ijTcpGet arg w of (t2, w) \<Rightarrow> Inr (arg, t2, w))
                   | UV_NAMED_PIPE \<Rightarrow> bindE (ijNewPipe S w) (\<lambda>(arg, w).
                       case ijPipeGet arg w of (t2, w) \<Rightarrow> Inr (arg, t2, w))
                   | UV_TTY \<Rightarrow> Inl AbortCalled) (\<lambda>(arg, t2, w).
                   bindE (deref t2 w) (\<lambda>w.
                   let r = uv_accept S
                   in if r \<noteq> 0
                      then bindE (JS_FreeValue arg w) (\<lambda>w. case ijNewError E r w of
                             (arg, w) \<Rightarrow> Inr (arg, True, w))
                      else Inr (arg, False, w)))
              else (case ijNewError E status w of (arg, w) \<Rightarrow> Inr (arg, True, w)))
         (\<lambda>(arg, is_reject, w).
       bindE (ijSettlePromise E (st_accept (streams w s)) is_reject [arg] w) (\<lambda>(pr, w).
       Inr (st_upd s (\<lambda>t. t\<lparr>st_accept := ijClearPromise pr\<rparr>) w)))))"

definition ijStreamListen ::
    "jsenv \<Rightarrow> strenv \<Rightarrow> nat \<Rightarrow> jsval list \<Rightarrow> 'z stream_rt_scheme
       \<Rightarrow> (jsval \<times> 'z stream_rt_scheme) res" where
  "ijStreamListen E S s argv w =
     (if s = 0 then Inr (JS_EXCEPTION, w)
      else case (if \<not> JS_IsUndefined (argn 0 argv) then JS_ToUint32 E (argn 0 argv) w
                 else (Some 511, w)) of
        (None, w) \<Rightarrow> Inr (JS_EXCEPTION, w)
      | (Some backlog, w) \<Rightarrow>
        bindE (deref s w) (\<lambda>w.
        let r = uv_listen S (to_s32 backlog)
        in if r \<noteq> 0 then Inr (ijThrowErrno E r w) else Inr (JS_UNDEFINED, w)))"

definition ijStreamAccept ::
    "jsenv \<Rightarrow> strenv \<Rightarrow> nat \<Rightarrow> 'z stream_rt_scheme \<Rightarrow> (jsval \<times> 'z stream_rt_scheme) res" where
  "ijStreamAccept E S s w =
     (if s = 0 then Inr (JS_EXCEPTION, w)
      else bindE (deref s w) (\<lambda>w.
      if \<not> JS_IsUndefined (pr_p (st_accept (streams w s)))
      then Inr (ijThrowErrno E (UV_EBUSY S) w)
      else case ijInitPromise (st_accept (streams w s)) w of
        (v, pr, w) \<Rightarrow> Inr (v, st_upd s (\<lambda>t. t\<lparr>st_accept := pr\<rparr>) w)))"

section \<open>Delivery of data\<close>

text \<open>What libuv does when a stream with an armed read callback becomes readable: ask for a
  buffer, and report either the missing buffer or what was read into it.\<close>

definition uv_stream_deliver ::
    "jsenv \<Rightarrow> strenv \<Rightarrow> nat \<Rightarrow> int \<Rightarrow> string \<Rightarrow> 'z stream_rt_scheme
       \<Rightarrow> 'z stream_rt_scheme res" where
  "uv_stream_deliver E S s nread data w =
     (if st_reading (streams w s) then
        bindE (uvStreamAllocCb s w) (\<lambda>(base, len, w).
        if base = 0 then uvStreamReadCb E S s (UV_ENOBUFS S) 0 [] w
        else uvStreamReadCb E S s nread base data w)
      else Inr w)"

section \<open>The close/finalize contract\<close>

definition stream_abs :: "nat \<Rightarrow> 'z stream_rt_scheme \<Rightarrow> lc" where
  "stream_abs p w = \<lparr>lc_h = hnd w p 0, lc_closed = st_closed (streams w p),
     lc_fin = st_finalized (streams w p), lc_freed = (blk w p = NoBlock)\<rparr>"

definition stream_base :: "jsenv \<Rightarrow> strenv \<Rightarrow> nat \<Rightarrow> 'z stream_rt_scheme \<Rightarrow> bool" where
  "stream_base E S p w \<longleftrightarrow> jsenv_ok E \<and> strenv_ok S \<and> p \<noteq> 0 \<and> p \<le> tick w \<and> blk w p = JeBlock \<and>
     fresh_blk w \<and> hnd w p 1 = HNone"

definition stream_good :: "jsenv \<Rightarrow> strenv \<Rightarrow> nat \<Rightarrow> 'z stream_rt_scheme \<Rightarrow> bool" where
  "stream_good E S p w \<longleftrightarrow> stream_base E S p w \<and>
     (\<not> st_finalized (streams w p) \<longrightarrow>
        pair_ok (st_read (streams w p)) (st_accept (streams w p)) w)"

text \<open>The other operations on a stream: read, delivery of data or of an error, accept, and a
  failed incoming connection.\<close>

datatype stream_use = SRead "jsval list" | SDeliver int string | SAccept | SConnFail int

fun stream_ena :: "stream_use \<Rightarrow> lc \<Rightarrow> bool" where
  "stream_ena (SRead argv) s = (\<not> lc_fin s)"
| "stream_ena SAccept s = (\<not> lc_fin s)"
| "stream_ena (SDeliver n d) s = (\<not> lc_fin s \<and> lc_h s = HOpen)"
| "stream_ena (SConnFail e) s = (\<not> lc_fin s \<and> lc_h s = HOpen \<and> e \<noteq> 0)"

fun stream_perform ::
    "jsenv \<Rightarrow> strenv \<Rightarrow> stream_use lc_act \<Rightarrow> nat \<Rightarrow> 'z stream_rt_scheme
       \<Rightarrow> 'z stream_rt_scheme res" where
  "stream_perform E S UserClose p w = bindE (ijStreamClose p w) (\<lambda>(_, w). Inr w)"
| "stream_perform E S CloseDone p w = uvStreamCloseCb p (uv_finish_close p 0 w)"
| "stream_perform E S Finalize p w = ijStreamFinalizer p w"
| "stream_perform E S (Use (SRead argv)) p w = bindE (ijStreamRead E S p argv w) (\<lambda>(_, w). Inr w)"
| "stream_perform E S (Use (SDeliver n d)) p w = uv_stream_deliver E S p n d w"
| "stream_perform E S (Use SAccept) p w = bindE (ijStreamAccept E S p w) (\<lambda>(_, w). Inr w)"
| "stream_perform E S (Use (SConnFail e)) p w = uvStreamConnectionCb E S p e w"

lemma streams_more: "rt.more w' = rt.more w \<Longrightarrow> streams w' = streams w"
  by (cases w; cases w') simp

lemma stream_alloc:
  assumes "alloc_frame w w'" "stream_good E S p w"
  shows "stream_good E S p w'" "stream_abs p w' = stream_abs p w" "streams w' = streams w"
proof -
  show st: "streams w' = streams w"
    using assms(1) by (intro streams_more) (simp add: alloc_frame_def)
  show "stream_good E S p w'"
    using assms pair_alloc [OF assms(1)]
    by (auto simp: stream_good_def stream_base_def st alloc_frame_def)
  show "stream_abs p w' = stream_abs p w"
    using assms by (auto simp: stream_abs_def st alloc_frame_def stream_good_def stream_base_def)
qed

text \<open>Changing the fields outside the protocol keeps everything.\<close>

lemma stream_upd:
  assumes "stream_good E S p w" "\<And>t. st_closed (f t) = st_closed t"
    "\<And>t. st_finalized (f t) = st_finalized t" "\<And>t. st_read (f t) = st_read t"
    "\<And>t. st_accept (f t) = st_accept t"
  shows "stream_good E S p (st_upd p f w)" "stream_abs p (st_upd p f w) = stream_abs p w"
proof -
  have "pair_ok a b w \<Longrightarrow> pair_ok a b (st_upd p f w)" for a b
    by (erule pair_frame) (simp_all add: st_upd_def)
  then show "stream_good E S p (st_upd p f w)"
    using assms by (auto simp: stream_good_def stream_base_def st_upd_def fresh_blk_def)
  show "stream_abs p (st_upd p f w) = stream_abs p w"
    using assms by (simp add: stream_abs_def st_upd_def)
qed

text \<open>Settling one of the two slots, and opening one.\<close>

lemma stream_settle:
  assumes "stream_good E S p w" "\<not> st_finalized (streams w p)" "v \<noteq> JS_JUNK" "\<forall>n. v \<noteq> JS_Ref n"
  shows "\<exists>pr w1. ijSettlePromise E (st_read (streams w p)) rej [v] w = Inr (pr, w1) \<and>
      stream_good E S p (st_upd p (\<lambda>t. t\<lparr>st_read := ijClearPromise pr\<rparr>) w1) \<and>
      stream_abs p (st_upd p (\<lambda>t. t\<lparr>st_read := ijClearPromise pr\<rparr>) w1) = stream_abs p w"
    and "\<exists>pr w1. ijSettlePromise E (st_accept (streams w p)) rej [v] w = Inr (pr, w1) \<and>
      stream_good E S p (st_upd p (\<lambda>t. t\<lparr>st_accept := ijClearPromise pr\<rparr>) w1) \<and>
      stream_abs p (st_upd p (\<lambda>t. t\<lparr>st_accept := ijClearPromise pr\<rparr>) w1) = stream_abs p w"
proof -
  have ok: "pair_ok (st_read (streams w p)) (st_accept (streams w p)) w"
    and base: "stream_base E S p w"
    using assms(1,2) by (simp_all add: stream_good_def)
  have lift: "pair_ok a b (w\<lparr>refs := rs, proms := ps\<rparr>) \<Longrightarrow>
      pair_ok a b (st_upd p f (w\<lparr>refs := rs, proms := ps\<rparr>))" for a b rs ps f
    by (erule pair_frame) (simp_all add: st_upd_def)
  note d = stream_base_def st_upd_def fresh_blk_def
  from pair_settle [OF ok assms(3,4), of E rej] obtain pr rs ps
    where s: "ijSettlePromise E (st_read (streams w p)) rej [v] w =
        Inr (pr, w\<lparr>refs := rs, proms := ps\<rparr>)"
      "pair_ok (ijClearPromise pr) (st_accept (streams w p)) (w\<lparr>refs := rs, proms := ps\<rparr>)"
    by blast
  show "\<exists>pr w1. ijSettlePromise E (st_read (streams w p)) rej [v] w = Inr (pr, w1) \<and>
      stream_good E S p (st_upd p (\<lambda>t. t\<lparr>st_read := ijClearPromise pr\<rparr>) w1) \<and>
      stream_abs p (st_upd p (\<lambda>t. t\<lparr>st_read := ijClearPromise pr\<rparr>) w1) = stream_abs p w"
    using s(1) lift [OF s(2), of "\<lambda>t. t\<lparr>st_read := ijClearPromise pr\<rparr>"] base
    by (simp add: stream_good_def stream_abs_def d)
  from pair_settle [OF iffD1 [OF pair_sym ok] assms(3,4), of E rej] obtain pr rs ps
    where a: "ijSettlePromise E (st_accept (streams w p)) rej [v] w =
        Inr (pr, w\<lparr>refs := rs, proms := ps\<rparr>)"
      "pair_ok (st_read (streams w p)) (ijClearPromise pr) (w\<lparr>refs := rs, proms := ps\<rparr>)"
    using pair_sym by blast
  show "\<exists>pr w1. ijSettlePromise E (st_accept (streams w p)) rej [v] w = Inr (pr, w1) \<and>
      stream_good E S p (st_upd p (\<lambda>t. t\<lparr>st_accept := ijClearPromise pr\<rparr>) w1) \<and>
      stream_abs p (st_upd p (\<lambda>t. t\<lparr>st_accept := ijClearPromise pr\<rparr>) w1) = stream_abs p w"
    using a(1) lift [OF a(2), of "\<lambda>t. t\<lparr>st_accept := ijClearPromise pr\<rparr>"] base
    by (simp add: stream_good_def stream_abs_def d)
qed

lemma idle_not_valid: "slot_ok pr w \<Longrightarrow> pr_p pr = JS_UNDEFINED \<Longrightarrow> \<not> pr_valid pr"
  by (auto simp: slot_ok_def)

lemma stream_init_frame:
  assumes "stream_base E S p w" "init_frame w w1"
  shows "stream_base E S p (st_upd p f w1)" "streams w1 = streams w"
    "hnd w1 p 0 = hnd w p 0" "blk w1 p = blk w p"
proof -
  show "streams w1 = streams w" "hnd w1 p 0 = hnd w p 0" "blk w1 p = blk w p"
    using assms(2) streams_more [of w1 w] by (simp_all add: init_frame_def)
  show "stream_base E S p (st_upd p f w1)"
    using assms init_fresh [OF assms(2)]
    by (auto simp: stream_base_def st_upd_def init_frame_def fresh_blk_def)
qed

lemma stream_open:
  assumes "stream_good E S p w" "\<not> st_finalized (streams w p)"
  shows "ijInitPromise (st_read (streams w p)) w = (v, pr, w1) \<Longrightarrow>
      pr_p (st_read (streams w p)) = JS_UNDEFINED \<Longrightarrow>
      stream_good E S p (st_upd p (\<lambda>t. t\<lparr>st_read := pr\<rparr>) w1) \<and>
      stream_abs p (st_upd p (\<lambda>t. t\<lparr>st_read := pr\<rparr>) w1) = stream_abs p w"
    and "ijInitPromise (st_accept (streams w p)) w = (v, pr, w1) \<Longrightarrow>
      pr_p (st_accept (streams w p)) = JS_UNDEFINED \<Longrightarrow>
      stream_good E S p (st_upd p (\<lambda>t. t\<lparr>st_accept := pr\<rparr>) w1) \<and>
      stream_abs p (st_upd p (\<lambda>t. t\<lparr>st_accept := pr\<rparr>) w1) = stream_abs p w"
proof -
  have ok: "pair_ok (st_read (streams w p)) (st_accept (streams w p)) w"
    and base: "stream_base E S p w"
    using assms by (simp_all add: stream_good_def)
  have lift: "pair_ok a b w1 \<Longrightarrow> pair_ok a b (st_upd p f w1)" for a b f
    by (erule pair_frame) (simp_all add: st_upd_def)
  { assume i: "ijInitPromise (st_read (streams w p)) w = (v, pr, w1)"
      "pr_p (st_read (streams w p)) = JS_UNDEFINED"
    have "\<not> pr_valid (st_read (streams w p))"
      using ok i(2) idle_not_valid by (auto simp: pair_ok_def)
    from lift [OF pair_init [OF ok this i(1)]]
    show "stream_good E S p (st_upd p (\<lambda>t. t\<lparr>st_read := pr\<rparr>) w1) \<and>
        stream_abs p (st_upd p (\<lambda>t. t\<lparr>st_read := pr\<rparr>) w1) = stream_abs p w"
      using stream_init_frame [OF base init_frame_init [OF i(1)]]
      by (auto simp: stream_good_def stream_abs_def) (simp_all add: st_upd_def) }
  { assume i: "ijInitPromise (st_accept (streams w p)) w = (v, pr, w1)"
      "pr_p (st_accept (streams w p)) = JS_UNDEFINED"
    have "\<not> pr_valid (st_accept (streams w p))"
      using ok i(2) idle_not_valid by (auto simp: pair_ok_def)
    from lift [OF iffD1 [OF pair_sym pair_init [OF iffD1 [OF pair_sym ok] this i(1)]]]
    show "stream_good E S p (st_upd p (\<lambda>t. t\<lparr>st_accept := pr\<rparr>) w1) \<and>
        stream_abs p (st_upd p (\<lambda>t. t\<lparr>st_accept := pr\<rparr>) w1) = stream_abs p w"
      using stream_init_frame [OF base init_frame_init [OF i(1)]]
      by (auto simp: stream_good_def stream_abs_def) (simp_all add: st_upd_def) }
qed

section \<open>Every operation keeps the invariant\<close>

text \<open>\<open>kept E S p w r\<close>: the outcome \<open>r\<close> is not a crash and the stream is as good as before.\<close>

definition kept ::
    "jsenv \<Rightarrow> strenv \<Rightarrow> nat \<Rightarrow> 'z stream_rt_scheme \<Rightarrow> 'z stream_rt_scheme res \<Rightarrow> bool" where
  "kept E S p w r \<longleftrightarrow>
     (\<exists>w'. r = Inr w' \<and> stream_good E S p w' \<and> stream_abs p w' = stream_abs p w)"

lemma kept_throw:
  assumes "stream_good E S p w"
  shows "kept E S p w (bindE (Inr (ijThrowErrno E e w)) (\<lambda>(_, w). Inr w))"
proof -
  obtain v w' where t: "ijThrowErrno E e w = (v, w')" by fastforce
  then have "alloc_frame w w'" using af_throwErrno by blast
  with stream_alloc [OF this assms] show ?thesis by (auto simp: kept_def t)
qed

lemma kept_read:
  assumes "stream_good E S p w" "\<not> st_finalized (streams w p)"
  shows "kept E S p w (stream_perform E S (Use (SRead argv)) p w)"
proof -
  have d: "deref p w = Inr w" "p \<noteq> 0"
    using assms(1) by (simp_all add: deref_def stream_good_def stream_base_def)
  show ?thesis
  proof (cases "pr_p (st_read (streams w p)) = JS_UNDEFINED")
    case False
    with kept_throw [OF assms(1), of "UV_EBUSY S"] d show ?thesis
      by (simp add: ijStreamRead_def)
  next
    case True
    obtain r w1 where c: "(if \<not> JS_IsUndefined (argn 0 argv) then JS_ToIndex E (argn 0 argv) w
        else (Some IJJS_DEFAULt_READ_SIZE, w)) = (r, w1)" by fastforce
    then have "alloc_frame w w1" by (auto split: if_splits dest: af_toIndex)
    note g1 = stream_alloc [OF this assms(1)]
    show ?thesis
    proof (cases r)
      case (Some sz)
      let ?w2 = "st_upd p (\<lambda>t. t\<lparr>st_read_size := sz\<rparr>) w1"
      let ?w3 = "st_upd p (\<lambda>t. t\<lparr>st_reading := True\<rparr>) ?w2"
      have g2: "stream_good E S p ?w2" "stream_abs p ?w2 = stream_abs p w"
        using stream_upd [OF g1(1)] g1(2) by simp_all
      have g3: "stream_good E S p ?w3" "stream_abs p ?w3 = stream_abs p w"
        using stream_upd [OF g2(1)] g2(2) by simp_all
      obtain v pr w4 where i: "ijInitPromise (st_read (streams ?w3 p)) ?w3 = (v, pr, w4)"
        by (cases "ijInitPromise (st_read (streams ?w3 p)) ?w3")
      have "\<not> st_finalized (streams ?w3 p)" "pr_p (st_read (streams ?w3 p)) = JS_UNDEFINED"
        using assms(2) True g1(3) by (simp_all add: st_upd_def)
      from stream_open(1) [OF g3(1) this(1) i this(2)] g3(2)
      have "kept E S p w (Inr (st_upd p (\<lambda>t. t\<lparr>st_read := pr\<rparr>) w4))" by (simp add: kept_def)
      moreover have "kept E S p w (bindE (Inr (ijThrowErrno E e ?w2)) (\<lambda>(_, w). Inr w))" for e
        using kept_throw [OF g2(1), of e] g2(2) by (simp add: kept_def)
      ultimately show ?thesis
        using True d c Some i by (auto simp: ijStreamRead_def Let_def)
    qed (use True d c g1 in \<open>simp add: ijStreamRead_def kept_def\<close>)
  qed
qed

lemma kept_accept:
  assumes "stream_good E S p w" "\<not> st_finalized (streams w p)"
  shows "kept E S p w (stream_perform E S (Use SAccept) p w)"
proof -
  have d: "deref p w = Inr w" "p \<noteq> 0"
    using assms(1) by (simp_all add: deref_def stream_good_def stream_base_def)
  obtain v pr w1 where i: "ijInitPromise (st_accept (streams w p)) w = (v, pr, w1)"
    by (cases "ijInitPromise (st_accept (streams w p)) w")
  show ?thesis
    using d kept_throw [OF assms(1), of "UV_EBUSY S"] stream_open(2) [OF assms i] i
    by (auto simp: ijStreamAccept_def kept_def)
qed

lemma kept_settle_read:
  assumes "stream_good E S p w1" "\<not> st_finalized (streams w1 p)" "stream_abs p w1 = stream_abs p w"
    "v \<noteq> JS_JUNK" "\<forall>n. v \<noteq> JS_Ref n"
  shows "kept E S p w (bindE (ijSettlePromise E (st_read (streams w1 p)) rej [v] w1) (\<lambda>(pr, w).
     Inr (st_upd p (\<lambda>t. t\<lparr>st_read := ijClearPromise pr\<rparr>) w)))"
  using stream_settle(1) [OF assms(1,2,4,5), of rej] assms(3) by (auto simp: kept_def)

lemma kept_read_cb:
  assumes "alloc_frame w w1" "stream_good E S p w" "\<not> st_finalized (streams w p)"
    and "base \<noteq> 0 \<longrightarrow> tick w < base \<and> base \<le> tick w1 \<and> blk w1 base = JsBlock \<and>
      hnd w1 base = (\<lambda>_. HNone)"
    and "base = 0 \<longrightarrow> nread < 0"
  shows "kept E S p w (uvStreamReadCb E S p nread base data w1)"
proof -
  let ?w1 = "st_upd p (\<lambda>t. t\<lparr>st_reading := False\<rparr>) w1"
  let ?w0 = "st_upd p (\<lambda>t. t\<lparr>st_reading := False\<rparr>) w"
  have d: "deref p w1 = Inr w1" "p \<noteq> 0"
    using stream_alloc(1) [OF assms(1,2)]
    by (simp_all add: deref_def stream_good_def stream_base_def)
  have st: "streams w1 = streams w" by (rule stream_alloc [OF assms(1,2)])
  have g0: "stream_good E S p ?w0" "stream_abs p ?w0 = stream_abs p w"
    using stream_upd [OF assms(2)] by simp_all
  have more: "rt.more ?w1 = rt.more ?w0"
    using assms(1) by (cases w; cases w1) (simp add: st_upd_def alloc_frame_def)
  then have a1: "alloc_frame ?w0 ?w1"
    using assms(1) by (auto simp: st_upd_def alloc_frame_def fresh_blk_def)
  have settle: "kept E S p w (bindE (ijSettlePromise E (st_read (streams w2 p)) rej [v] w2)
      (\<lambda>(pr, w). Inr (st_upd p (\<lambda>t. t\<lparr>st_read := ijClearPromise pr\<rparr>) w)))"
    if "alloc_frame ?w0 w2" "v \<noteq> JS_JUNK" "\<forall>n. v \<noteq> JS_Ref n" for w2 v rej
    using stream_alloc [OF that(1) g0(1)] g0(2) assms(3) that(2,3)
    by (intro kept_settle_read) (simp_all add: st_upd_def)
  have young: "tick ?w0 < base \<and> base \<le> tick ?w1 \<and> blk ?w1 base = JsBlock \<and>
      hnd ?w1 base = (\<lambda>_. HNone)" if "base \<noteq> 0"
    using assms(4) that by (simp add: st_upd_def)
  have free: "\<exists>w3. js_free base w2 = Inr w3 \<and> alloc_frame ?w0 w3"
    if "alloc_frame ?w1 w2" for w2
  proof (cases "base = 0")
    case False
    note y = young [OF this]
    have "blk w2 base = JsBlock" "hnd w2 base = (\<lambda>_. HNone)" "base \<le> tick w2"
      using y that by (auto simp: alloc_frame_def)
    then show ?thesis
      using af_free_young [OF af_trans [OF a1 that]] y by (simp add: js_free_def)
  qed (use af_trans [OF a1 that] in \<open>simp add: js_free_def free_block_def\<close>)
  show ?thesis
  proof (cases "nread < 0")
    case True
    obtain v rj w2 where v: "(if nread = UV_EOF S then (JS_UNDEFINED, False, ?w1)
        else (case ijNewError E nread ?w1 of (arg, w) \<Rightarrow> (arg, True, w))) = (v, rj, w2)"
      by (cases "if nread = UV_EOF S then (JS_UNDEFINED, False, ?w1)
        else (case ijNewError E nread ?w1 of (arg, w) \<Rightarrow> (arg, True, w))")
    then have "alloc_frame ?w1 w2" "v \<noteq> JS_JUNK" "\<forall>n. v \<noteq> JS_Ref n"
      by (auto split: if_splits prod.splits dest: af_newError)
    with free obtain w3 where "js_free base w2 = Inr w3" "alloc_frame ?w0 w3" by blast
    with settle [OF this(2) \<open>v \<noteq> JS_JUNK\<close> \<open>\<forall>n. v \<noteq> JS_Ref n\<close>, of rj] v True d show ?thesis
      by (simp add: uvStreamReadCb_def CHECK_def Let_def)
  next
    case False
    then have y: "tick ?w0 < base" "base \<le> tick ?w1" "blk ?w1 base = JsBlock"
      "hnd ?w1 base = (\<lambda>_. HNone)" using young assms(5) by auto
    obtain v w2 where "ijNewUint8Array base (take (nat nread) data) ?w1 = Inr (v, w2)"
      "alloc_frame ?w0 w2" "v \<noteq> JS_JUNK" "\<forall>n. v \<noteq> JS_Ref n"
      using af_newUint8Array [OF a1 y] by blast
    with settle [OF this(2-4), of False] False d show ?thesis
      by (simp add: uvStreamReadCb_def CHECK_def Let_def)
  qed
qed

lemma kept_deliver:
  assumes "stream_good E S p w" "\<not> st_finalized (streams w p)"
  shows "kept E S p w (stream_perform E S (Use (SDeliver n d)) p w)"
proof -
  obtain base w1 where m: "js_malloc w = (base, w1)" by fastforce
  note f = af_malloc [OF m]
  have "UV_ENOBUFS S < 0" "deref p w = Inr w" "p \<noteq> 0"
    using assms(1) by (simp_all add: deref_def stream_good_def stream_base_def strenv_ok_def)
  then show ?thesis
    using assms f kept_read_cb [of w w1 E S p 0 "UV_ENOBUFS S" "[]"]
      kept_read_cb [of w w1 E S p base n d]
    by (auto simp: uv_stream_deliver_def uvStreamAllocCb_def CHECK_def m kept_def)
qed

lemma kept_conn_fail:
  assumes "stream_good E S p w" "\<not> st_finalized (streams w p)" "e \<noteq> 0"
  shows "kept E S p w (stream_perform E S (Use (SConnFail e)) p w)"
proof -
  obtain v w1 where n: "ijNewError E e w = (v, w1)" by fastforce
  note f = af_newError [OF n]
  note g = stream_alloc [OF conjunct1 [OF f] assms(1)]
  have d: "deref p w = Inr w" "p \<noteq> 0"
    using assms(1) by (simp_all add: deref_def stream_good_def stream_base_def)
  show ?thesis
    using stream_settle(2) [OF g(1), of v True] f g assms d
    by (auto simp: uvStreamConnectionCb_def CHECK_def n kept_def)
qed

lemma stream_close_step:
  assumes "stream_good E S p w" "hnd w p 0 \<noteq> HNone"
  shows "\<exists>w'. uvStreamMaybeClose p w = Inr w' \<and> stream_good E S p w' \<and>
    stream_abs p w' = lc_request (stream_abs p w)"
proof (cases "hnd w p 0 = HOpen")
  case True
  let ?w = "st_upd p (\<lambda>t. t\<lparr>st_reading := False\<rparr>) w"
  have g: "stream_good E S p ?w" "stream_abs p ?w = stream_abs p w"
    using stream_upd [OF assms(1)] by simp_all
  let ?w' = "?w\<lparr>hnd := (hnd ?w)(p := (hnd ?w p)(0 := HClosing))\<rparr>"
  have "pair_ok a b ?w \<Longrightarrow> pair_ok a b ?w'" for a b by (erule pair_frame) simp_all
  then have "stream_good E S p ?w'"
    using g(1) by (simp add: stream_good_def stream_base_def fresh_blk_def)
  moreover have "stream_abs p ?w' = lc_request (stream_abs p w)"
    using True by (simp add: stream_abs_def lc_request_def st_upd_def)
  ultimately show ?thesis
    using True assms(1) by (simp add: uvStreamMaybeClose_def deref_def uv_is_closing_def
        uv_close_def stream_good_def stream_base_def) (simp add: st_upd_def)
next
  case False
  then have "uv_is_closing p 0 w"
    using assms(2) by (cases "hnd w p 0") (auto simp: uv_is_closing_def)
  then show ?thesis
    using False assms(1) by (simp add: uvStreamMaybeClose_def deref_def stream_good_def
        stream_base_def lc_request_def stream_abs_def)
qed

lemma stream_finalize_step:
  assumes "stream_good E S p w" "lc_wf (stream_abs p w)" "\<not> st_finalized (streams w p)"
  shows "\<exists>w'. ijStreamFinalizer p w = Inr w' \<and>
    (if st_closed (streams w p)
     then stream_abs p w' = (stream_abs p w)\<lparr>lc_fin := True, lc_freed := True\<rparr>
     else stream_good E S p w' \<and>
       stream_abs p w' = lc_request ((stream_abs p w)\<lparr>lc_fin := True\<rparr>))"
proof -
  let ?a = "st_accept (streams w p)" and ?r = "st_read (streams w p)"
  have "pair_ok ?a ?r w" using assms pair_sym by (auto simp: stream_good_def)
  then obtain rs where f1: "ijFreePromiseRT ?a w = Inr (?a\<lparr>pr_valid := False\<rparr>, w\<lparr>refs := rs\<rparr>)"
    "slot_ok ?r (w\<lparr>refs := rs\<rparr>)" "owns (pr_held ?r) (w\<lparr>refs := rs\<rparr>)"
    using pair_free by blast
  let ?w1 = "st_upd p (\<lambda>t. t\<lparr>st_accept := ?a\<lparr>pr_valid := False\<rparr>\<rparr>) (w\<lparr>refs := rs\<rparr>)"
  have "slot_ok ?r ?w1" by (rule slot_frame [OF f1(2)]) (simp_all add: st_upd_def)
  moreover have "owns (pr_held ?r) ?w1"
    using f1(3) owns_cong [of ?w1 "w\<lparr>refs := rs\<rparr>"] by (simp add: st_upd_def)
  ultimately have "slot_ok ?r ?w1" "owns (pr_held ?r) ?w1" .
  from slot_free [OF this] obtain rs' where f2: "ijFreePromiseRT ?r ?w1 =
      Inr (?r\<lparr>pr_valid := False\<rparr>, ?w1\<lparr>refs := rs'\<rparr>)" by blast
  define w3 where "w3 = st_upd p (\<lambda>t. t\<lparr>st_finalized := True\<rparr>)
    (st_upd p (\<lambda>t. t\<lparr>st_read := ?r\<lparr>pr_valid := False\<rparr>\<rparr>) (?w1\<lparr>refs := rs'\<rparr>))"
  have base: "stream_base E S p w" using assms(1) by (simp add: stream_good_def)
  then have run: "ijStreamFinalizer p w =
      (if st_closed (streams w p) then je_free p w3 else uvStreamMaybeClose p w3)"
    using f1(1) f2 by (simp add: ijStreamFinalizer_def deref_def stream_base_def w3_def Let_def)
      (simp add: st_upd_def)
  have g3: "stream_good E S p w3" "stream_abs p w3 = (stream_abs p w)\<lparr>lc_fin := True\<rparr>"
    using base by (simp_all add: stream_good_def stream_base_def w3_def st_upd_def stream_abs_def
        fresh_blk_def)
  show ?thesis
  proof (cases "st_closed (streams w p)")
    case True
    then have "hnd w p 0 = HClosed" using assms(2) by (simp add: lc_wf_def stream_abs_def)
    with True run base show ?thesis
      by (simp add: je_free_def free_block_def handles_quiet_def stream_base_def w3_def
          st_upd_def stream_abs_def)
  next
    case False
    have "hnd w3 p 0 \<noteq> HNone"
      using assms(2) by (simp add: lc_wf_def stream_abs_def w3_def st_upd_def)
    from stream_close_step [OF g3(1) this] run False g3(2) show ?thesis by simp
  qed
qed

interpretation stream: closeable stream_abs "stream_good E S" stream_ena "stream_perform E S"
  for E S
proof
  fix p and w :: "'z stream_rt_scheme" and a :: "stream_use lc_act" and s
  assume g: "stream_good E S p w" and wf: "lc_wf (stream_abs p w)"
    and st: "lc_step stream_ena a (stream_abs p w) = Some s"
  have nf: "blk w p \<noteq> NoBlock" "p \<noteq> 0" "deref p w = Inr w"
    using g by (simp_all add: stream_good_def stream_base_def deref_def)
  show "\<exists>w'. stream_perform E S a p w = Inr w' \<and> stream_abs p w' = s \<and>
      (\<not> lc_freed s \<longrightarrow> stream_good E S p w')"
  proof (cases a)
    case UserClose
    have "hnd w p 0 \<noteq> HNone" using wf by (simp add: lc_wf_def stream_abs_def)
    from stream_close_step [OF g this] UserClose st nf(2) show ?thesis
      by (auto simp: ijStreamClose_def split: if_splits)
  next
    case CloseDone
    let ?w = "st_upd p (\<lambda>t. t\<lparr>st_closed := True\<rparr>) (uv_finish_close p 0 w)"
    have "pair_ok x y w \<Longrightarrow> pair_ok x y ?w" for x y
      by (erule pair_frame) (simp_all add: st_upd_def uv_finish_close_def)
    with CloseDone g st nf show ?thesis
      by (auto simp: uvStreamCloseCb_def CHECK_def deref_def stream_good_def stream_base_def
          stream_abs_def st_upd_def uv_finish_close_def je_free_def free_block_def
          handles_quiet_def fresh_blk_def Let_def split: if_splits)
  next
    case Finalize
    with st have "\<not> st_finalized (streams w p)" by (auto simp: stream_abs_def split: if_splits)
    from stream_finalize_step [OF g wf this] Finalize st nf show ?thesis
      by (cases "st_closed (streams w p)") (auto simp: stream_abs_def split: if_splits)
  next
    case (Use u)
    then have "\<not> st_finalized (streams w p)" "s = stream_abs p w"
      using st by (cases u; auto simp: stream_abs_def split: if_splits)+
    then have "kept E S p w (stream_perform E S a p w)"
      using Use g st kept_read kept_deliver kept_accept kept_conn_fail
      by (cases u) (auto simp: stream_abs_def split: if_splits simp del: stream_perform.simps)
    with \<open>s = stream_abs p w\<close> show ?thesis by (auto simp: kept_def)
  qed
qed

section \<open>Properties\<close>

text \<open>A new stream satisfies the invariant.\<close>

lemma make_stream_good:
  assumes "fresh_blk w" "jsenv_ok E" "strenv_ok S" "q = Suc (Suc (tick w))"
    and "ijInitStream (JS_Ref ob) q ty (uv_handle_init q 0 (w\<lparr>refs := rf, funs := fs,
      opaque := os, tick := q, blk := (blk w)(q := JeBlock), hnd := (hnd w)(q := (\<lambda>_. HNone))\<rparr>))
      = (obj, w1)"
  shows "stream_good E S q w1" "stream_abs q w1 = lc_init" "snd (opaque w1 ob) = q"
proof -
  have s: "streams w1 q = \<lparr>st_closed = False, st_finalized = False, st_type = ty,
      st_read_size = 0, st_read = clear_promise, st_accept = clear_promise,
      st_reading = False, st_sent = []\<rparr>"
    and b: "blk w1 q = JeBlock" "hnd w1 q 0 = HOpen" "hnd w1 q 1 = HNone" "tick w1 = q"
    and f: "fresh_blk w1"
    using assms(1,4,5)
    by (auto simp: ijInitStream_def uv_handle_init_def st_upd_def fresh_blk_def Let_def)
  have "pair_ok clear_promise clear_promise w1"
    by (simp add: pair_ok_def slot_ok_def idle_val_def clear_promise_def pr_held_def)
  then show "stream_good E S q w1"
    using assms(2-4) s b f by (simp add: stream_good_def stream_base_def)
  show "stream_abs q w1 = lc_init" by (simp add: stream_abs_def lc_init_def s b)
  show "snd (opaque w1 ob) = q" using assms(5) by (auto simp: ijInitStream_def Let_def)
qed

lemma new_stream_good:
  assumes "fresh_blk w" "jsenv_ok E" "strenv_ok S"
    and "ijNewTcp S af w = Inr (JS_Ref ob, w1) \<or> ijNewPipe S w = Inr (JS_Ref ob, w1)"
  shows "stream_good E S (snd (opaque w1 ob)) w1 \<and> stream_abs (snd (opaque w1 ob)) w1 = lc_init"
proof -
  let ?q = "Suc (Suc (tick w))"
  obtain rf fs os ty where c: "ijInitStream (JS_Ref (tick w)) ?q ty (uv_handle_init ?q 0
      (w\<lparr>refs := rf, funs := fs, opaque := os, tick := ?q, blk := (blk w)(?q := JeBlock),
         hnd := (hnd w)(?q := (\<lambda>_. HNone))\<rparr>)) = (JS_Ref ob, w1)"
    using assms(4)
    by (auto simp: ijNewTcp_def ijNewPipe_def JS_NewObjectClass_def je_calloc_def throw_defs
        split: if_splits)
  then have "ob = tick w" by (simp add: ijInitStream_def Let_def)
  then show ?thesis using make_stream_good [OF assms(1-3) refl c] by simp
qed


definition plain_uv :: strenv where
  "plain_uv = \<lparr>UV_EOF = -4095, UV_EBUSY = -16, UV_EINVAL = -22, UV_ENOBUFS = -105,
     tcp_init = (\<lambda>_. 0), tty_init = (\<lambda>_ _. 0), pipe_init = 0, read_start = 0,
     try_write = (\<lambda>d. int (length d div 2)), uv_write = (\<lambda>_. 0), uv_shutdown = 0,
     uv_fileno = (0, 3), uv_listen = (\<lambda>_. 0), uv_accept = 0, tcp_sockname = (0, SockIn 0 0),
     tcp_peername = (0, SockIn 0 0), tcp_connect = (\<lambda>_. 0), tcp_bind = (\<lambda>_ _. 0),
     tty_set_mode = (\<lambda>_. 0), tty_winsize = (0, 80, 25), pipe_sockname = (0, ''s''),
     pipe_peername = (0, ''p''), pipe_bind = (\<lambda>_. 0)\<rparr>"

lemma plain_uv_ok: "strenv_ok plain_uv"
  by (simp add: strenv_ok_def plain_uv_def)

definition empty_stream :: IJJSStream where
  "empty_stream = \<lparr>st_closed = False, st_finalized = False, st_type = UV_TCP, st_read_size = 0,
     st_read = clear_promise, st_accept = clear_promise, st_reading = False, st_sent = []\<rparr>"

definition stream_world :: stream_rt where
  "stream_world = rt.extend rt0 (stream_rt.fields (\<lambda>_. empty_stream)
     (\<lambda>_. \<lparr>cr_handle = 0, cr_result = clear_promise\<rparr>)
     (\<lambda>_. \<lparr>sr_handle = 0, sr_result = clear_promise\<rparr>)
     (\<lambda>_. \<lparr>wr_handle = 0, wr_result = clear_promise, wr_data = []\<rparr>))"

lemmas stream_world_defs = stream_world_def rt.defs stream_rt.defs rt0_def

definition demo_tcp :: stream_rt where
  "demo_tcp = (case ijNewTcp plain_uv 0 stream_world of Inr (_, w) \<Rightarrow> w | Inl _ \<Rightarrow> stream_world)"

lemma demo_tcp_made:
  "ijNewTcp plain_uv 0 stream_world = Inr (JS_Ref 0, demo_tcp)" "snd (opaque demo_tcp 0) = 2"
  by (simp_all add: demo_tcp_def ijNewTcp_def stream_world_defs rt_defs plain_uv_def
      ijInitStream_def st_upd_def)


text \<open>A second read while one is outstanding is refused with EBUSY and leaves the stream,
  the outstanding promise and all references as they are.\<close>

theorem read_busy:
  assumes "stream_good E S p w" "pr_p (st_read (streams w p)) \<noteq> JS_UNDEFINED"
  shows "\<exists>w'. ijStreamRead E S p argv w = Inr (JS_EXCEPTION, w') \<and> streams w' = streams w \<and>
    refs w' = refs w \<and> proms w' = proms w \<and> exn w' \<noteq> None"
proof -
  obtain v w' where t: "ijThrowErrno E (UV_EBUSY S) w = (v, w')" by fastforce
  have f: "alloc_frame w w'" "v = JS_EXCEPTION" using af_throwErrno [OF t] by simp_all
  moreover have "exn w' \<noteq> None"
    using t by (auto simp: ijThrowErrno_def JS_Throw_def split: prod.splits if_splits)
  moreover have "streams w' = streams w" using stream_alloc(3) [OF f(1) assms(1)] .
  ultimately show ?thesis
    using assms t by (auto simp: ijStreamRead_def deref_def stream_good_def stream_base_def
        alloc_frame_def)
qed

lemma demo_tcp_good:
  "stream_good plain_env plain_uv 2 demo_tcp" "\<not> st_finalized (streams demo_tcp 2)"
proof -
  have "fresh_blk stream_world" by (simp add: stream_world_defs fresh_blk_def)
  from new_stream_good [OF this plain_env_ok plain_uv_ok disjI1 [OF demo_tcp_made(1)]]
  show "stream_good plain_env plain_uv 2 demo_tcp" "\<not> st_finalized (streams demo_tcp 2)"
    by (simp_all add: demo_tcp_made(2) stream_abs_def lc_init_def)
qed

lemma read_sets_promise:
  assumes "stream_good E S p w" "pr_p (st_read (streams w p)) = JS_UNDEFINED"
    and "hnd w p 0 = HOpen" "read_start S = 0" "\<not> oom w (tick w)"
  shows "ijStreamRead E S p [] w = Inr (JS_Ref (tick w),
    st_upd p (\<lambda>t. t\<lparr>st_read_size := IJJS_DEFAULt_READ_SIZE, st_reading := True,
      st_read := \<lparr>pr_p = JS_Ref (tick w), pr_rfuncs0 = JS_Ref (tick w + 1),
        pr_rfuncs1 = JS_Ref (tick w + 2), pr_valid = True\<rparr>\<rparr>)
     (w\<lparr>tick := tick w + 3, refs := (refs w)(tick w := 2, tick w + 1 := 2, tick w + 2 := 2),
        proms := (proms w)(tick w := Pending),
        funs := (funs w)(tick w := NotFun, tick w + 1 := ResolveFun (tick w),
          tick w + 2 := RejectFun (tick w)),
        opaque := (opaque w)(tick w := (0, 0))\<rparr>))"
  using assms
  by (auto simp: ijStreamRead_def argn_def deref_def stream_good_def stream_base_def
      uv_is_closing_def ijInitPromise_live st_upd_def Let_def intro!: stream_rt.equality)

theorem read_busy_witness:
  "\<exists>w w'. ijStreamRead plain_env plain_uv 2 [] demo_tcp = Inr (JS_Ref 2, w) \<and>
     ijStreamRead plain_env plain_uv 2 [] w = Inr (JS_EXCEPTION, w') \<and> streams w' = streams w"
proof -
  have i: "pr_p (st_read (streams demo_tcp 2)) = JS_UNDEFINED" "hnd demo_tcp 2 0 = HOpen"
    "read_start plain_uv = 0" "\<not> oom demo_tcp (tick demo_tcp)" "tick demo_tcp = 2"
    by (simp_all add: demo_tcp_def ijNewTcp_def stream_world_defs rt_defs plain_uv_def
        ijInitStream_def st_upd_def clear_promise_def)
  obtain w where w: "ijStreamRead plain_env plain_uv 2 [] demo_tcp = Inr (JS_Ref 2, w)"
    "pr_p (st_read (streams w 2)) = JS_Ref 2"
    using read_sets_promise [OF demo_tcp_good(1) i(1-4)] by (simp add: i(5) st_upd_def)
  then have "stream_good plain_env plain_uv 2 w"
    using kept_read [OF demo_tcp_good, of "[]"] by (simp add: kept_def)
  with read_busy [OF this, of "[]"] w show ?thesis by auto
qed

text \<open>What the promise of a read becomes.\<close>

definition read_outcome :: "jsenv \<Rightarrow> strenv \<Rightarrow> int \<Rightarrow> string \<Rightarrow> promise_state" where
  "read_outcome E S nread data =
     (if nread = UV_EOF S \<and> nread < 0 then Fulfilled JS_UNDEFINED
      else if nread < 0 then Rejected (JS_ErrorObj ''Error''
        [(''message'', JS_Str (uv_strerror E nread)), (''errno'', JS_NewInt32 nread)])
      else (let d = take (nat nread) data in Fulfilled (JS_Uint8Array d 0 (length d))))"

text \<open>C11. A read delivers exactly what arrived: the promise that read returns is fulfilled with
  the bytes of the delivery, with undefined at the end of the stream, or rejected with an
  error object carrying the code; the stream is then ready for the next read.\<close>

theorem read_delivers:
  assumes "stream_good E S p w" "pr_p (st_read (streams w p)) = JS_UNDEFINED"
    and "hnd w p 0 = HOpen" "read_start S = 0" "\<forall>n. \<not> oom w n"
  shows "\<exists>ob w1 w2. ijStreamRead E S p [] w = Inr (JS_Ref ob, w1) \<and>
    uv_stream_deliver E S p nread data w1 = Inr w2 \<and>
    proms w2 ob = read_outcome E S nread data \<and>
    pr_p (st_read (streams w2 p)) = JS_UNDEFINED \<and> \<not> st_reading (streams w2 p)"
  using read_sets_promise [OF assms(1-4)] assms
  by (simp add: uv_stream_deliver_def uvStreamAllocCb_def uvStreamReadCb_def st_upd_def CHECK_def
      deref_def js_malloc_def ijNewUint8Array_def JS_NewArrayBuffer_def ijNewError_def
      JS_NewError_def ijSettlePromise_def ijFreePromise_def settle_def arg0_def read_outcome_def
      js_free_def free_block_def handles_quiet_def stream_good_def stream_base_def
      ijClearPromise_def Let_def)

lemma demo_tcp_facts:
  "pr_p (st_read (streams demo_tcp 2)) = JS_UNDEFINED" "hnd demo_tcp 2 0 = HOpen"
  "read_start plain_uv = 0" "\<forall>n. \<not> oom demo_tcp n"
  by (simp_all add: demo_tcp_def ijNewTcp_def stream_world_defs rt_defs plain_uv_def
      ijInitStream_def st_upd_def clear_promise_def)

theorem read_delivers_witness:
  "\<exists>ob w1 w2. ijStreamRead plain_env plain_uv 2 [] demo_tcp = Inr (JS_Ref ob, w1) \<and>
     uv_stream_deliver plain_env plain_uv 2 2 ''hello'' w1 = Inr w2 \<and>
     proms w2 ob = Fulfilled (JS_Uint8Array ''he'' 0 2)"
  using read_delivers [OF demo_tcp_good(1) demo_tcp_facts, of 2 "''hello''"]
  by (auto simp: read_outcome_def numeral_2_eq_2)

section \<open>Writing\<close>

definition write_bytes :: "jsenv \<Rightarrow> jsval \<Rightarrow> string option" where
  "write_bytes E d = (if JS_IsString d then to_cstr E d else typed_array_bytes d)"

text \<open>A write that sends part of the bytes at once.\<close>

definition partial_write :: "strenv \<Rightarrow> string \<Rightarrow> bool" where
  "partial_write S bytes = (0 < try_write S bytes \<and> try_write S bytes < int (length bytes))"

lemma take_drop_written:
  "take (if 0 \<le> r then nat r else 0) xs @ drop (if 0 \<le> r then nat r else 0) xs = xs"
  by simp

lemma js_data_cases:
  assumes "write_bytes E d = Some bytes"
  shows "js_data E d w =
    (if JS_IsString d
     then (Some (True, Suc (tick w), bytes),
           w\<lparr>tick := Suc (tick w), blk := (blk w)(Suc (tick w) := CString),
             hnd := (hnd w)(Suc (tick w) := (\<lambda>_. HNone))\<rparr>)
     else (Some (False, 0, bytes), w))"
  using assms by (auto simp: js_data_def write_bytes_def JS_ToCString_def)



text \<open>When the kernel takes only part of a string, ijStreamWrite gives the string back
  through the advanced pointer, which is not the one JS\_ToCString handed out.\<close>

theorem partial_string_write_bad_free:
  assumes "stream_good E S p w" "to_cstr E (JS_Str s) = Some bytes" "\<forall>n. \<not> oom w n"
    and "partial_write S bytes"
  shows "ijStreamWrite E S p [JS_Str s] w = Inl BadFree"
  using assms
  by (auto simp: ijStreamWrite_def argn_def js_data_def JS_ToCString_def deref_def Let_def
      js_malloc_def JS_FreeCString_def partial_write_def stream_good_def stream_base_def
      st_upd_def)

theorem partial_string_write_bad_free_witness:
  "ijStreamWrite plain_env plain_uv 2 [JS_Str ''hello''] demo_tcp = Inl BadFree"
  by (rule partial_string_write_bad_free [OF demo_tcp_good(1) _ demo_tcp_facts(4)])
     (simp_all add: plain_env_def partial_write_def plain_uv_def, code_simp)

end
