(* ===== verification/StreamClasses.thy ===== *)
theory StreamClasses
  imports Streams
begin

text \<open>
  The methods of the JS classes TCP, TTY and Pipe (second half of ijstreams.c): each fetches
  the structure behind its receiver and runs the shared stream operation, or talks to libuv
  about addresses, terminal modes and pipe names.
\<close>

section \<open>Shared operations\<close>

definition ijTcpClose ::
    "jsval \<Rightarrow> 'z stream_rt_scheme \<Rightarrow> (jsval \<times> 'z stream_rt_scheme) res" where
  "ijTcpClose this w = (case ijTcpGet this w of (t, w) \<Rightarrow> ijStreamClose t w)"

definition ijTcpRead ::
    "jsenv \<Rightarrow> strenv \<Rightarrow> jsval \<Rightarrow> jsval list \<Rightarrow> 'z stream_rt_scheme \<Rightarrow> (jsval \<times> 'z stream_rt_scheme) res" where
  "ijTcpRead E S this argv w = (case ijTcpGet this w of (t, w) \<Rightarrow> ijStreamRead E S t argv w)"

definition ijTcpWrite ::
    "jsenv \<Rightarrow> strenv \<Rightarrow> jsval \<Rightarrow> jsval list \<Rightarrow> 'z stream_rt_scheme \<Rightarrow> (jsval \<times> 'z stream_rt_scheme) res" where
  "ijTcpWrite E S this argv w = (case ijTcpGet this w of (t, w) \<Rightarrow> ijStreamWrite E S t argv w)"

definition ijTcpShutdown ::
    "jsenv \<Rightarrow> strenv \<Rightarrow> jsval \<Rightarrow> 'z stream_rt_scheme \<Rightarrow> (jsval \<times> 'z stream_rt_scheme) res" where
  "ijTcpShutdown E S this w = (case ijTcpGet this w of (t, w) \<Rightarrow> ijStreamShutdown E S t w)"

definition ijTcpFileno ::
    "jsenv \<Rightarrow> strenv \<Rightarrow> jsval \<Rightarrow> 'z stream_rt_scheme \<Rightarrow> (jsval \<times> 'z stream_rt_scheme) res" where
  "ijTcpFileno E S this w = (case ijTcpGet this w of (t, w) \<Rightarrow> ijStreamFileno E S t w)"

definition ijTcpListen ::
    "jsenv \<Rightarrow> strenv \<Rightarrow> jsval \<Rightarrow> jsval list \<Rightarrow> 'z stream_rt_scheme \<Rightarrow> (jsval \<times> 'z stream_rt_scheme) res" where
  "ijTcpListen E S this argv w = (case ijTcpGet this w of (t, w) \<Rightarrow> ijStreamListen E S t argv w)"

definition ijTcpAccept ::
    "jsenv \<Rightarrow> strenv \<Rightarrow> jsval \<Rightarrow> 'z stream_rt_scheme \<Rightarrow> (jsval \<times> 'z stream_rt_scheme) res" where
  "ijTcpAccept E S this w = (case ijTcpGet this w of (t, w) \<Rightarrow> ijStreamAccept E S t w)"

definition ijTtyClose ::
    "jsval \<Rightarrow> 'z stream_rt_scheme \<Rightarrow> (jsval \<times> 'z stream_rt_scheme) res" where
  "ijTtyClose this w = (case ijTtyGet this w of (t, w) \<Rightarrow> ijStreamClose t w)"

definition ijTtyRead ::
    "jsenv \<Rightarrow> strenv \<Rightarrow> jsval \<Rightarrow> jsval list \<Rightarrow> 'z stream_rt_scheme \<Rightarrow> (jsval \<times> 'z stream_rt_scheme) res" where
  "ijTtyRead E S this argv w = (case ijTtyGet this w of (t, w) \<Rightarrow> ijStreamRead E S t argv w)"

definition ijTtyWrite ::
    "jsenv \<Rightarrow> strenv \<Rightarrow> jsval \<Rightarrow> jsval list \<Rightarrow> 'z stream_rt_scheme \<Rightarrow> (jsval \<times> 'z stream_rt_scheme) res" where
  "ijTtyWrite E S this argv w = (case ijTtyGet this w of (t, w) \<Rightarrow> ijStreamWrite E S t argv w)"

definition ijTtyFileno ::
    "jsenv \<Rightarrow> strenv \<Rightarrow> jsval \<Rightarrow> 'z stream_rt_scheme \<Rightarrow> (jsval \<times> 'z stream_rt_scheme) res" where
  "ijTtyFileno E S this w = (case ijTtyGet this w of (t, w) \<Rightarrow> ijStreamFileno E S t w)"

definition ijPipeClose ::
    "jsval \<Rightarrow> 'z stream_rt_scheme \<Rightarrow> (jsval \<times> 'z stream_rt_scheme) res" where
  "ijPipeClose this w = (case ijPipeGet this w of (t, w) \<Rightarrow> ijStreamClose t w)"

definition ijPipeRead ::
    "jsenv \<Rightarrow> strenv \<Rightarrow> jsval \<Rightarrow> jsval list \<Rightarrow> 'z stream_rt_scheme \<Rightarrow> (jsval \<times> 'z stream_rt_scheme) res" where
  "ijPipeRead E S this argv w = (case ijPipeGet this w of (t, w) \<Rightarrow> ijStreamRead E S t argv w)"

definition ijPipeWrite ::
    "jsenv \<Rightarrow> strenv \<Rightarrow> jsval \<Rightarrow> jsval list \<Rightarrow> 'z stream_rt_scheme \<Rightarrow> (jsval \<times> 'z stream_rt_scheme) res" where
  "ijPipeWrite E S this argv w = (case ijPipeGet this w of (t, w) \<Rightarrow> ijStreamWrite E S t argv w)"

definition ijPipeFileno ::
    "jsenv \<Rightarrow> strenv \<Rightarrow> jsval \<Rightarrow> 'z stream_rt_scheme \<Rightarrow> (jsval \<times> 'z stream_rt_scheme) res" where
  "ijPipeFileno E S this w = (case ijPipeGet this w of (t, w) \<Rightarrow> ijStreamFileno E S t w)"

definition ijPipeListen ::
    "jsenv \<Rightarrow> strenv \<Rightarrow> jsval \<Rightarrow> jsval list \<Rightarrow> 'z stream_rt_scheme \<Rightarrow> (jsval \<times> 'z stream_rt_scheme) res" where
  "ijPipeListen E S this argv w = (case ijPipeGet this w of (t, w) \<Rightarrow> ijStreamListen E S t argv w)"

definition ijPipeAccept ::
    "jsenv \<Rightarrow> strenv \<Rightarrow> jsval \<Rightarrow> 'z stream_rt_scheme \<Rightarrow> (jsval \<times> 'z stream_rt_scheme) res" where
  "ijPipeAccept E S this w = (case ijPipeGet this w of (t, w) \<Rightarrow> ijStreamAccept E S t w)"

section \<open>TCP addresses\<close>

definition ijTcpGetSockPeerName ::
    "jsenv \<Rightarrow> strenv \<Rightarrow> netenv \<Rightarrow> jsval \<Rightarrow> int \<Rightarrow> 'z stream_rt_scheme
       \<Rightarrow> (jsval \<times> 'z stream_rt_scheme) res" where
  "ijTcpGetSockPeerName E S N this magic w = (case ijTcpGet this w of (t, w) \<Rightarrow>
     if t = 0 then Inr (JS_EXCEPTION, w)
     else bindE (deref t w) (\<lambda>w.
       case (if magic = 0 then tcp_sockname S else tcp_peername S) of (r, addr) \<Rightarrow>
       if r \<noteq> 0 then Inr (ijThrowErrno E r w) else Inr (ijAddr2Obj N addr, w)))"

definition ijTcpConnect ::
    "jsenv \<Rightarrow> strenv \<Rightarrow> netenv \<Rightarrow> jsval \<Rightarrow> jsval list \<Rightarrow> 'z stream_rt_scheme
       \<Rightarrow> (jsval \<times> 'z stream_rt_scheme) res" where
  "ijTcpConnect E S N this argv w = (case ijTcpGet this w of (t, w) \<Rightarrow>
     if t = 0 then Inr (JS_EXCEPTION, w)
     else bindE (ijObj2Addr E N (argn 0 argv) w) (\<lambda>(r, ss, w).
       if r \<noteq> 0 then Inr (JS_EXCEPTION, w)
       else case js_malloc w of (cr, w) \<Rightarrow>
         if cr = 0 then Inr (JS_EXCEPTION, w)
         else bindE (deref t w) (\<lambda>w.
           let w = w\<lparr>creqs := (creqs w)(cr := \<lparr>cr_handle = t, cr_result = uninit_promise E\<rparr>)\<rparr>;
               r = tcp_connect S ss
           in if r \<noteq> 0 then Inr (ijThrowErrno E r w)
              else case ijInitPromise (cr_result (creqs w cr)) w of (v, pr, w) \<Rightarrow>
                Inr (v, w\<lparr>creqs := (creqs w)(cr := (creqs w cr)\<lparr>cr_result := pr\<rparr>)\<rparr>))))"

text \<open>The method is declared with one argument and reads two.\<close>

definition ijTcpBind ::
    "jsenv \<Rightarrow> strenv \<Rightarrow> netenv \<Rightarrow> jsval \<Rightarrow> jsval list \<Rightarrow> 'z stream_rt_scheme
       \<Rightarrow> (jsval \<times> 'z stream_rt_scheme) res" where
  "ijTcpBind E S N this argv w = (case ijTcpGet this w of (t, w) \<Rightarrow>
     if t = 0 then Inr (JS_EXCEPTION, w)
     else bindE (ijObj2Addr E N (argn 0 argv) w) (\<lambda>(r, ss, w).
       if r \<noteq> 0 then Inr (JS_EXCEPTION, w)
       else bindE (readable_arg 1 1 argv) (\<lambda>arg1.
         case (if \<not> JS_IsUndefined arg1 then JS_ToInt32 E arg1 w else (Some 0, w)) of
           (None, w) \<Rightarrow> Inr (JS_EXCEPTION, w)
         | (Some flags, w) \<Rightarrow>
           bindE (deref t w) (\<lambda>w.
           let r = tcp_bind S ss flags
           in if r \<noteq> 0 then Inr (ijThrowErrno E r w) else Inr (JS_UNDEFINED, w)))))"

section \<open>Terminals\<close>

definition ijTtySetMode ::
    "jsenv \<Rightarrow> strenv \<Rightarrow> jsval \<Rightarrow> jsval list \<Rightarrow> 'z stream_rt_scheme
       \<Rightarrow> (jsval \<times> 'z stream_rt_scheme) res" where
  "ijTtySetMode E S this argv w = (case ijTtyGet this w of (s, w) \<Rightarrow>
     if s = 0 then Inr (JS_EXCEPTION, w)
     else case JS_ToInt32 E (argn 0 argv) w of
       (None, w) \<Rightarrow> Inr (JS_EXCEPTION, w)
     | (Some mode, w) \<Rightarrow>
       bindE (deref s w) (\<lambda>w.
       let r = tty_set_mode S mode
       in if r \<noteq> 0 then Inr (ijThrowErrno E r w) else Inr (JS_UNDEFINED, w)))"

definition ijTtyGetWinSize ::
    "jsenv \<Rightarrow> strenv \<Rightarrow> jsval \<Rightarrow> 'z stream_rt_scheme \<Rightarrow> (jsval \<times> 'z stream_rt_scheme) res" where
  "ijTtyGetWinSize E S this w = (case ijTtyGet this w of (s, w) \<Rightarrow>
     if s = 0 then Inr (JS_EXCEPTION, w)
     else bindE (deref s w) (\<lambda>w. case tty_winsize S of (r, width, height) \<Rightarrow>
       if r \<noteq> 0 then Inr (ijThrowErrno E r w)
       else Inr (JS_Object [(''width'', JS_NewInt32 width), (''height'', JS_NewInt32 height)], w)))"

section \<open>Pipes\<close>

definition ijPipeGetSockPeerName ::
    "jsenv \<Rightarrow> strenv \<Rightarrow> jsval \<Rightarrow> int \<Rightarrow> 'z stream_rt_scheme
       \<Rightarrow> (jsval \<times> 'z stream_rt_scheme) res" where
  "ijPipeGetSockPeerName E S this magic w = (case ijPipeGet this w of (t, w) \<Rightarrow>
     if t = 0 then Inr (JS_EXCEPTION, w)
     else bindE (deref t w) (\<lambda>w.
       case (if magic = 0 then pipe_sockname S else pipe_peername S) of (r, name) \<Rightarrow>
       if r \<noteq> 0 then Inr (ijThrowErrno E r w) else Inr (JS_Str name, w)))"

text \<open>uv\_pipe\_connect reports nothing: errors arrive in the connect callback.\<close>

definition ijPipeConnect ::
    "jsenv \<Rightarrow> jsval \<Rightarrow> jsval list \<Rightarrow> 'z stream_rt_scheme
       \<Rightarrow> (jsval \<times> 'z stream_rt_scheme) res" where
  "ijPipeConnect E this argv w = (case ijPipeGet this w of (t, w) \<Rightarrow>
     if t = 0 then Inr (JS_EXCEPTION, w)
     else case JS_ToCString E (argn 0 argv) w of (name, str, w) \<Rightarrow>
       if name = 0 then Inr (JS_EXCEPTION, w)
       else case js_malloc w of (cr, w) \<Rightarrow>
         if cr = 0 then bindE (JS_FreeCString (name, 0) w) (\<lambda>w. Inr (JS_EXCEPTION, w))
         else bindE (deref t w) (\<lambda>w.
           let w = w\<lparr>creqs := (creqs w)(cr := \<lparr>cr_handle = t, cr_result = uninit_promise E\<rparr>)\<rparr>
           in bindE (JS_FreeCString (name, 0) w) (\<lambda>w.
              case ijInitPromise (cr_result (creqs w cr)) w of (v, pr, w) \<Rightarrow>
              Inr (v, w\<lparr>creqs := (creqs w)(cr := (creqs w cr)\<lparr>cr_result := pr\<rparr>)\<rparr>))))"

definition ijPipeBind ::
    "jsenv \<Rightarrow> strenv \<Rightarrow> jsval \<Rightarrow> jsval list \<Rightarrow> 'z stream_rt_scheme
       \<Rightarrow> (jsval \<times> 'z stream_rt_scheme) res" where
  "ijPipeBind E S this argv w = (case ijPipeGet this w of (t, w) \<Rightarrow>
     if t = 0 then Inr (JS_EXCEPTION, w)
     else case JS_ToCString E (argn 0 argv) w of (name, str, w) \<Rightarrow>
       if name = 0 then Inr (JS_EXCEPTION, w)
       else bindE (deref t w) (\<lambda>w.
         let r = pipe_bind S str
         in if r \<noteq> 0 then Inr (ijThrowErrno E r w) else Inr (JS_UNDEFINED, w)))"

section \<open>The classes as they are registered\<close>

text \<open>Method name and declared argument count.\<close>

definition ijjs_tcp_proto_funcs :: "(string \<times> nat) list" where
  "ijjs_tcp_proto_funcs = [(''close'', 0), (''read'', 1), (''write'', 1), (''shutdown'', 0),
     (''fileno'', 0), (''listen'', 1), (''accept'', 0), (''getsockname'', 0),
     (''getpeername'', 0), (''connect'', 1), (''bind'', 1)]"

definition ijjs_tty_proto_funcs :: "(string \<times> nat) list" where
  "ijjs_tty_proto_funcs = [(''close'', 0), (''read'', 1), (''write'', 1), (''fileno'', 0),
     (''setMode'', 1), (''getWinSize'', 0)]"

definition ijjs_pipe_proto_funcs :: "(string \<times> nat) list" where
  "ijjs_pipe_proto_funcs = [(''close'', 0), (''read'', 1), (''write'', 1), (''fileno'', 0),
     (''listen'', 1), (''accept'', 0), (''getsockname'', 0), (''getpeername'', 0),
     (''connect'', 1), (''bind'', 1)]"

section \<open>Properties\<close>

text \<open>TCP's bind method reads its second argument although it is registered with one: a call
  with the address alone, once the address has been accepted, reads past the arguments
  QuickJS passes.\<close>

theorem tcp_bind_reads_past_arguments:
  assumes "JS_GetOpaque this ijjs_tcp_class_id w \<noteq> 0"
    and "ijObj2Addr E N addr w = Inr (0, ss, w1)"
  shows "ijTcpBind E S N this [addr] w = Inl UninitRead \<and>
    map_of ijjs_tcp_proto_funcs ''bind'' = Some 1"
  using assms by (simp add: ijTcpBind_def ijTcpGet_def JS_GetOpaque2_def argn_def
      readable_arg_def ijjs_tcp_proto_funcs_def)

theorem tcp_bind_reads_past_arguments_witness:
  "ijTcpBind plain_env plain_uv unary_netenv (JS_Ref 0)
     [JS_Object [(''ip'', JS_Str ''411''), (''port'', JS_Int 80)]] demo_tcp = Inl UninitRead"
proof -
  have "JS_GetOpaque (JS_Ref 0) ijjs_tcp_class_id demo_tcp \<noteq> 0"
    by (simp add: demo_tcp_def ijNewTcp_def stream_world_defs rt_defs plain_uv_def
        ijInitStream_def st_upd_def)
  moreover have "\<exists>ss w1. ijObj2Addr plain_env unary_netenv
      (JS_Object [(''ip'', JS_Str ''411''), (''port'', JS_Int 80)]) demo_tcp = Inr (0, ss, w1)"
    by (simp add: ijObj2Addr_def rt_defs plain_env_def unary_netenv_def)
  then obtain ss w1 where "ijObj2Addr plain_env unary_netenv
      (JS_Object [(''ip'', JS_Str ''411''), (''port'', JS_Int 80)]) demo_tcp = Inr (0, ss, w1)"
    by blast
  ultimately show ?thesis using tcp_bind_reads_past_arguments by blast
qed

end
