(* ===== verification/Udp.thy ===== *)
theory Udp
  imports Lifecycle Slots
begin

text \<open>
  ijudp.c: datagram sockets. One outstanding receive is kept in the structure; sends carry
  their promise in a request block. Closing a socket with an outstanding receive answers it
  with an object whose data is undefined.
\<close>

section \<open>Data\<close>

record IJJSUdp =
  ud_closed :: bool
  ud_finalized :: bool
  ud_read_size :: int
  ud_read :: IJJSPromise
  ud_receiving :: bool
  ud_sent :: "(string \<times> sockaddr option) list"

record IJJSSendReq =
  us_handle :: nat
  us_result :: IJJSPromise

record udp_rt = rt +
  udps :: "nat \<Rightarrow> IJJSUdp"
  usreqs :: "nat \<Rightarrow> IJJSSendReq"

record udpenv =
  udp_EBUSY :: int
  udp_ENOBUFS :: int
  udp_init :: "int \<Rightarrow> int"
  udp_recv_start :: int
  udp_try_send :: "string \<Rightarrow> sockaddr option \<Rightarrow> int"
  udp_send :: "string \<Rightarrow> sockaddr option \<Rightarrow> int"
  udp_fileno :: "int \<times> int"
  udp_sockname :: "int \<times> sockaddr"
  udp_peername :: "int \<times> sockaddr"
  udp_connect :: "sockaddr option \<Rightarrow> int"
  udp_bind :: "sockaddr option \<Rightarrow> int \<Rightarrow> int"

definition ijjs_udp_class_id :: nat where "ijjs_udp_class_id = 31"

definition ud_upd :: "nat \<Rightarrow> (IJJSUdp \<Rightarrow> IJJSUdp) \<Rightarrow> 'z udp_rt_scheme \<Rightarrow> 'z udp_rt_scheme" where
  "ud_upd p f w = w\<lparr>udps := (udps w)(p := f (udps w p))\<rparr>"

section \<open>Closing\<close>

definition uvUdpCloseCb :: "nat \<Rightarrow> 'z udp_rt_scheme \<Rightarrow> 'z udp_rt_scheme res" where
  "uvUdpCloseCb u w =
     bindE (CHECK (u \<noteq> 0) w) (\<lambda>w.
     bindE (deref u w) (\<lambda>w.
     let w = ud_upd u (\<lambda>t. t\<lparr>ud_closed := True\<rparr>) w
     in if ud_finalized (udps w u) then je_free u w else Inr w))"

definition uvUdpMaybeClose :: "nat \<Rightarrow> 'z udp_rt_scheme \<Rightarrow> 'z udp_rt_scheme res" where
  "uvUdpMaybeClose u w =
     bindE (deref u w) (\<lambda>w.
     if \<not> uv_is_closing u 0 w then uv_close u 0 (ud_upd u (\<lambda>t. t\<lparr>ud_receiving := False\<rparr>) w)
     else Inr w)"

definition ijUdpFinalizer :: "jsval \<Rightarrow> 'z udp_rt_scheme \<Rightarrow> 'z udp_rt_scheme res" where
  "ijUdpFinalizer val w =
     (let u = JS_GetOpaque val ijjs_udp_class_id w in
      if u \<noteq> 0 then
        bindE (deref u w) (\<lambda>w.
        bindE (ijFreePromiseRT (ud_read (udps w u)) w) (\<lambda>(pr, w).
        let w = ud_upd u (\<lambda>t. t\<lparr>ud_read := pr\<rparr>) w;
            w = ud_upd u (\<lambda>t. t\<lparr>ud_finalized := True\<rparr>) w
        in if ud_closed (udps w u) then je_free u w else uvUdpMaybeClose u w))
      else Inr w)"

definition ijUdpMark :: "jsval \<Rightarrow> 'z udp_rt_scheme \<Rightarrow> jsval list" where
  "ijUdpMark val w =
     (let u = JS_GetOpaque val ijjs_udp_class_id w
      in if u \<noteq> 0 then ijMarkPromise (ud_read (udps w u)) else [])"

definition ijUdpGet :: "jsval \<Rightarrow> 'z udp_rt_scheme \<Rightarrow> nat \<times> 'z udp_rt_scheme" where
  "ijUdpGet obj w = JS_GetOpaque2 obj ijjs_udp_class_id w"

definition ijUdpClose ::
    "jsenv \<Rightarrow> jsval \<Rightarrow> 'z udp_rt_scheme \<Rightarrow> (jsval \<times> 'z udp_rt_scheme) res" where
  "ijUdpClose E this w = (case ijUdpGet this w of (u, w) \<Rightarrow>
     if u = 0 then Inr (JS_EXCEPTION, w)
     else bindE (deref u w) (\<lambda>w.
       bindE (if ijIsPromisePending (ud_read (udps w u))
              then (let arg = JS_Object [(''data'', JS_UNDEFINED)] in
                bindE (ijSettlePromise E (ud_read (udps w u)) False [arg] w) (\<lambda>(pr, w).
                Inr (ud_upd u (\<lambda>t. t\<lparr>ud_read := ijClearPromise pr\<rparr>) w)))
              else Inr w) (\<lambda>w.
       bindE (uvUdpMaybeClose u w) (\<lambda>w. Inr (JS_UNDEFINED, w)))))"

section \<open>Receiving\<close>

definition uvUdpAllocCb ::
    "nat \<Rightarrow> 'z udp_rt_scheme \<Rightarrow> (nat \<times> int \<times> 'z udp_rt_scheme) res" where
  "uvUdpAllocCb u w =
     bindE (CHECK (u \<noteq> 0) w) (\<lambda>w.
     bindE (deref u w) (\<lambda>w.
     case js_malloc w of (base, w) \<Rightarrow> Inr (base, ud_read_size (udps w u), w)))"

text \<open>\<open>addr\<close> is None for the NULL address libuv passes when there was nothing to read.\<close>

definition uvUdpRecvCb ::
    "jsenv \<Rightarrow> netenv \<Rightarrow> nat \<Rightarrow> int \<Rightarrow> nat \<Rightarrow> string \<Rightarrow> sockaddr option \<Rightarrow> int
       \<Rightarrow> 'z udp_rt_scheme \<Rightarrow> 'z udp_rt_scheme res" where
  "uvUdpRecvCb E N u nread base data addr flags w =
     bindE (CHECK (u \<noteq> 0) w) (\<lambda>w.
     bindE (deref u w) (\<lambda>w.
     if nread = 0 \<and> addr = None then js_free base w
     else
       (let w = ud_upd u (\<lambda>t. t\<lparr>ud_receiving := False\<rparr>) w in
       bindE (if nread < 0
              then (case ijNewError E nread w of (arg, w) \<Rightarrow>
                     bindE (js_free base w) (\<lambda>w. Inr (arg, True, w)))
              else bindE (ijNewUint8Array base (take (nat nread) data) w) (\<lambda>(buf, w).
                   case addr of None \<Rightarrow> Inl NullDeref
                   | Some sa \<Rightarrow> Inr (JS_Object [(''data'', buf), (''flags'', JS_NewInt32 flags),
                       (''addr'', ijAddr2Obj N sa)], False, w))) (\<lambda>(arg, is_reject, w).
       bindE (ijSettlePromise E (ud_read (udps w u)) is_reject [arg] w) (\<lambda>(pr, w).
       Inr (ud_upd u (\<lambda>t. t\<lparr>ud_read := ijClearPromise pr\<rparr>) w))))))"

definition ijUdpRecv ::
    "jsenv \<Rightarrow> udpenv \<Rightarrow> jsval \<Rightarrow> jsval list \<Rightarrow> 'z udp_rt_scheme \<Rightarrow> (jsval \<times> 'z udp_rt_scheme) res" where
  "ijUdpRecv E S this argv w = (case ijUdpGet this w of (u, w) \<Rightarrow>
     if u = 0 then Inr (JS_EXCEPTION, w)
     else bindE (deref u w) (\<lambda>w.
       if ijIsPromisePending (ud_read (udps w u)) then Inr (ijThrowErrno E (udp_EBUSY S) w)
       else case (if \<not> JS_IsUndefined (argn 0 argv) then JS_ToIndex E (argn 0 argv) w
                  else (Some IJJS_DEFAULt_READ_SIZE, w)) of
         (None, w) \<Rightarrow> Inr (JS_EXCEPTION, w)
       | (Some sz, w) \<Rightarrow>
         (let w = ud_upd u (\<lambda>t. t\<lparr>ud_read_size := sz\<rparr>) w; r = udp_recv_start S
          in if r \<noteq> 0 then Inr (ijThrowErrno E r w)
             else (let w = ud_upd u (\<lambda>t. t\<lparr>ud_receiving := True\<rparr>) w in
               case ijInitPromise (ud_read (udps w u)) w of
                 (v, pr, w) \<Rightarrow> Inr (v, ud_upd u (\<lambda>t. t\<lparr>ud_read := pr\<rparr>) w)))))"

section \<open>Sending\<close>

definition uvUdpSendCb ::
    "jsenv \<Rightarrow> nat \<Rightarrow> int \<Rightarrow> 'z udp_rt_scheme \<Rightarrow> 'z udp_rt_scheme res" where
  "uvUdpSendCb E sr status w =
     bindE (deref sr w) (\<lambda>w.
     bindE (CHECK (us_handle (usreqs w sr) \<noteq> 0) w) (\<lambda>w.
     bindE (deref (us_handle (usreqs w sr)) w) (\<lambda>w.
     case (if status < 0 then (case ijNewError E status w of (arg, w) \<Rightarrow> (arg, True, w))
           else (JS_UNDEFINED, False, w)) of (arg, is_reject, w) \<Rightarrow>
     bindE (ijSettlePromise E (us_result (usreqs w sr)) is_reject [arg] w) (\<lambda>(pr, w).
     js_free sr w))))"

text \<open>
  The queued send reads the bytes through the same pointer: for a string, after the string
  has been given back.
\<close>

definition ijUdpSend ::
    "jsenv \<Rightarrow> udpenv \<Rightarrow> netenv \<Rightarrow> jsval \<Rightarrow> jsval list \<Rightarrow> 'z udp_rt_scheme
       \<Rightarrow> (jsval \<times> 'z udp_rt_scheme) res" where
  "ijUdpSend E S N this argv w = (case ijUdpGet this w of (u, w) \<Rightarrow>
     if u = 0 then Inr (JS_EXCEPTION, w)
     else case js_data E (argn 0 argv) w of
       (None, w) \<Rightarrow> Inr (JS_EXCEPTION, w)
     | (Some (is_string, buf, data), w) \<Rightarrow>
       bindE (if \<not> JS_IsUndefined (argn 1 argv) then ijObj2Addr E N (argn 1 argv) w
              else Inr (0, None, w)) (\<lambda>(r, sa, w).
       if r \<noteq> 0 then Inr (JS_EXCEPTION, w)
       else bindE (deref u w) (\<lambda>w.
       let r = udp_try_send S data sa;
           written = (if 0 \<le> r then nat r else 0)
       in if r = int (length data)
          then bindE (if is_string then JS_FreeCString (buf, 0) w else Inr w) (\<lambda>w.
               ijNewResolvedPromise E []
                 (ud_upd u (\<lambda>t. t\<lparr>ud_sent := ud_sent t @ [(data, sa)]\<rparr>) w))
          else case js_malloc w of (sr, w) \<Rightarrow>
            if sr = 0 then Inr (JS_EXCEPTION, w)
            else bindE (if is_string then JS_FreeCString (buf, written) w else Inr w) (\<lambda>w.
              let rest = drop written data;
                  w = w\<lparr>usreqs := (usreqs w)(sr := \<lparr>us_handle = u,
                        us_result = uninit_promise E\<rparr>)\<rparr>
              in bindE (if is_string then deref buf w else Inr w) (\<lambda>w.
                 let r = udp_send S rest sa
                 in if r \<noteq> 0
                    then bindE (js_free sr w) (\<lambda>w. Inr (ijThrowErrno E r w))
                    else (let w = ud_upd u (\<lambda>t. t\<lparr>ud_sent := ud_sent t @ [(rest, sa)]\<rparr>) w in
                      case ijInitPromise (us_result (usreqs w sr)) w of (v, pr, w) \<Rightarrow>
                      Inr (v, w\<lparr>usreqs := (usreqs w)(sr := (usreqs w sr)\<lparr>us_result := pr\<rparr>)\<rparr>)))))))"

section \<open>Construction and addresses\<close>

definition ijUdpFileno ::
    "jsenv \<Rightarrow> udpenv \<Rightarrow> jsval \<Rightarrow> 'z udp_rt_scheme \<Rightarrow> (jsval \<times> 'z udp_rt_scheme) res" where
  "ijUdpFileno E S this w = (case ijUdpGet this w of (u, w) \<Rightarrow>
     if u = 0 then Inr (JS_EXCEPTION, w)
     else bindE (deref u w) (\<lambda>w. case udp_fileno S of (r, fd) \<Rightarrow>
       if r \<noteq> 0 then Inr (ijThrowErrno E r w) else Inr (JS_NewInt32 fd, w)))"

definition ijNewUdp ::
    "udpenv \<Rightarrow> int \<Rightarrow> 'z udp_rt_scheme \<Rightarrow> (jsval \<times> 'z udp_rt_scheme) res" where
  "ijNewUdp S af w = (case JS_NewObjectClass ijjs_udp_class_id w of (obj, w) \<Rightarrow>
     if JS_IsException obj then Inr (obj, w)
     else case je_calloc w of (u, w) \<Rightarrow>
       if u = 0 then bindE (JS_FreeValue obj w) (\<lambda>w. Inr (JS_EXCEPTION, w))
       else if udp_init S af \<noteq> 0 then
         bindE (JS_FreeValue obj w) (\<lambda>w.
         bindE (je_free u w) (\<lambda>w.
         Inr (JS_ThrowInternalError ''couldn't initialize UDP handle'' w)))
       else (let w = uv_handle_init u 0 w;
                 w = ud_upd u (\<lambda>_. \<lparr>ud_closed = False, ud_finalized = False, ud_read_size = 0,
                       ud_read = clear_promise, ud_receiving = False, ud_sent = []\<rparr>) w
             in Inr (obj, JS_SetOpaque obj u w)))"

definition ijUdpConstructor ::
    "jsenv \<Rightarrow> udpenv \<Rightarrow> jsval list \<Rightarrow> 'z udp_rt_scheme \<Rightarrow> (jsval \<times> 'z udp_rt_scheme) res" where
  "ijUdpConstructor E S argv w =
     (case (if \<not> JS_IsUndefined (argn 0 argv) then JS_ToInt32 E (argn 0 argv) w
            else (Some AF_UNSPEC, w)) of
        (None, w) \<Rightarrow> Inr (JS_EXCEPTION, w)
      | (Some af, w) \<Rightarrow> ijNewUdp S af w)"

definition ijUdpGetSockPeerName ::
    "jsenv \<Rightarrow> udpenv \<Rightarrow> netenv \<Rightarrow> jsval \<Rightarrow> int \<Rightarrow> 'z udp_rt_scheme
       \<Rightarrow> (jsval \<times> 'z udp_rt_scheme) res" where
  "ijUdpGetSockPeerName E S N this magic w = (case ijUdpGet this w of (u, w) \<Rightarrow>
     if u = 0 then Inr (JS_EXCEPTION, w)
     else bindE (deref u w) (\<lambda>w.
       case (if magic = 0 then udp_sockname S else udp_peername S) of (r, addr) \<Rightarrow>
       if r \<noteq> 0 then Inr (ijThrowErrno E r w) else Inr (ijAddr2Obj N addr, w)))"

definition ijUdpConnect ::
    "jsenv \<Rightarrow> udpenv \<Rightarrow> netenv \<Rightarrow> jsval \<Rightarrow> jsval list \<Rightarrow> 'z udp_rt_scheme
       \<Rightarrow> (jsval \<times> 'z udp_rt_scheme) res" where
  "ijUdpConnect E S N this argv w = (case ijUdpGet this w of (u, w) \<Rightarrow>
     if u = 0 then Inr (JS_EXCEPTION, w)
     else bindE (ijObj2Addr E N (argn 0 argv) w) (\<lambda>(r, ss, w).
       if r \<noteq> 0 then Inr (JS_EXCEPTION, w)
       else bindE (deref u w) (\<lambda>w.
       let r = udp_connect S ss
       in if r \<noteq> 0 then Inr (ijThrowErrno E r w) else Inr (JS_UNDEFINED, w))))"

definition ijUdpBind ::
    "jsenv \<Rightarrow> udpenv \<Rightarrow> netenv \<Rightarrow> jsval \<Rightarrow> jsval list \<Rightarrow> 'z udp_rt_scheme
       \<Rightarrow> (jsval \<times> 'z udp_rt_scheme) res" where
  "ijUdpBind E S N this argv w = (case ijUdpGet this w of (u, w) \<Rightarrow>
     if u = 0 then Inr (JS_EXCEPTION, w)
     else bindE (ijObj2Addr E N (argn 0 argv) w) (\<lambda>(r, ss, w).
       if r \<noteq> 0 then Inr (JS_EXCEPTION, w)
       else case (if \<not> JS_IsUndefined (argn 1 argv) then JS_ToInt32 E (argn 1 argv) w
                  else (Some 0, w)) of
         (None, w) \<Rightarrow> Inr (JS_EXCEPTION, w)
       | (Some flags, w) \<Rightarrow>
         bindE (deref u w) (\<lambda>w.
         let r = udp_bind S ss flags
         in if r \<noteq> 0 then Inr (ijThrowErrno E r w) else Inr (JS_UNDEFINED, w))))"

definition ijjs_udp_proto_funcs :: "(string \<times> nat) list" where
  "ijjs_udp_proto_funcs = [(''close'', 0), (''recv'', 1), (''send'', 2), (''fileno'', 0),
     (''getsockname'', 0), (''getpeername'', 0), (''connect'', 1), (''bind'', 2)]"

section \<open>Delivery of datagrams\<close>

definition uv_udp_deliver ::
    "jsenv \<Rightarrow> udpenv \<Rightarrow> netenv \<Rightarrow> nat \<Rightarrow> int \<Rightarrow> string \<Rightarrow> sockaddr \<Rightarrow> int
       \<Rightarrow> 'z udp_rt_scheme \<Rightarrow> 'z udp_rt_scheme res" where
  "uv_udp_deliver E S N u nread data addr flags w =
     (if ud_receiving (udps w u) then
        bindE (uvUdpAllocCb u w) (\<lambda>(base, len, w).
        if base = 0 then uvUdpRecvCb E N u (udp_ENOBUFS S) 0 [] None 0 w
        else uvUdpRecvCb E N u nread base data (Some addr) flags w)
      else Inr w)"

section \<open>The close/finalize contract\<close>

definition udp_abs :: "nat \<Rightarrow> 'z udp_rt_scheme \<Rightarrow> lc" where
  "udp_abs p w = \<lparr>lc_h = hnd w p 0, lc_closed = ud_closed (udps w p),
     lc_fin = ud_finalized (udps w p), lc_freed = (blk w p = NoBlock)\<rparr>"

definition udp_base :: "jsenv \<Rightarrow> udpenv \<Rightarrow> nat \<Rightarrow> nat \<Rightarrow> 'z udp_rt_scheme \<Rightarrow> bool" where
  "udp_base E S ob p w \<longleftrightarrow> jsenv_ok E \<and> udp_ENOBUFS S < 0 \<and> p \<noteq> 0 \<and> p \<le> tick w \<and>
     blk w p = JeBlock \<and> fresh_blk w \<and> hnd w p 1 = HNone \<and> ob < tick w \<and>
     opaque w ob = (ijjs_udp_class_id, p)"

definition udp_good :: "jsenv \<Rightarrow> udpenv \<Rightarrow> nat \<Rightarrow> nat \<Rightarrow> 'z udp_rt_scheme \<Rightarrow> bool" where
  "udp_good E S ob p w \<longleftrightarrow> udp_base E S ob p w \<and>
     (\<not> ud_finalized (udps w p) \<longrightarrow> pair_ok (ud_read (udps w p)) clear_promise w)"

datatype udp_use = URecv "jsval list" | UDeliver int string sockaddr int

fun udp_ena :: "udp_use \<Rightarrow> lc \<Rightarrow> bool" where
  "udp_ena (URecv argv) s = (\<not> lc_fin s)"
| "udp_ena (UDeliver n d a fl) s = (\<not> lc_fin s \<and> lc_h s = HOpen)"

fun udp_perform ::
    "jsenv \<Rightarrow> udpenv \<Rightarrow> netenv \<Rightarrow> nat \<Rightarrow> udp_use lc_act \<Rightarrow> nat \<Rightarrow> 'z udp_rt_scheme
       \<Rightarrow> 'z udp_rt_scheme res" where
  "udp_perform E S N ob UserClose p w = bindE (ijUdpClose E (JS_Ref ob) w) (\<lambda>(_, w). Inr w)"
| "udp_perform E S N ob CloseDone p w = uvUdpCloseCb p (uv_finish_close p 0 w)"
| "udp_perform E S N ob Finalize p w = ijUdpFinalizer (JS_Ref ob) w"
| "udp_perform E S N ob (Use (URecv argv)) p w =
     bindE (ijUdpRecv E S (JS_Ref ob) argv w) (\<lambda>(_, w). Inr w)"
| "udp_perform E S N ob (Use (UDeliver n d a fl)) p w = uv_udp_deliver E S N p n d a fl w"

definition ukept ::
    "jsenv \<Rightarrow> udpenv \<Rightarrow> nat \<Rightarrow> nat \<Rightarrow> 'z udp_rt_scheme \<Rightarrow> 'z udp_rt_scheme res \<Rightarrow> bool" where
  "ukept E S ob p w r \<longleftrightarrow>
     (\<exists>w'. r = Inr w' \<and> udp_good E S ob p w' \<and> udp_abs p w' = udp_abs p w)"

lemma udps_more: "rt.more w' = rt.more w \<Longrightarrow> udps w' = udps w"
  by (cases w; cases w') simp

lemma udp_get: "udp_good E S ob p w \<Longrightarrow> ijUdpGet (JS_Ref ob) w = (p, w) \<and> p \<noteq> 0 \<and> deref p w = Inr w"
  by (simp add: udp_good_def udp_base_def ijUdpGet_def JS_GetOpaque2_def deref_def)

lemma udp_alloc:
  assumes "alloc_frame w w'" "udp_good E S ob p w"
  shows "udp_good E S ob p w'" "udp_abs p w' = udp_abs p w" "udps w' = udps w"
proof -
  show st: "udps w' = udps w"
    using assms(1) by (intro udps_more) (simp add: alloc_frame_def)
  show "udp_good E S ob p w'"
    using assms pair_alloc [OF assms(1)]
    by (auto simp: udp_good_def udp_base_def st alloc_frame_def)
  show "udp_abs p w' = udp_abs p w"
    using assms by (auto simp: udp_abs_def st alloc_frame_def udp_good_def udp_base_def)
qed

lemma udp_upd:
  assumes "udp_good E S ob p w" "\<And>t. ud_closed (f t) = ud_closed t"
    "\<And>t. ud_finalized (f t) = ud_finalized t" "\<And>t. ud_read (f t) = ud_read t"
  shows "udp_good E S ob p (ud_upd p f w)" "udp_abs p (ud_upd p f w) = udp_abs p w"
proof -
  have "pair_ok a b w \<Longrightarrow> pair_ok a b (ud_upd p f w)" for a b
    by (erule pair_frame) (simp_all add: ud_upd_def)
  then show "udp_good E S ob p (ud_upd p f w)"
    using assms by (auto simp: udp_good_def udp_base_def ud_upd_def fresh_blk_def)
  show "udp_abs p (ud_upd p f w) = udp_abs p w"
    using assms by (simp add: udp_abs_def ud_upd_def)
qed

lemma ukept_settle:
  assumes "udp_good E S ob p w1" "\<not> ud_finalized (udps w1 p)" "udp_abs p w1 = udp_abs p w"
    "v \<noteq> JS_JUNK" "\<forall>n. v \<noteq> JS_Ref n"
  shows "ukept E S ob p w (bindE (ijSettlePromise E (ud_read (udps w1 p)) rej [v] w1) (\<lambda>(pr, w).
     Inr (ud_upd p (\<lambda>t. t\<lparr>ud_read := ijClearPromise pr\<rparr>) w)))"
proof -
  have ok: "pair_ok (ud_read (udps w1 p)) clear_promise w1" and base: "udp_base E S ob p w1"
    using assms(1,2) by (simp_all add: udp_good_def)
  from pair_settle [OF ok assms(4,5), of E rej] obtain pr rs ps
    where s: "ijSettlePromise E (ud_read (udps w1 p)) rej [v] w1 =
        Inr (pr, w1\<lparr>refs := rs, proms := ps\<rparr>)"
      "pair_ok (ijClearPromise pr) clear_promise (w1\<lparr>refs := rs, proms := ps\<rparr>)"
    by blast
  let ?w2 = "ud_upd p (\<lambda>t. t\<lparr>ud_read := ijClearPromise pr\<rparr>) (w1\<lparr>refs := rs, proms := ps\<rparr>)"
  have "pair_ok (ijClearPromise pr) clear_promise ?w2"
    by (rule pair_frame [OF s(2)]) (simp_all add: ud_upd_def)
  then show ?thesis
    using s(1) base assms(3)
    by (simp add: ukept_def udp_good_def udp_abs_def udp_base_def ud_upd_def fresh_blk_def)
qed

lemma ukept_throw:
  assumes "udp_good E S ob p w1" "udp_abs p w1 = udp_abs p w"
  shows "ukept E S ob p w (bindE (Inr (ijThrowErrno E e w1)) (\<lambda>(_, w). Inr w))"
proof -
  obtain v w' where t: "ijThrowErrno E e w1 = (v, w')" by fastforce
  then have "alloc_frame w1 w'" using af_throwErrno by blast
  with udp_alloc [OF this assms(1)] assms(2) show ?thesis by (auto simp: ukept_def t)
qed

lemma ukept_init:
  assumes "udp_good E S ob p w1" "\<not> ud_finalized (udps w1 p)" "udp_abs p w1 = udp_abs p w"
    "pr_p (ud_read (udps w1 p)) = JS_UNDEFINED"
    "ijInitPromise (ud_read (udps w1 p)) w1 = (v, pr, w2)"
  shows "ukept E S ob p w (Inr (ud_upd p (\<lambda>t. t\<lparr>ud_read := pr\<rparr>) w2))"
proof -
  have ok: "pair_ok (ud_read (udps w1 p)) clear_promise w1" and base: "udp_base E S ob p w1"
    using assms(1,2) by (simp_all add: udp_good_def)
  have "\<not> pr_valid (ud_read (udps w1 p))"
    using ok assms(4) by (auto simp: pair_ok_def slot_ok_def split: if_splits)
  note i = pair_init [OF ok this assms(5)] and f = init_frame_init [OF assms(5)]
  have st: "udps w2 = udps w1" using f by (intro udps_more) (simp add: init_frame_def)
  let ?w3 = "ud_upd p (\<lambda>t. t\<lparr>ud_read := pr\<rparr>) w2"
  have "pair_ok pr clear_promise ?w3"
    by (rule pair_frame [OF i]) (simp_all add: ud_upd_def)
  moreover have "udp_base E S ob p ?w3"
    using base f init_fresh [OF f]
    by (auto simp: udp_base_def ud_upd_def init_frame_def fresh_blk_def)
  ultimately show ?thesis
    using assms(3) f st by (simp add: ukept_def udp_good_def udp_abs_def)
      (simp add: ud_upd_def init_frame_def)
qed

lemma ukept_recv:
  assumes "udp_good E S ob p w" "\<not> ud_finalized (udps w p)"
  shows "ukept E S ob p w (udp_perform E S N ob (Use (URecv argv)) p w)"
proof -
  note d = udp_get [OF assms(1)]
  show ?thesis
  proof (cases "pr_p (ud_read (udps w p)) = JS_UNDEFINED")
    case False
    with ukept_throw [OF assms(1) refl, of "udp_EBUSY S"] d show ?thesis
      by (simp add: ijUdpRecv_def ijIsPromisePending_def)
  next
    case True
    obtain r w1 where c: "(if \<not> JS_IsUndefined (argn 0 argv) then JS_ToIndex E (argn 0 argv) w
        else (Some IJJS_DEFAULt_READ_SIZE, w)) = (r, w1)" by fastforce
    then have "alloc_frame w w1" by (auto split: if_splits dest: af_toIndex)
    note g1 = udp_alloc [OF this assms(1)]
    show ?thesis
    proof (cases r)
      case (Some sz)
      let ?w2 = "ud_upd p (\<lambda>t. t\<lparr>ud_read_size := sz\<rparr>) w1"
      let ?w3 = "ud_upd p (\<lambda>t. t\<lparr>ud_receiving := True\<rparr>) ?w2"
      have g2: "udp_good E S ob p ?w2" "udp_abs p ?w2 = udp_abs p w"
        using udp_upd [OF g1(1)] g1(2) by simp_all
      have g3: "udp_good E S ob p ?w3" "udp_abs p ?w3 = udp_abs p w"
        using udp_upd [OF g2(1)] g2(2) by simp_all
      obtain v pr w4 where i: "ijInitPromise (ud_read (udps ?w3 p)) ?w3 = (v, pr, w4)"
        by (cases "ijInitPromise (ud_read (udps ?w3 p)) ?w3")
      have "\<not> ud_finalized (udps ?w3 p)" "pr_p (ud_read (udps ?w3 p)) = JS_UNDEFINED"
        using assms(2) True g1(3) by (simp_all add: ud_upd_def)
      from ukept_init [OF g3(1) this(1) g3(2) this(2) i]
        ukept_throw [OF g2, of "udp_recv_start S"] show ?thesis
        using True d c Some i by (auto simp: ijUdpRecv_def ijIsPromisePending_def Let_def)
    qed (use True d c g1 in \<open>simp add: ijUdpRecv_def ijIsPromisePending_def ukept_def\<close>)
  qed
qed

lemma ukept_recv_cb:
  assumes "alloc_frame w w1" "udp_good E S ob p w" "\<not> ud_finalized (udps w p)"
    and "base \<noteq> 0 \<longrightarrow> tick w < base \<and> base \<le> tick w1 \<and> blk w1 base = JsBlock \<and>
      hnd w1 base = (\<lambda>_. HNone)"
    and "base = 0 \<longrightarrow> nread < 0" "addr = None \<longrightarrow> nread < 0"
  shows "ukept E S ob p w (uvUdpRecvCb E N p nread base data addr flags w1)"
proof -
  let ?w1 = "ud_upd p (\<lambda>t. t\<lparr>ud_receiving := False\<rparr>) w1"
  let ?w0 = "ud_upd p (\<lambda>t. t\<lparr>ud_receiving := False\<rparr>) w"
  have d: "deref p w1 = Inr w1" "p \<noteq> 0" using udp_get [OF udp_alloc(1) [OF assms(1,2)]] by simp_all
  have g0: "udp_good E S ob p ?w0" "udp_abs p ?w0 = udp_abs p w"
    using udp_upd [OF assms(2)] by simp_all
  have "rt.more ?w1 = rt.more ?w0"
    using assms(1) by (cases w; cases w1) (simp add: ud_upd_def alloc_frame_def)
  then have a1: "alloc_frame ?w0 ?w1"
    using assms(1) by (auto simp: ud_upd_def alloc_frame_def fresh_blk_def)
  have settle: "ukept E S ob p w (bindE (ijSettlePromise E (ud_read (udps w2 p)) rej [v] w2)
      (\<lambda>(pr, w). Inr (ud_upd p (\<lambda>t. t\<lparr>ud_read := ijClearPromise pr\<rparr>) w)))"
    if "alloc_frame ?w0 w2" "v \<noteq> JS_JUNK" "\<forall>n. v \<noteq> JS_Ref n" for w2 v rej
    using udp_alloc [OF that(1) g0(1)] g0(2) assms(3) that(2,3)
    by (intro ukept_settle) (simp_all add: ud_upd_def)
  have young: "tick ?w0 < base \<and> base \<le> tick ?w1 \<and> blk ?w1 base = JsBlock \<and>
      hnd ?w1 base = (\<lambda>_. HNone)" if "base \<noteq> 0"
    using assms(4) that by (simp add: ud_upd_def)
  show ?thesis
  proof (cases "nread < 0")
    case True
    obtain v w2 where v: "ijNewError E nread ?w1 = (v, w2)" by fastforce
    note f = af_newError [OF v]
    have "\<exists>w3. js_free base w2 = Inr w3 \<and> alloc_frame ?w0 w3"
    proof (cases "base = 0")
      case False
      note y = young [OF this]
      have "blk w2 base = JsBlock" "hnd w2 base = (\<lambda>_. HNone)" "base \<le> tick w2"
        using y f by (auto simp: alloc_frame_def)
      then show ?thesis
        using af_free_young [OF af_trans [OF a1 conjunct1 [OF f]]] y by (simp add: js_free_def)
    qed (use af_trans [OF a1 conjunct1 [OF f]] in \<open>simp add: js_free_def free_block_def\<close>)
    then obtain w3 where "js_free base w2 = Inr w3" "alloc_frame ?w0 w3" by blast
    with settle [OF this(2), of v True] f v True d show ?thesis
      by (simp add: uvUdpRecvCb_def CHECK_def Let_def)
  next
    case False
    then obtain sa where sa: "addr = Some sa" using assms(6) by (cases addr) auto
    have y: "tick ?w0 < base" "base \<le> tick ?w1" "blk ?w1 base = JsBlock"
      "hnd ?w1 base = (\<lambda>_. HNone)" using young assms(5) False by auto
    obtain v w2 where "ijNewUint8Array base (take (nat nread) data) ?w1 = Inr (v, w2)"
      "alloc_frame ?w0 w2" using af_newUint8Array [OF a1 y] by blast
    with settle [OF this(2), of "JS_Object [(''data'', v), (''flags'', JS_NewInt32 flags),
        (''addr'', ijAddr2Obj N sa)]" False] False d sa show ?thesis
      by (simp add: uvUdpRecvCb_def CHECK_def Let_def)
  qed
qed

lemma ukept_deliver:
  assumes "udp_good E S ob p w" "\<not> ud_finalized (udps w p)"
  shows "ukept E S ob p w (udp_perform E S N ob (Use (UDeliver n d a fl)) p w)"
proof -
  obtain base w1 where m: "js_malloc w = (base, w1)" by fastforce
  note f = af_malloc [OF m] and g = udp_get [OF assms(1)]
  have "udp_ENOBUFS S < 0" using assms(1) by (simp add: udp_good_def udp_base_def)
  then show ?thesis
    using assms f g ukept_recv_cb [of w w1 E S ob p 0 "udp_ENOBUFS S" None N "[]" 0]
      ukept_recv_cb [of w w1 E S ob p base n "Some a" N d fl]
    by (auto simp: uv_udp_deliver_def uvUdpAllocCb_def CHECK_def m ukept_def)
qed

lemma udp_close_step:
  assumes "udp_good E S ob p w" "hnd w p 0 \<noteq> HNone"
  shows "\<exists>w'. uvUdpMaybeClose p w = Inr w' \<and> udp_good E S ob p w' \<and>
    udp_abs p w' = lc_request (udp_abs p w)"
proof (cases "hnd w p 0 = HOpen")
  case True
  let ?w = "ud_upd p (\<lambda>t. t\<lparr>ud_receiving := False\<rparr>) w"
  have g: "udp_good E S ob p ?w" "udp_abs p ?w = udp_abs p w"
    using udp_upd [OF assms(1)] by simp_all
  let ?w' = "?w\<lparr>hnd := (hnd ?w)(p := (hnd ?w p)(0 := HClosing))\<rparr>"
  have "pair_ok a b ?w \<Longrightarrow> pair_ok a b ?w'" for a b by (erule pair_frame) simp_all
  then have "udp_good E S ob p ?w'"
    using g(1) by (simp add: udp_good_def udp_base_def fresh_blk_def)
  moreover have "udp_abs p ?w' = lc_request (udp_abs p w)"
    using True by (simp add: udp_abs_def lc_request_def ud_upd_def)
  ultimately show ?thesis
    using True assms(1) by (simp add: uvUdpMaybeClose_def deref_def uv_is_closing_def
        uv_close_def udp_good_def udp_base_def) (simp add: ud_upd_def)
next
  case False
  then have "uv_is_closing p 0 w"
    using assms(2) by (cases "hnd w p 0") (auto simp: uv_is_closing_def)
  then show ?thesis
    using False assms(1) by (simp add: uvUdpMaybeClose_def deref_def udp_good_def
        udp_base_def lc_request_def udp_abs_def)
qed

lemma udp_user_close:
  assumes "udp_good E S ob p w" "hnd w p 0 \<noteq> HNone" "\<not> ud_finalized (udps w p)"
  shows "\<exists>w'. ijUdpClose E (JS_Ref ob) w = Inr (JS_UNDEFINED, w') \<and> udp_good E S ob p w' \<and>
    udp_abs p w' = lc_request (udp_abs p w)"
proof -
  note g = udp_get [OF assms(1)]
  let ?settle = "if ijIsPromisePending (ud_read (udps w p))
    then bindE (ijSettlePromise E (ud_read (udps w p)) False [JS_Object [(''data'', JS_UNDEFINED)]] w)
      (\<lambda>(pr, w). Inr (ud_upd p (\<lambda>t. t\<lparr>ud_read := ijClearPromise pr\<rparr>) w)) else Inr w"
  have "ukept E S ob p w ?settle"
    using ukept_settle [OF assms(1,3) refl, of "JS_Object [(''data'', JS_UNDEFINED)]" False] assms(1)
    by (auto simp: ukept_def)
  then obtain w1 where w1: "?settle = Inr w1" "udp_good E S ob p w1" "udp_abs p w1 = udp_abs p w"
    by (auto simp: ukept_def)
  have "hnd w1 p 0 \<noteq> HNone" using assms(2) w1(3) by (simp add: udp_abs_def)
  from udp_close_step [OF w1(2) this] w1 g show ?thesis
    by (auto simp: ijUdpClose_def Let_def)
qed

lemma udp_finalize_step:
  assumes "udp_good E S ob p w" "lc_wf (udp_abs p w)" "\<not> ud_finalized (udps w p)"
  shows "\<exists>w'. ijUdpFinalizer (JS_Ref ob) w = Inr w' \<and>
    (if ud_closed (udps w p)
     then udp_abs p w' = (udp_abs p w)\<lparr>lc_fin := True, lc_freed := True\<rparr>
     else udp_good E S ob p w' \<and> udp_abs p w' = lc_request ((udp_abs p w)\<lparr>lc_fin := True\<rparr>))"
proof -
  let ?r = "ud_read (udps w p)"
  have base: "udp_base E S ob p w" and ok: "pair_ok ?r clear_promise w"
    using assms by (simp_all add: udp_good_def)
  from pair_free [OF ok] obtain rs
    where f: "ijFreePromiseRT ?r w = Inr (?r\<lparr>pr_valid := False\<rparr>, w\<lparr>refs := rs\<rparr>)" by blast
  define w3 where "w3 = ud_upd p (\<lambda>t. t\<lparr>ud_finalized := True\<rparr>)
    (ud_upd p (\<lambda>t. t\<lparr>ud_read := ?r\<lparr>pr_valid := False\<rparr>\<rparr>) (w\<lparr>refs := rs\<rparr>))"
  have run: "ijUdpFinalizer (JS_Ref ob) w =
      (if ud_closed (udps w p) then je_free p w3 else uvUdpMaybeClose p w3)"
    using f base by (simp add: ijUdpFinalizer_def deref_def udp_base_def w3_def Let_def)
      (simp add: ud_upd_def)
  have g3: "udp_good E S ob p w3" "udp_abs p w3 = (udp_abs p w)\<lparr>lc_fin := True\<rparr>"
    using base by (simp_all add: udp_good_def udp_base_def w3_def ud_upd_def udp_abs_def
        fresh_blk_def)
  show ?thesis
  proof (cases "ud_closed (udps w p)")
    case True
    then have "hnd w p 0 = HClosed" using assms(2) by (simp add: lc_wf_def udp_abs_def)
    with True run base show ?thesis
      by (simp add: je_free_def free_block_def handles_quiet_def udp_base_def w3_def
          ud_upd_def udp_abs_def)
  next
    case False
    have "hnd w3 p 0 \<noteq> HNone"
      using assms(2) by (simp add: lc_wf_def udp_abs_def w3_def ud_upd_def)
    from udp_close_step [OF g3(1) this] run False g3(2) show ?thesis by simp
  qed
qed

interpretation udp: closeable udp_abs "udp_good E S ob" udp_ena "udp_perform E S N ob"
  for E S N ob
proof
  fix p and w :: "'z udp_rt_scheme" and a :: "udp_use lc_act" and s
  assume g: "udp_good E S ob p w" and wf: "lc_wf (udp_abs p w)"
    and st: "lc_step udp_ena a (udp_abs p w) = Some s"
  have nf: "blk w p \<noteq> NoBlock" "p \<noteq> 0" "hnd w p 0 \<noteq> HNone"
    using g wf by (simp_all add: udp_good_def udp_base_def lc_wf_def udp_abs_def)
  show "\<exists>w'. udp_perform E S N ob a p w = Inr w' \<and> udp_abs p w' = s \<and>
      (\<not> lc_freed s \<longrightarrow> udp_good E S ob p w')"
  proof (cases a)
    case UserClose
    with st have "\<not> ud_finalized (udps w p)" by (auto simp: udp_abs_def split: if_splits)
    from udp_user_close [OF g nf(3) this] UserClose st show ?thesis
      by (auto split: if_splits)
  next
    case CloseDone
    let ?w = "ud_upd p (\<lambda>t. t\<lparr>ud_closed := True\<rparr>) (uv_finish_close p 0 w)"
    have "pair_ok x y w \<Longrightarrow> pair_ok x y ?w" for x y
      by (erule pair_frame) (simp_all add: ud_upd_def uv_finish_close_def)
    with CloseDone g st nf show ?thesis
      by (auto simp: uvUdpCloseCb_def CHECK_def deref_def udp_good_def udp_base_def
          udp_abs_def ud_upd_def uv_finish_close_def je_free_def free_block_def
          handles_quiet_def fresh_blk_def Let_def split: if_splits)
  next
    case Finalize
    with st have "\<not> ud_finalized (udps w p)" by (auto simp: udp_abs_def split: if_splits)
    from udp_finalize_step [OF g wf this] Finalize st nf show ?thesis
      by (cases "ud_closed (udps w p)") (auto simp: udp_abs_def split: if_splits)
  next
    case (Use u)
    then have "\<not> ud_finalized (udps w p)" "s = udp_abs p w"
      using st by (cases u; auto simp: udp_abs_def split: if_splits)+
    then have "ukept E S ob p w (udp_perform E S N ob a p w)"
      using Use g ukept_recv ukept_deliver by (cases u) (auto simp del: udp_perform.simps)
    with \<open>s = udp_abs p w\<close> show ?thesis by (auto simp: ukept_def)
  qed
qed

section \<open>Properties\<close>

lemma new_udp_good:
  assumes "fresh_blk w" "jsenv_ok E" "udp_ENOBUFS S < 0" "ijNewUdp S af w = Inr (JS_Ref ob, w1)"
  shows "udp_good E S ob (snd (opaque w1 ob)) w1 \<and> udp_abs (snd (opaque w1 ob)) w1 = lc_init"
proof -
  have "\<not> oom w (tick w)" "\<not> oom w (Suc (tick w))" "udp_init S af = 0"
    using assms(4) by (auto simp: ijNewUdp_def JS_NewObjectClass_def je_calloc_def throw_defs
        split: if_splits)
  then have "ob = tick w" "opaque w1 ob = (ijjs_udp_class_id, tick w + 2)" "tick w1 = tick w + 2"
    "blk w1 = (blk w)(tick w + 2 := JeBlock)" "hnd w1 (tick w + 2) = (\<lambda>_. HNone)(0 := HOpen)"
    "udps w1 (tick w + 2) = \<lparr>ud_closed = False, ud_finalized = False, ud_read_size = 0,
       ud_read = clear_promise, ud_receiving = False, ud_sent = []\<rparr>"
    using assms(4) by (auto simp: ijNewUdp_def JS_NewObjectClass_def je_calloc_def
        uv_handle_init_def ud_upd_def)
  moreover have "pair_ok clear_promise clear_promise w1"
    by (simp add: pair_ok_def slot_ok_def idle_val_def clear_promise_def pr_held_def)
  ultimately show ?thesis
    using assms(1-3) by (simp add: udp_good_def udp_base_def udp_abs_def lc_init_def fresh_blk_def)
qed


definition plain_udp :: udpenv where
  "plain_udp = \<lparr>udp_EBUSY = -16, udp_ENOBUFS = -105, udp_init = (\<lambda>_. 0), udp_recv_start = 0,
     udp_try_send = (\<lambda>d a. -11), udp_send = (\<lambda>d a. 0), udp_fileno = (0, 3),
     udp_sockname = (0, SockIn 0 0), udp_peername = (0, SockIn 0 0), udp_connect = (\<lambda>_. 0),
     udp_bind = (\<lambda>_ _. 0)\<rparr>"

definition udp_world :: udp_rt where
  "udp_world = rt.extend rt0 (udp_rt.fields
     (\<lambda>_. \<lparr>ud_closed = False, ud_finalized = False, ud_read_size = 0, ud_read = clear_promise,
        ud_receiving = False, ud_sent = []\<rparr>)
     (\<lambda>_. \<lparr>us_handle = 0, us_result = clear_promise\<rparr>))"

lemmas udp_world_defs = udp_world_def rt.defs udp_rt.defs rt0_def

definition demo_udp :: udp_rt where
  "demo_udp = (case ijNewUdp plain_udp 0 udp_world of Inr (_, w) \<Rightarrow> w | Inl _ \<Rightarrow> udp_world)"

lemma demo_udp_made:
  "ijNewUdp plain_udp 0 udp_world = Inr (JS_Ref 0, demo_udp)" "snd (opaque demo_udp 0) = 2"
  "\<forall>n. \<not> oom demo_udp n"
  by (simp_all add: demo_udp_def ijNewUdp_def udp_world_defs rt_defs plain_udp_def ud_upd_def)

lemma demo_udp_good:
  "fresh_blk udp_world" "udp_ENOBUFS plain_udp < 0" "udp_good plain_env plain_udp 0 2 demo_udp"
proof -
  show f: "fresh_blk udp_world" "udp_ENOBUFS plain_udp < 0"
    by (simp_all add: udp_world_defs fresh_blk_def plain_udp_def)
  from new_udp_good [OF f(1) plain_env_ok f(2) demo_udp_made(1)]
  show "udp_good plain_env plain_udp 0 2 demo_udp" by (simp add: demo_udp_made(2))
qed


text \<open>Sending a string that the kernel does not take at once uses the string after it has
  been given back: ijUdpSend calls JS\_FreeCString and then passes the same buffer to
  uv\_udp\_send.\<close>

theorem udp_send_string_use_after_free:
  assumes "udp_good E S ob p w" "to_cstr E (JS_Str s) = Some bytes" "\<forall>n. \<not> oom w n"
    and "udp_try_send S bytes None < 0"
  shows "ijUdpSend E S N (JS_Ref ob) [JS_Str s] w = Inl UseAfterFree"
proof -
  have "p \<le> tick w" "p \<noteq> 0" "blk w p = JeBlock"
    using assms(1) by (auto simp: udp_good_def udp_base_def)
  then show ?thesis
    using udp_get [OF assms(1)] assms(2-)
    by (auto simp: ijUdpSend_def argn_def js_data_def JS_ToCString_def deref_def Let_def
        js_malloc_def JS_FreeCString_def free_block_def handles_quiet_def)
qed

theorem udp_send_string_use_after_free_witness:
  "ijUdpSend plain_env plain_udp unary_netenv (JS_Ref 0) [JS_Str ''hi''] demo_udp
     = Inl UseAfterFree"
  by (rule udp_send_string_use_after_free [OF demo_udp_good(3) _ demo_udp_made(3)])
     (simp_all add: plain_env_def plain_udp_def)

end
