(* ===== verification/Process.thy ===== *)
theory Process
  imports Streams
begin

text \<open>
  ijprocess.c: child processes. spawn collects the options from its arguments, creates pipe
  objects for the standard streams on request, starts the child, and releases the option
  strings; wait answers with a promise that the exit callback settles.
\<close>

section \<open>Data\<close>

datatype stdio_container = Inherit int | CreatePipe nat bool | IgnoreFd

record IJJSProcess =
  pc_closed :: bool
  pc_finalized :: bool
  pc_stdin :: jsval
  pc_stdout :: jsval
  pc_stderr :: jsval
  pc_exited :: bool
  pc_exit_status :: int
  pc_term_signal :: int
  pc_result :: IJJSPromise

record proc_rt = stream_rt +
  procs :: "nat \<Rightarrow> IJJSProcess"

text \<open>
  uv\_process\_options\_t: the argument and environment vectors are blocks with a list of
  string blocks each.
\<close>

record spawn_opts =
  so_args :: nat
  so_argv :: "(nat \<times> string) list"
  so_env :: nat
  so_envv :: "(nat \<times> string) list"
  so_cwd :: "nat \<times> string"
  so_uid :: "int option"
  so_gid :: "int option"
  so_stdio :: "stdio_container list"

text \<open>\<open>own_names\<close> is JS\_GetOwnPropertyNames restricted to enumerable string keys; \<open>None\<close>
  is a throw.\<close>

record procenv =
  uv_spawn :: "spawn_opts \<Rightarrow> int"
  process_kill :: "int \<Rightarrow> int"
  process_pid :: int
  SIGTERM :: int
  own_names :: "jsval \<Rightarrow> string list option"

definition ijjs_process_class_id :: nat where "ijjs_process_class_id = 41"

definition pc_upd ::
    "nat \<Rightarrow> (IJJSProcess \<Rightarrow> IJJSProcess) \<Rightarrow> 'z proc_rt_scheme \<Rightarrow> 'z proc_rt_scheme" where
  "pc_upd p f w = w\<lparr>procs := (procs w)(p := f (procs w p))\<rparr>"

section \<open>Closing\<close>

definition uvProcessCloseCb :: "nat \<Rightarrow> 'z proc_rt_scheme \<Rightarrow> 'z proc_rt_scheme res" where
  "uvProcessCloseCb p w =
     bindE (CHECK (p \<noteq> 0) w) (\<lambda>w.
     bindE (deref p w) (\<lambda>w.
     let w = pc_upd p (\<lambda>t. t\<lparr>pc_closed := True\<rparr>) w
     in if pc_finalized (procs w p) then je_free p w else Inr w))"

definition uvProcessMaybeClose :: "nat \<Rightarrow> 'z proc_rt_scheme \<Rightarrow> 'z proc_rt_scheme res" where
  "uvProcessMaybeClose p w =
     bindE (deref p w) (\<lambda>w. if \<not> uv_is_closing p 0 w then uv_close p 0 w else Inr w)"

definition ijProcessFinalizer :: "jsval \<Rightarrow> 'z proc_rt_scheme \<Rightarrow> 'z proc_rt_scheme res" where
  "ijProcessFinalizer val w =
     (let p = JS_GetOpaque val ijjs_process_class_id w in
      if p \<noteq> 0 then
        bindE (deref p w) (\<lambda>w.
        bindE (ijFreePromiseRT (pc_result (procs w p)) w) (\<lambda>(pr, w).
        let w = pc_upd p (\<lambda>t. t\<lparr>pc_result := pr\<rparr>) w in
        bindE (JS_FreeValueRT (pc_stdin (procs w p)) w) (\<lambda>w.
        bindE (JS_FreeValueRT (pc_stdout (procs w p)) w) (\<lambda>w.
        bindE (JS_FreeValueRT (pc_stderr (procs w p)) w) (\<lambda>w.
        let w = pc_upd p (\<lambda>t. t\<lparr>pc_finalized := True\<rparr>) w
        in if pc_closed (procs w p) then je_free p w else uvProcessMaybeClose p w)))))
      else Inr w)"

definition ijProcessMark :: "jsval \<Rightarrow> 'z proc_rt_scheme \<Rightarrow> jsval list" where
  "ijProcessMark val w =
     (let p = JS_GetOpaque val ijjs_process_class_id w
      in if p \<noteq> 0 then ijMarkPromise (pc_result (procs w p)) @
           [pc_stdin (procs w p), pc_stdout (procs w p), pc_stderr (procs w p)] else [])"

definition ijProcessGet :: "jsval \<Rightarrow> 'z proc_rt_scheme \<Rightarrow> nat \<times> 'z proc_rt_scheme" where
  "ijProcessGet obj w = JS_GetOpaque2 obj ijjs_process_class_id w"

section \<open>Methods\<close>

definition ijProcessKill ::
    "jsenv \<Rightarrow> procenv \<Rightarrow> jsval \<Rightarrow> jsval list \<Rightarrow> 'z proc_rt_scheme
       \<Rightarrow> (jsval \<times> 'z proc_rt_scheme) res" where
  "ijProcessKill E P this argv w = (case ijProcessGet this w of (p, w) \<Rightarrow>
     if p = 0 then Inr (JS_EXCEPTION, w)
     else case (if \<not> JS_IsUndefined (argn 0 argv) then JS_ToInt32 E (argn 0 argv) w
                else (Some (SIGTERM P), w)) of
       (None, w) \<Rightarrow> Inr (JS_EXCEPTION, w)
     | (Some sig_num, w) \<Rightarrow>
       bindE (deref p w) (\<lambda>w.
       let r = process_kill P sig_num
       in if r \<noteq> 0 then Inr (ijThrowErrno E r w) else Inr (JS_UNDEFINED, w)))"

definition exit_object :: "int \<Rightarrow> int \<Rightarrow> jsval" where
  "exit_object exit_status term_signal =
     JS_Object [(''exit_status'', JS_NewInt32 exit_status), (''term_signal'', JS_NewInt32 term_signal)]"

definition ijProcessWait ::
    "jsenv \<Rightarrow> jsval \<Rightarrow> 'z proc_rt_scheme \<Rightarrow> (jsval \<times> 'z proc_rt_scheme) res" where
  "ijProcessWait E this w = (case ijProcessGet this w of (p, w) \<Rightarrow>
     if p = 0 then Inr (JS_EXCEPTION, w)
     else bindE (deref p w) (\<lambda>w.
       if pc_exited (procs w p)
       then ijNewResolvedPromise E
              [exit_object (pc_exit_status (procs w p)) (pc_term_signal (procs w p))] w
       else if pc_closed (procs w p) then Inr (JS_UNDEFINED, w)
       else case ijInitPromise (pc_result (procs w p)) w of
         (v, pr, w) \<Rightarrow> Inr (v, pc_upd p (\<lambda>t. t\<lparr>pc_result := pr\<rparr>) w)))"

definition ijProcessPidGet ::
    "procenv \<Rightarrow> jsval \<Rightarrow> 'z proc_rt_scheme \<Rightarrow> (jsval \<times> 'z proc_rt_scheme) res" where
  "ijProcessPidGet P this w = (case ijProcessGet this w of (p, w) \<Rightarrow>
     if p = 0 then Inr (JS_EXCEPTION, w)
     else bindE (deref p w) (\<lambda>w. Inr (JS_NewInt32 (process_pid P), w)))"

definition ijProcessStdioGet ::
    "jsval \<Rightarrow> nat \<Rightarrow> 'z proc_rt_scheme \<Rightarrow> (jsval \<times> 'z proc_rt_scheme) res" where
  "ijProcessStdioGet this magic w = (case ijProcessGet this w of (p, w) \<Rightarrow>
     if p = 0 then Inr (JS_EXCEPTION, w)
     else bindE (deref p w) (\<lambda>w.
       let v = [pc_stdin (procs w p), pc_stdout (procs w p), pc_stderr (procs w p)] ! magic
       in Inr (v, JS_DupValue v w)))"

definition uvExitCb ::
    "jsenv \<Rightarrow> nat \<Rightarrow> int \<Rightarrow> int \<Rightarrow> 'z proc_rt_scheme \<Rightarrow> 'z proc_rt_scheme res" where
  "uvExitCb E p exit_status term_signal w =
     bindE (CHECK (p \<noteq> 0) w) (\<lambda>w.
     bindE (deref p w) (\<lambda>w.
     let w = pc_upd p (\<lambda>t. t\<lparr>pc_exited := True, pc_exit_status := exit_status,
               pc_term_signal := term_signal\<rparr>) w in
     bindE (if \<not> JS_IsUndefined (pr_p (pc_result (procs w p)))
            then bindE (ijSettlePromise E (pc_result (procs w p)) False
                          [exit_object exit_status term_signal] w) (\<lambda>(pr, w).
                 Inr (pc_upd p (\<lambda>t. t\<lparr>pc_result := ijClearPromise pr\<rparr>) w))
            else Inr w) (\<lambda>w.
     uvProcessMaybeClose p w)))"

section \<open>Spawning\<close>

definition js_strdup ::
    "nat \<times> string \<Rightarrow> 'z rt_scheme \<Rightarrow> (nat \<times> 'z rt_scheme) res" where
  "js_strdup s w = (if fst s = 0 then Inl NullDeref else Inr (js_malloc w))"

text \<open>The elements are copied one by one; the values read and their C strings stay
  borrowed.\<close>

fun spawn_copy_args ::
    "jsenv \<Rightarrow> jsval list \<Rightarrow> (nat \<times> string) list \<Rightarrow> 'z proc_rt_scheme
       \<Rightarrow> (bool \<times> (nat \<times> string) list \<times> 'z proc_rt_scheme) res" where
  "spawn_copy_args E [] acc w = Inr (True, acc, w)"
| "spawn_copy_args E (v # vs) acc w =
     (if JS_IsException v then Inr (False, acc, w)
      else case JS_ToCString E v (JS_DupValue v w) of (p, s, w) \<Rightarrow>
        bindE (js_strdup (p, s) w) (\<lambda>(q, w). spawn_copy_args E vs (acc @ [(q, s)]) w))"

definition spawn_args ::
    "jsenv \<Rightarrow> jsval \<Rightarrow> spawn_opts \<Rightarrow> 'z proc_rt_scheme
       \<Rightarrow> (bool \<times> spawn_opts \<times> 'z proc_rt_scheme) res" where
  "spawn_args E cmd o1 w = (case cmd of
     JS_Str _ \<Rightarrow>
       (case js_malloc w of (args, w) \<Rightarrow>
        if args = 0 then Inr (False, o1, w)
        else case JS_ToCString E cmd w of (p, s, w) \<Rightarrow>
          bindE (js_strdup (p, s) w) (\<lambda>(q, w).
          Inr (True, o1\<lparr>so_args := args, so_argv := [(q, s)]\<rparr>, w)))
   | JS_Array vs \<Rightarrow>
       (case js_malloc w of (args, w) \<Rightarrow>
        if args = 0 then Inr (False, o1, w)
        else bindE (spawn_copy_args E vs [] w) (\<lambda>(ok, argv, w).
          Inr (ok, o1\<lparr>so_args := args, so_argv := argv\<rparr>, w)))
   | _ \<Rightarrow> Inr (False, o1, snd (JS_ThrowTypeError ''only string and array are allowed'' w)))"

text \<open>One \<open>key=value\<close> string per property; a value without a string form is dereferenced
  as NULL, and so is the string block when it cannot be allocated.\<close>

fun spawn_copy_env ::
    "jsenv \<Rightarrow> jsval \<Rightarrow> string list \<Rightarrow> (nat \<times> string) list \<Rightarrow> 'z proc_rt_scheme
       \<Rightarrow> (bool \<times> (nat \<times> string) list \<times> 'z proc_rt_scheme) res" where
  "spawn_copy_env E js_env [] acc w = Inr (True, acc, w)"
| "spawn_copy_env E js_env (key # keys) acc w =
     (case JS_GetPropertyStr E js_env key w of (prop, w) \<Rightarrow>
      if JS_IsException prop then bindE (JS_FreeValue js_env w) (\<lambda>w. Inr (False, acc, w))
      else case JS_ToCString E prop w of (p, value, w) \<Rightarrow>
        if p = 0 then Inl NullDeref
        else case js_malloc w of (q, w) \<Rightarrow>
          if q = 0 then Inl NullDeref
          else spawn_copy_env E js_env keys (acc @ [(q, key @ ''='' @ value)]) w)"

definition spawn_env ::
    "jsenv \<Rightarrow> procenv \<Rightarrow> jsval \<Rightarrow> spawn_opts \<Rightarrow> 'z proc_rt_scheme
       \<Rightarrow> (bool \<times> spawn_opts \<times> 'z proc_rt_scheme) res" where
  "spawn_env E P arg1 o1 w = (case JS_GetPropertyStr E arg1 ''env'' w of (js_env, w) \<Rightarrow>
     if JS_IsObject js_env then
       (case own_names P js_env of
          None \<Rightarrow> bindE (JS_FreeValue js_env w) (\<lambda>w. Inr (False, o1, w))
        | Some names \<Rightarrow>
          (case js_malloc w of (env, w) \<Rightarrow>
           if env = 0 then bindE (JS_FreeValue js_env w) (\<lambda>w. Inr (False, o1, w))
           else bindE (spawn_copy_env E js_env names [] w) (\<lambda>(ok, envv, w).
             let o1 = o1\<lparr>so_env := env, so_envv := envv\<rparr>
             in if ok then bindE (JS_FreeValue js_env w) (\<lambda>w. Inr (True, o1, w))
                else Inr (False, o1, w))))
     else bindE (JS_FreeValue js_env w) (\<lambda>w. Inr (True, o1, w)))"

definition spawn_cwd ::
    "jsenv \<Rightarrow> jsval \<Rightarrow> spawn_opts \<Rightarrow> 'z proc_rt_scheme
       \<Rightarrow> (bool \<times> spawn_opts \<times> 'z proc_rt_scheme) res" where
  "spawn_cwd E arg1 o1 w = (case JS_GetPropertyStr E arg1 ''cwd'' w of (js_cwd, w) \<Rightarrow>
     if JS_IsException js_cwd then Inr (False, o1, w)
     else bindE (if \<not> JS_IsUndefined js_cwd
                 then (case JS_ToCString E js_cwd w of (p, s, w) \<Rightarrow>
                        bindE (js_strdup (p, s) w) (\<lambda>(q, w). Inr (o1\<lparr>so_cwd := (q, s)\<rparr>, w)))
                 else Inr (o1, w)) (\<lambda>(o1, w).
       bindE (JS_FreeValue js_cwd w) (\<lambda>w. Inr (True, o1, w))))"

definition spawn_id ::
    "jsenv \<Rightarrow> jsval \<Rightarrow> string \<Rightarrow> (int \<Rightarrow> spawn_opts \<Rightarrow> spawn_opts) \<Rightarrow> spawn_opts
       \<Rightarrow> 'z proc_rt_scheme \<Rightarrow> (bool \<times> spawn_opts \<times> 'z proc_rt_scheme) res" where
  "spawn_id E arg1 name set_id o1 w = (case JS_GetPropertyStr E arg1 name w of (js_id, w) \<Rightarrow>
     if JS_IsException js_id then Inr (False, o1, w)
     else if \<not> JS_IsUndefined js_id
     then (case JS_ToUint32 E js_id w of (r, w) \<Rightarrow>
       bindE (JS_FreeValue js_id w) (\<lambda>w.
       case r of None \<Rightarrow> Inr (False, o1, w) | Some i \<Rightarrow> Inr (True, set_id i o1, w)))
     else bindE (JS_FreeValue js_id w) (\<lambda>w. Inr (True, o1, w)))"

text \<open>The three standard streams differ in their index and in the pipe's direction.\<close>

definition pc_set_stdio :: "nat \<Rightarrow> jsval \<Rightarrow> IJJSProcess \<Rightarrow> IJJSProcess" where
  "pc_set_stdio k v t = (if k = 0 then t\<lparr>pc_stdin := v\<rparr> else if k = 1 then t\<lparr>pc_stdout := v\<rparr>
     else t\<lparr>pc_stderr := v\<rparr>)"

definition spawn_stdio ::
    "jsenv \<Rightarrow> strenv \<Rightarrow> nat \<Rightarrow> jsval \<Rightarrow> string \<Rightarrow> nat \<Rightarrow> bool \<Rightarrow> spawn_opts
       \<Rightarrow> 'z proc_rt_scheme \<Rightarrow> (bool \<times> spawn_opts \<times> 'z proc_rt_scheme) res" where
  "spawn_stdio E S p arg1 name k readable o1 w =
     (case JS_GetPropertyStr E arg1 name w of (js, w) \<Rightarrow>
      if JS_IsException js \<or> JS_IsUndefined js
      then bindE (JS_FreeValue js w) (\<lambda>w. Inr (True, o1, w))
      else case JS_ToCString E js w of (cp, str, w) \<Rightarrow>
        if cp = 0 then Inl NullDeref
        else if str = ''inherit''
        then bindE (JS_FreeValue js w) (\<lambda>w.
             Inr (True, o1\<lparr>so_stdio := (so_stdio o1)[k := Inherit (int k)]\<rparr>, w))
        else if str = ''pipe''
        then bindE (ijNewPipe S w) (\<lambda>(obj, w).
             if JS_IsException obj then bindE (JS_FreeValue js w) (\<lambda>w. Inr (False, o1, w))
             else (let w = pc_upd p (pc_set_stdio k obj) w in
               case ijPipeGetStream obj w of (stream, w) \<Rightarrow>
               bindE (JS_FreeValue js w) (\<lambda>w.
               Inr (True, o1\<lparr>so_stdio := (so_stdio o1)[k := CreatePipe stream readable]\<rparr>, w))))
        else if str = ''ignore''
        then bindE (JS_FreeValue js w) (\<lambda>w.
             Inr (True, o1\<lparr>so_stdio := (so_stdio o1)[k := IgnoreFd]\<rparr>, w))
        else bindE (JS_FreeValue js w) (\<lambda>w. Inr (True, o1, w)))"

text \<open>Steps run until one takes the failure exit.\<close>

fun spawn_steps ::
    "(spawn_opts \<Rightarrow> 'z proc_rt_scheme \<Rightarrow> (bool \<times> spawn_opts \<times> 'z proc_rt_scheme) res) list
       \<Rightarrow> spawn_opts \<Rightarrow> 'z proc_rt_scheme \<Rightarrow> (bool \<times> spawn_opts \<times> 'z proc_rt_scheme) res" where
  "spawn_steps [] o1 w = Inr (True, o1, w)"
| "spawn_steps (f # fs) o1 w = bindE (f o1 w) (\<lambda>(ok, o1, w).
     if ok then spawn_steps fs o1 w else Inr (False, o1, w))"

definition spawn_options ::
    "jsenv \<Rightarrow> strenv \<Rightarrow> procenv \<Rightarrow> nat \<Rightarrow> jsval list \<Rightarrow> spawn_opts \<Rightarrow> 'z proc_rt_scheme
       \<Rightarrow> (bool \<times> spawn_opts \<times> 'z proc_rt_scheme) res" where
  "spawn_options E S P p argv =
     (let arg1 = argn 1 argv in
      spawn_steps (spawn_args E (argn 0 argv) #
        (if \<not> JS_IsUndefined arg1
         then [spawn_env E P arg1, spawn_cwd E arg1,
               spawn_id E arg1 ''uid'' (\<lambda>i o1. o1\<lparr>so_uid := Some i\<rparr>),
               spawn_id E arg1 ''gid'' (\<lambda>i o1. o1\<lparr>so_gid := Some i\<rparr>),
               spawn_stdio E S p arg1 ''stdin'' 0 True, spawn_stdio E S p arg1 ''stdout'' 1 False,
               spawn_stdio E S p arg1 ''stderr'' 2 False]
         else [])))"

text \<open>Both exits release the option strings, up to the first missing one.\<close>

definition spawn_free_vec ::
    "nat \<Rightarrow> (nat \<times> string) list \<Rightarrow> 'z proc_rt_scheme \<Rightarrow> 'z proc_rt_scheme res" where
  "spawn_free_vec v xs w =
     (if v \<noteq> 0 then bindE (forE js_free (takeWhile (\<lambda>q. q \<noteq> 0) (map fst xs)) w) (js_free v)
      else Inr w)"

definition spawn_cleanup :: "spawn_opts \<Rightarrow> 'z proc_rt_scheme \<Rightarrow> 'z proc_rt_scheme res" where
  "spawn_cleanup o1 w =
     bindE (spawn_free_vec (so_args o1) (so_argv o1) w) (\<lambda>w.
     bindE (spawn_free_vec (so_env o1) (so_envv o1) w) (\<lambda>w.
     if fst (so_cwd o1) \<noteq> 0 then js_free (fst (so_cwd o1)) w else Inr w))"

definition spawn_fail ::
    "nat \<Rightarrow> jsval \<Rightarrow> 'z proc_rt_scheme \<Rightarrow> 'z proc_rt_scheme res" where
  "spawn_fail p obj w =
     bindE (deref p w) (\<lambda>w.
     bindE (JS_FreeValue (pc_stdin (procs w p)) w) (\<lambda>w.
     bindE (JS_FreeValue (pc_stdout (procs w p)) w) (\<lambda>w.
     bindE (JS_FreeValue (pc_stderr (procs w p)) w) (\<lambda>w.
     bindE (je_free p w) (\<lambda>w.
     JS_FreeValue obj w)))))"

definition no_opts :: spawn_opts where
  "no_opts = \<lparr>so_args = 0, so_argv = [], so_env = 0, so_envv = [], so_cwd = (0, []),
     so_uid = None, so_gid = None, so_stdio = [Inherit 0, Inherit 1, Inherit 2]\<rparr>"

text \<open>uv\_spawn registers the handle with the loop before it starts the child, and leaves it
  registered when starting the child fails.\<close>

definition ijSpawn ::
    "jsenv \<Rightarrow> strenv \<Rightarrow> procenv \<Rightarrow> jsval list \<Rightarrow> 'z proc_rt_scheme
       \<Rightarrow> (jsval \<times> 'z proc_rt_scheme) res" where
  "ijSpawn E S P argv w = (case JS_NewObjectClass ijjs_process_class_id w of (obj, w) \<Rightarrow>
     if JS_IsException obj then Inr (obj, w)
     else case je_calloc w of (p, w) \<Rightarrow>
       if p = 0 then bindE (JS_FreeValue obj w) (\<lambda>w. Inr (JS_EXCEPTION, w))
       else
         (let w = pc_upd p (\<lambda>_. \<lparr>pc_closed = False, pc_finalized = False,
                    pc_stdin = JS_UNDEFINED, pc_stdout = JS_UNDEFINED, pc_stderr = JS_UNDEFINED,
                    pc_exited = False, pc_exit_status = 0, pc_term_signal = 0,
                    pc_result = clear_promise\<rparr>) w in
          bindE (spawn_options E S P p argv no_opts w) (\<lambda>(ok, o1, w).
          bindE (if ok
                 then (let w = uv_handle_init p 0 w; r = uv_spawn P o1
                       in if r \<noteq> 0 then Inr (False, snd (ijThrowErrno E r w))
                          else Inr (True, JS_SetOpaque obj p w))
                 else Inr (False, w)) (\<lambda>(ok, w).
          if ok then bindE (spawn_cleanup o1 w) (\<lambda>w. Inr (obj, w))
          else bindE (spawn_fail p obj w) (\<lambda>w.
               bindE (spawn_cleanup o1 w) (\<lambda>w. Inr (JS_EXCEPTION, w)))))))"

section \<open>The close/finalize contract\<close>

definition proc_abs :: "nat \<Rightarrow> 'z proc_rt_scheme \<Rightarrow> lc" where
  "proc_abs p w = \<lparr>lc_h = hnd w p 0, lc_closed = pc_closed (procs w p),
     lc_fin = pc_finalized (procs w p), lc_freed = (blk w p = NoBlock)\<rparr>"

definition pc_stdio :: "IJJSProcess \<Rightarrow> jsval list" where
  "pc_stdio t = [pc_stdin t, pc_stdout t, pc_stderr t]"

definition proc_base :: "jsenv \<Rightarrow> nat \<Rightarrow> nat \<Rightarrow> 'z proc_rt_scheme \<Rightarrow> bool" where
  "proc_base E ob p w \<longleftrightarrow> jsenv_ok E \<and> (\<forall>n. \<not> oom w n) \<and> p \<noteq> 0 \<and> p \<le> tick w \<and>
     blk w p = JeBlock \<and> hnd w p 1 = HNone \<and> ob < tick w \<and>
     opaque w ob = (ijjs_process_class_id, p)"

definition proc_good :: "jsenv \<Rightarrow> nat \<Rightarrow> nat \<Rightarrow> 'z proc_rt_scheme \<Rightarrow> bool" where
  "proc_good E ob p w \<longleftrightarrow> proc_base E ob p w \<and>
     (\<not> pc_finalized (procs w p) \<longrightarrow> beside_ok (pc_result (procs w p)) (pc_stdio (procs w p)) w)"

text \<open>The exit of the child is what requests the close; wait is the other operation.\<close>

fun proc_ena :: "unit \<Rightarrow> lc \<Rightarrow> bool" where
  "proc_ena u s = (\<not> lc_fin s)"

fun proc_perform ::
    "jsenv \<Rightarrow> nat \<Rightarrow> int \<Rightarrow> int \<Rightarrow> unit lc_act \<Rightarrow> nat \<Rightarrow> 'z proc_rt_scheme \<Rightarrow> 'z proc_rt_scheme res" where
  "proc_perform E ob st sg UserClose p w = uvExitCb E p st sg w"
| "proc_perform E ob st sg CloseDone p w = uvProcessCloseCb p (uv_finish_close p 0 w)"
| "proc_perform E ob st sg Finalize p w = ijProcessFinalizer (JS_Ref ob) w"
| "proc_perform E ob st sg (Use u) p w = bindE (ijProcessWait E (JS_Ref ob) w) (\<lambda>(_, w). Inr w)"

lemma proc_get:
  "proc_base E ob p w \<Longrightarrow> ijProcessGet (JS_Ref ob) w = (p, w) \<and> p \<noteq> 0 \<and> deref p w = Inr w"
  by (simp add: proc_base_def ijProcessGet_def JS_GetOpaque2_def deref_def)

lemma proc_upd:
  assumes "proc_good E ob p w" "\<And>t. pc_closed (f t) = pc_closed t"
    "\<And>t. pc_finalized (f t) = pc_finalized t" "\<And>t. pc_result (f t) = pc_result t"
    "\<And>t. pc_stdio (f t) = pc_stdio t"
  shows "proc_good E ob p (pc_upd p f w)" "proc_abs p (pc_upd p f w) = proc_abs p w"
proof -
  have "beside_ok a b w \<Longrightarrow> beside_ok a b (pc_upd p f w)" for a b
    by (erule beside_frame) (simp_all add: pc_upd_def)
  then show "proc_good E ob p (pc_upd p f w)"
    using assms by (auto simp: proc_good_def proc_base_def pc_upd_def)
  show "proc_abs p (pc_upd p f w) = proc_abs p w"
    using assms by (simp add: proc_abs_def pc_upd_def)
qed

lemma proc_close_step:
  assumes "proc_good E ob p w" "hnd w p 0 \<noteq> HNone"
  shows "\<exists>w'. uvProcessMaybeClose p w = Inr w' \<and> proc_good E ob p w' \<and>
    proc_abs p w' = lc_request (proc_abs p w) \<and> procs w' = procs w \<and> proms w' = proms w"
proof (cases "hnd w p 0 = HOpen")
  case True
  let ?w' = "w\<lparr>hnd := (hnd w)(p := (hnd w p)(0 := HClosing))\<rparr>"
  have "beside_ok a b w \<Longrightarrow> beside_ok a b ?w'" for a b by (erule beside_frame) simp_all
  then have "proc_good E ob p ?w'" using assms(1) by (simp add: proc_good_def proc_base_def)
  moreover have "proc_abs p ?w' = lc_request (proc_abs p w)"
    using True by (simp add: proc_abs_def lc_request_def)
  ultimately show ?thesis
    using True assms(1) by (simp add: uvProcessMaybeClose_def deref_def uv_is_closing_def
        uv_close_def proc_good_def proc_base_def)
next
  case False
  then have "uv_is_closing p 0 w"
    using assms(2) by (cases "hnd w p 0") (auto simp: uv_is_closing_def)
  then show ?thesis
    using False assms(1) by (simp add: uvProcessMaybeClose_def deref_def proc_good_def
        proc_base_def lc_request_def proc_abs_def)
qed

lemma exit_object_plain: "exit_object a b \<noteq> JS_JUNK" "\<forall>n. exit_object a b \<noteq> JS_Ref n"
  by (simp_all add: exit_object_def)

lemma proc_exit:
  assumes "proc_good E ob p w" "hnd w p 0 \<noteq> HNone" "\<not> pc_finalized (procs w p)"
  shows "\<exists>w'. uvExitCb E p st sg w = Inr w' \<and> proc_good E ob p w' \<and>
    proc_abs p w' = lc_request (proc_abs p w) \<and> pc_exited (procs w' p) \<and>
    pc_exit_status (procs w' p) = st \<and> pc_term_signal (procs w' p) = sg \<and>
    (pr_valid (pc_result (procs w p)) \<longrightarrow>
      (\<exists>n. pr_p (pc_result (procs w p)) = JS_Ref n \<and> proms w' n = Fulfilled (exit_object st sg))) \<and>
    (\<forall>n. pr_p (pc_result (procs w p)) \<noteq> JS_Ref n \<longrightarrow> proms w' n = proms w n)"
proof -
  let ?w1 = "pc_upd p (\<lambda>t. t\<lparr>pc_exited := True, pc_exit_status := st, pc_term_signal := sg\<rparr>) w"
  have g1: "proc_good E ob p ?w1" "proc_abs p ?w1 = proc_abs p w"
    using proc_upd [OF assms(1)] by (simp_all add: pc_stdio_def)
  have ok: "beside_ok (pc_result (procs ?w1 p)) (pc_stdio (procs ?w1 p)) ?w1"
    using g1(1) assms(3) by (simp add: proc_good_def pc_upd_def)
  from beside_settle [OF ok exit_object_plain, of E False st sg] obtain pr rs ps
    where s: "ijSettlePromise E (pc_result (procs ?w1 p)) False [exit_object st sg] ?w1 =
        Inr (pr, ?w1\<lparr>refs := rs, proms := ps\<rparr>)"
      "beside_ok (ijClearPromise pr) (pc_stdio (procs ?w1 p)) (?w1\<lparr>refs := rs, proms := ps\<rparr>)"
      "pr_valid (pc_result (procs ?w1 p)) \<longrightarrow>
        (\<exists>n. pr_p (pc_result (procs ?w1 p)) = JS_Ref n \<and> ps n = settled_state False (exit_object st sg))"
      "\<forall>n. pr_p (pc_result (procs ?w1 p)) \<noteq> JS_Ref n \<longrightarrow> ps n = proms ?w1 n"
    by blast
  define w2 where "w2 = (if pr_p (pc_result (procs ?w1 p)) \<noteq> JS_UNDEFINED
    then pc_upd p (\<lambda>t. t\<lparr>pc_result := ijClearPromise pr\<rparr>) (?w1\<lparr>refs := rs, proms := ps\<rparr>) else ?w1)"
  have b: "beside_ok (ijClearPromise pr) (pc_stdio (procs ?w1 p))
      (pc_upd p (\<lambda>t. t\<lparr>pc_result := ijClearPromise pr\<rparr>) (?w1\<lparr>refs := rs, proms := ps\<rparr>))"
    by (rule beside_frame [OF s(2)]) (simp_all add: pc_upd_def)
  have g2: "proc_good E ob p w2" "proc_abs p w2 = proc_abs p w"
    using g1 b by (simp_all add: w2_def proc_good_def proc_base_def proc_abs_def)
      (simp_all add: pc_upd_def pc_stdio_def)
  have x: "pc_exited (procs w2 p)" "pc_exit_status (procs w2 p) = st"
    "pc_term_signal (procs w2 p) = sg" by (simp_all add: w2_def pc_upd_def)
  have "pr_valid (pc_result (procs w p)) \<longrightarrow> pr_p (pc_result (procs w p)) \<noteq> JS_UNDEFINED"
    using assms(1,3) by (auto simp: proc_good_def beside_ok_def slot_ok_def)
  then have pf: "pr_valid (pc_result (procs w p)) \<longrightarrow> (\<exists>n. pr_p (pc_result (procs w p)) = JS_Ref n \<and>
      proms w2 n = Fulfilled (exit_object st sg))"
    using s(3) by (auto simp: w2_def pc_upd_def settled_state_def)
  have po: "\<forall>n. pr_p (pc_result (procs w p)) \<noteq> JS_Ref n \<longrightarrow> proms w2 n = proms w n"
    using s(4) by (auto simp: w2_def pc_upd_def)
  have "hnd w2 p 0 \<noteq> HNone" using assms(2) g2(2) by (simp add: proc_abs_def)
  from proc_close_step [OF g2(1) this] obtain w3 where w3: "uvProcessMaybeClose p w2 = Inr w3"
    "proc_good E ob p w3" "proc_abs p w3 = lc_request (proc_abs p w)" "procs w3 = procs w2"
    "proms w3 = proms w2" using g2(2) by auto
  have "uvExitCb E p st sg w = Inr w3"
    using assms(1) s(1) w3(1) by (simp add: uvExitCb_def CHECK_def deref_def proc_good_def
        proc_base_def Let_def w2_def split: if_splits)
  with w3 x pf po show ?thesis by auto
qed

lemma procs_more: "rt.more w' = rt.more w \<Longrightarrow> procs w' = procs w"
  by (cases w; cases w') simp

lemma proc_wait_pending:
  assumes "proc_good E ob p w" "\<not> pc_finalized (procs w p)" "\<not> pc_exited (procs w p)"
    "\<not> pc_closed (procs w p)"
  shows "\<exists>w'. ijProcessWait E (JS_Ref ob) w = Inr (JS_Ref (tick w), w') \<and> proc_good E ob p w' \<and>
    proc_abs p w' = proc_abs p w \<and> proms w' = (proms w)(tick w := Pending) \<and>
    pr_p (pc_result (procs w' p)) = JS_Ref (tick w) \<and> pr_valid (pc_result (procs w' p)) \<and>
    pc_exited (procs w' p) = False \<and> pc_closed (procs w' p) = False \<and>
    pc_finalized (procs w' p) = False \<and> hnd w' = hnd w \<and> tick w' = tick w + 3"
proof -
  have base: "proc_base E ob p w"
    and ok: "beside_ok (pc_result (procs w p)) (pc_stdio (procs w p)) w"
    using assms(1,2) by (simp_all add: proc_good_def)
  have o: "\<not> oom w (tick w)" using base by (simp add: proc_base_def)
  obtain v pr w1 where i: "ijInitPromise (pc_result (procs w p)) w = (v, pr, w1)"
    by (cases "ijInitPromise (pc_result (procs w p)) w")
  have n: "v = JS_Ref (tick w)" "pr_p pr = JS_Ref (tick w)" "pr_valid pr"
    "proms w1 = (proms w)(tick w := Pending)" "tick w1 = tick w + 3" "oom w1 = oom w"
    "procs w1 = procs w"
    using i o by (auto simp: ijInitPromise_live Let_def)
  have f: "init_frame w w1" by (rule init_frame_init [OF i])
  let ?w2 = "pc_upd p (\<lambda>t. t\<lparr>pc_result := pr\<rparr>) w1"
  have "beside_ok pr (pc_stdio (procs w p)) ?w2"
    by (rule beside_frame [OF beside_init [OF ok o i]]) (simp_all add: pc_upd_def)
  moreover have "proc_base E ob p ?w2"
    using base f n by (auto simp: proc_base_def init_frame_def pc_upd_def)
  ultimately have "proc_good E ob p ?w2"
    by (simp add: proc_good_def) (simp add: pc_upd_def pc_stdio_def n(7))
  moreover have "proc_abs p ?w2 = proc_abs p w"
    using f n by (simp add: proc_abs_def pc_upd_def init_frame_def)
  ultimately show ?thesis
    using proc_get [OF base] assms(2-4) i n f
    by (simp add: ijProcessWait_def) (simp add: pc_upd_def init_frame_def)
qed

lemma resolved_frame:
  assumes "\<forall>n. \<not> oom w n" "v \<noteq> JS_JUNK" "\<forall>n. v \<noteq> JS_Ref n"
  shows "\<exists>w'. ijNewResolvedPromise E [v] w = Inr (JS_Ref (tick w), w') \<and> init_frame w w' \<and>
    oom w' = oom w \<and> proms w' (tick w) = Fulfilled v \<and> rt.more w' = rt.more w"
proof -
  have "JS_FreeValue v x = Inr x" for x :: "'a rt_scheme" using assms(2,3) by (cases v) auto
  then show ?thesis
    using assms(1) by (simp add: ijNewResolvedPromise_def ijSettledPromise_def Let_def
        JS_NewPromiseCapability_def settle_def arg0_def init_frame_def)
qed

lemma proc_wait_exited:
  assumes "proc_good E ob p w" "\<not> pc_finalized (procs w p)" "pc_exited (procs w p)"
  shows "\<exists>w'. ijProcessWait E (JS_Ref ob) w = Inr (JS_Ref (tick w), w') \<and> proc_good E ob p w' \<and>
    proc_abs p w' = proc_abs p w \<and> procs w' = procs w \<and> proms w' (tick w) =
      Fulfilled (exit_object (pc_exit_status (procs w p)) (pc_term_signal (procs w p)))"
proof -
  let ?v = "exit_object (pc_exit_status (procs w p)) (pc_term_signal (procs w p))"
  have base: "proc_base E ob p w"
    and ok: "beside_ok (pc_result (procs w p)) (pc_stdio (procs w p)) w"
    using assms(1,2) by (simp_all add: proc_good_def)
  have "\<forall>n. \<not> oom w n" using base by (simp add: proc_base_def)
  from resolved_frame [OF this exit_object_plain] obtain w'
    where w': "ijNewResolvedPromise E [?v] w = Inr (JS_Ref (tick w), w')" "init_frame w w'"
      "oom w' = oom w" "proms w' (tick w) = Fulfilled ?v" "rt.more w' = rt.more w" by blast
  have st: "procs w' = procs w" by (rule procs_more [OF w'(5)])
  have "beside_ok (pc_result (procs w p)) (pc_stdio (procs w p)) w'"
    unfolding beside_ok_def
  proof (intro conjI)
    show "slot_ok (pc_result (procs w p)) w'"
      using ok slot_init_frame [OF _ w'(2)] by (simp add: beside_ok_def)
    have ids: "JS_Ref n \<notin> set (pr_held (pc_result (procs w p)) @ pc_stdio (procs w p))"
      if "\<not> n < tick w" for n
      using that ok slot_ids by (auto simp: beside_ok_def)
    have "count_list (pr_held (pc_result (procs w p)) @ pc_stdio (procs w p)) (JS_Ref n)
        \<le> refs w' n" for n
    proof (cases "n < tick w")
      case True then show ?thesis using ok w'(2) by (simp add: beside_ok_def owns_def init_frame_def)
    next
      case False from count_zero [OF ids [OF this]] show ?thesis by simp
    qed
    then show "owns (pr_held (pc_result (procs w p)) @ pc_stdio (procs w p)) w'"
      using ok by (auto simp: beside_ok_def owns_def)
    show "\<forall>n. JS_Ref n \<in> set (pc_stdio (procs w p)) \<longrightarrow> n < tick w'"
      using ok w'(2) by (auto simp: beside_ok_def init_frame_def)
  qed
  moreover have "proc_base E ob p w'"
    using base w'(2,3) by (auto simp: proc_base_def init_frame_def)
  moreover have "proc_abs p w' = proc_abs p w"
    using w'(2) st by (simp add: proc_abs_def init_frame_def)
  ultimately show ?thesis
    using proc_get [OF base] assms(2,3) w'(1,4) st by (simp add: ijProcessWait_def proc_good_def)
qed

lemma proc_finalize_step:
  assumes "proc_good E ob p w" "lc_wf (proc_abs p w)" "\<not> pc_finalized (procs w p)"
  shows "\<exists>w'. ijProcessFinalizer (JS_Ref ob) w = Inr w' \<and>
    (if pc_closed (procs w p)
     then proc_abs p w' = (proc_abs p w)\<lparr>lc_fin := True, lc_freed := True\<rparr>
     else proc_good E ob p w' \<and> proc_abs p w' = lc_request ((proc_abs p w)\<lparr>lc_fin := True\<rparr>))"
proof -
  let ?r = "pc_result (procs w p)"
  have base: "proc_base E ob p w" and ok: "beside_ok ?r (pc_stdio (procs w p)) w"
    using assms by (simp_all add: proc_good_def)
  from beside_free [OF ok] obtain rs
    where f: "ijFreePromiseRT ?r w = Inr (?r\<lparr>pr_valid := False\<rparr>, w\<lparr>refs := rs\<rparr>)"
      "owns (pc_stdio (procs w p)) (w\<lparr>refs := rs\<rparr>)" by blast
  let ?w1 = "pc_upd p (\<lambda>t. t\<lparr>pc_result := ?r\<lparr>pr_valid := False\<rparr>\<rparr>) (w\<lparr>refs := rs\<rparr>)"
  have "owns (pc_stdio (procs w p)) ?w1"
    using f(2) owns_cong [of ?w1 "w\<lparr>refs := rs\<rparr>"] by (simp add: pc_upd_def)
  from forE_free [OF this] obtain rs' where
    fs: "forE JS_FreeValue (pc_stdio (procs w p)) ?w1 = Inr (?w1\<lparr>refs := rs'\<rparr>)" by blast
  define w3 where "w3 = pc_upd p (\<lambda>t. t\<lparr>pc_finalized := True\<rparr>) (?w1\<lparr>refs := rs'\<rparr>)"
  have frame: "procs w'' = procs w'" if "JS_FreeValue v w' = Inr w''"
    for v and w' w'' :: "'a proc_rt_scheme"
    using JS_FreeValue_frame(11) [OF that] by (rule procs_more)
  obtain w4 w5 where c: "JS_FreeValue (pc_stdin (procs w p)) ?w1 = Inr w4"
    "JS_FreeValue (pc_stdout (procs w p)) w4 = Inr w5"
    "JS_FreeValue (pc_stderr (procs w p)) w5 = Inr (?w1\<lparr>refs := rs'\<rparr>)"
    using fs by (auto simp: pc_stdio_def)
  have "procs w4 = procs ?w1" "procs w5 = procs ?w1" using frame [OF c(1)] frame [OF c(2)] by simp_all
  then have run: "ijProcessFinalizer (JS_Ref ob) w =
      (if pc_closed (procs w p) then je_free p w3 else uvProcessMaybeClose p w3)"
    using f(1) base c by (simp add: ijProcessFinalizer_def deref_def proc_base_def w3_def Let_def)
      (simp add: pc_upd_def)
  have g3: "proc_good E ob p w3" "proc_abs p w3 = (proc_abs p w)\<lparr>lc_fin := True\<rparr>"
    using base by (simp_all add: proc_good_def proc_base_def w3_def pc_upd_def proc_abs_def)
  show ?thesis
  proof (cases "pc_closed (procs w p)")
    case True
    then have "hnd w p 0 = HClosed" using assms(2) by (simp add: lc_wf_def proc_abs_def)
    with True run base show ?thesis
      by (simp add: je_free_def free_block_def handles_quiet_def proc_base_def w3_def
          pc_upd_def proc_abs_def)
  next
    case False
    have "hnd w3 p 0 \<noteq> HNone"
      using assms(2) by (simp add: lc_wf_def proc_abs_def w3_def pc_upd_def)
    from proc_close_step [OF g3(1) this] run False g3(2) show ?thesis by auto
  qed
qed

interpretation process: closeable proc_abs "proc_good E ob" proc_ena "proc_perform E ob st sg"
  for E ob st sg
proof
  fix p and w :: "'z proc_rt_scheme" and a :: "unit lc_act" and s
  assume g: "proc_good E ob p w" and wf: "lc_wf (proc_abs p w)"
    and s: "lc_step proc_ena a (proc_abs p w) = Some s"
  have nf: "blk w p \<noteq> NoBlock" "p \<noteq> 0" "hnd w p 0 \<noteq> HNone" "proc_base E ob p w"
    using g wf by (simp_all add: proc_good_def proc_base_def lc_wf_def proc_abs_def)
  show "\<exists>w'. proc_perform E ob st sg a p w = Inr w' \<and> proc_abs p w' = s \<and>
      (\<not> lc_freed s \<longrightarrow> proc_good E ob p w')"
  proof (cases a)
    case UserClose
    with s have "\<not> pc_finalized (procs w p)" by (auto simp: proc_abs_def split: if_splits)
    from proc_exit [OF g nf(3) this, of st sg] UserClose s show ?thesis
      by (auto split: if_splits)
  next
    case CloseDone
    let ?w = "pc_upd p (\<lambda>t. t\<lparr>pc_closed := True\<rparr>) (uv_finish_close p 0 w)"
    have "beside_ok x y w \<Longrightarrow> beside_ok x y ?w" for x y
      by (erule beside_frame) (simp_all add: pc_upd_def uv_finish_close_def)
    with CloseDone g s nf show ?thesis
      by (auto simp: uvProcessCloseCb_def CHECK_def deref_def proc_good_def proc_base_def
          proc_abs_def pc_upd_def uv_finish_close_def je_free_def free_block_def pc_stdio_def
          handles_quiet_def Let_def split: if_splits)
  next
    case Finalize
    with s have "\<not> pc_finalized (procs w p)" by (auto simp: proc_abs_def split: if_splits)
    from proc_finalize_step [OF g wf this] Finalize s nf show ?thesis
      by (cases "pc_closed (procs w p)") (auto simp: proc_abs_def split: if_splits)
  next
    case (Use u)
    then have u: "\<not> pc_finalized (procs w p)" "s = proc_abs p w"
      using s by (auto simp: proc_abs_def split: if_splits)
    show ?thesis
      using Use u proc_wait_exited [OF g u(1)] proc_wait_pending [OF g u(1)] g proc_get [OF nf(4)]
      by (cases "pc_exited (procs w p)"; cases "pc_closed (procs w p)")
         (auto simp: ijProcessWait_def)
  qed
qed

section \<open>Properties\<close>

definition spawn_words :: "(nat \<times> string) list \<Rightarrow> string list" where
  "spawn_words = map snd"

text \<open>spawn of a command without options: the argument vector is the command, the child
  inherits the standard streams, and the option blocks are released again.\<close>

lemma spawn_plain:
  assumes "fresh_blk w" "jsenv_ok E" "\<forall>n. \<not> oom w n" "to_cstr E (JS_Str cmd) = Some cmd"
    and "\<forall>o1. spawn_words (so_argv o1) = [cmd] \<and> so_envv o1 = [] \<and>
           so_stdio o1 = [Inherit 0, Inherit 1, Inherit 2] \<longrightarrow> uv_spawn P o1 = 0"
  shows "\<exists>w1. ijSpawn E S P [JS_Str cmd] w = Inr (JS_Ref (tick w), w1) \<and>
    snd (opaque w1 (tick w)) = Suc (Suc (tick w)) \<and>
    proc_good E (tick w) (Suc (Suc (tick w))) w1 \<and> proc_abs (Suc (Suc (tick w))) w1 = lc_init \<and>
    \<not> pc_exited (procs w1 (Suc (Suc (tick w))))"
  using assms
  by (simp add: ijSpawn_def spawn_options_def spawn_args_def spawn_cleanup_def spawn_free_vec_def
      js_strdup_def no_opts_def rt_defs fresh_blk_def spawn_words_def Let_def pc_upd_def argn_def
      uv_handle_init_def proc_good_def proc_base_def proc_abs_def lc_init_def
      beside_ok_def slot_ok_def owns_def pc_stdio_def clear_promise_def pr_held_def idle_val_def)


definition plain_procs :: procenv where
  "plain_procs = \<lparr>uv_spawn = (\<lambda>o1. if spawn_words (so_argv o1) = [''ls''] then 0 else -2),
     process_kill = (\<lambda>_. 0), process_pid = 7, SIGTERM = 15,
     own_names = (\<lambda>_. Some [])\<rparr>"

definition proc_world :: proc_rt where
  "proc_world = stream_rt.extend stream_world (proc_rt.fields (\<lambda>_. \<lparr>pc_closed = False,
     pc_finalized = False, pc_stdin = JS_UNDEFINED, pc_stdout = JS_UNDEFINED,
     pc_stderr = JS_UNDEFINED, pc_exited = False, pc_exit_status = 0, pc_term_signal = 0,
     pc_result = clear_promise\<rparr>))"

lemma proc_world_ok:
  "fresh_blk proc_world" "\<forall>n. \<not> oom proc_world n" "tick proc_world = 0"
  "to_cstr plain_env (JS_Str ''ls'') = Some ''ls''"
  "\<forall>o1. spawn_words (so_argv o1) = [''ls''] \<and> so_envv o1 = [] \<and>
     so_stdio o1 = [Inherit 0, Inherit 1, Inherit 2] \<longrightarrow> uv_spawn plain_procs o1 = 0"
  by (simp_all add: proc_world_def stream_rt.defs proc_rt.defs stream_world_defs fresh_blk_def
      plain_env_def plain_procs_def)


text \<open>C14. What wait promises: before the child exits it answers with a pending promise, the exit
  callback fulfils that very promise with the exit status and the signal, and a wait after the
  exit answers with a promise already fulfilled with the same object.\<close>

theorem wait_reports_exit:
  assumes "proc_good E ob p w" "lc_wf (proc_abs p w)" "\<not> pc_finalized (procs w p)"
    and "\<not> pc_exited (procs w p)" "\<not> pc_closed (procs w p)"
  shows "\<exists>n w1 w2 m w3. ijProcessWait E (JS_Ref ob) w = Inr (JS_Ref n, w1) \<and> proms w1 n = Pending \<and>
    uvExitCb E p st sg w1 = Inr w2 \<and> proms w2 n = Fulfilled (exit_object st sg) \<and>
    ijProcessWait E (JS_Ref ob) w2 = Inr (JS_Ref m, w3) \<and>
    proms w3 m = Fulfilled (exit_object st sg)"
proof -
  from proc_wait_pending [OF assms(1,3-5)] obtain w1
    where w1: "ijProcessWait E (JS_Ref ob) w = Inr (JS_Ref (tick w), w1)" "proc_good E ob p w1"
      "proms w1 (tick w) = Pending" "pr_p (pc_result (procs w1 p)) = JS_Ref (tick w)"
      "pr_valid (pc_result (procs w1 p))" "\<not> pc_finalized (procs w1 p)" "hnd w1 = hnd w"
    by auto
  have "hnd w1 p 0 \<noteq> HNone" using w1(7) assms(2) by (simp add: lc_wf_def proc_abs_def)
  from proc_exit [OF w1(2) this w1(6), of st sg] obtain w2
    where w2: "uvExitCb E p st sg w1 = Inr w2" "proc_good E ob p w2" "pc_exited (procs w2 p)"
      "pc_exit_status (procs w2 p) = st" "pc_term_signal (procs w2 p) = sg"
      "proms w2 (tick w) = Fulfilled (exit_object st sg)"
      "proc_abs p w2 = lc_request (proc_abs p w1)"
    using w1(4,5) by auto
  have "\<not> pc_finalized (procs w2 p)"
    using w2(7) w1(6) by (auto simp: proc_abs_def lc_request_def split: if_splits)
  from proc_wait_exited [OF w2(2) this w2(3)] w1(1,3) w2 show ?thesis by metis
qed

lemma proc_demo:
  "\<exists>w1. ijSpawn plain_env plain_uv plain_procs [JS_Str ''ls''] proc_world = Inr (JS_Ref 0, w1) \<and>
    proc_good plain_env 0 2 w1 \<and> proc_abs 2 w1 = lc_init \<and> \<not> pc_exited (procs w1 2)"
  using spawn_plain [OF proc_world_ok(1) plain_env_ok proc_world_ok(2,4,5), of plain_uv]
  by (auto simp: proc_world_ok(3) numeral_2_eq_2)

lemma proc_demo_ready:
  "proc_abs p w = lc_init \<Longrightarrow>
    lc_wf (proc_abs p w) \<and> \<not> pc_finalized (procs w p) \<and> \<not> pc_closed (procs w p)"
  by (simp add: lc_init_wf) (simp add: proc_abs_def lc_init_def)

theorem wait_reports_exit_witness:
  "\<exists>w n w1 w2 m w3. ijProcessWait plain_env (JS_Ref 0) w = Inr (JS_Ref n, w1) \<and>
    proms w1 n = Pending \<and> uvExitCb plain_env 2 3 0 w1 = Inr w2 \<and>
    proms w2 n = Fulfilled (exit_object 3 0) \<and>
    ijProcessWait plain_env (JS_Ref 0) (w2 :: proc_rt) = Inr (JS_Ref m, w3) \<and>
    proms w3 m = Fulfilled (exit_object 3 0)"
proof -
  obtain w where w: "proc_good plain_env 0 2 (w :: proc_rt)" "proc_abs 2 w = lc_init"
    "\<not> pc_exited (procs w 2)" using proc_demo by blast
  from proc_demo_ready [OF w(2)] wait_reports_exit [OF w(1), of 3 0] w(3) show ?thesis by blast
qed

text \<open>A process has one slot for the promise of wait and no guard on it: a second wait before
  the exit overwrites the first promise, which stays pending for ever while the second one is
  fulfilled.\<close>

theorem second_wait_loses_first:
  assumes "proc_good E ob p w" "lc_wf (proc_abs p w)" "\<not> pc_finalized (procs w p)"
    and "\<not> pc_exited (procs w p)" "\<not> pc_closed (procs w p)"
  shows "\<exists>n w1 m w2 w3. ijProcessWait E (JS_Ref ob) w = Inr (JS_Ref n, w1) \<and>
    ijProcessWait E (JS_Ref ob) w1 = Inr (JS_Ref m, w2) \<and>
    uvExitCb E p st sg w2 = Inr w3 \<and> proms w3 m = Fulfilled (exit_object st sg) \<and>
    proms w3 n = Pending"
proof -
  from proc_wait_pending [OF assms(1,3-5)] obtain w1
    where w1: "ijProcessWait E (JS_Ref ob) w = Inr (JS_Ref (tick w), w1)" "proc_good E ob p w1"
      "proms w1 (tick w) = Pending" "\<not> pc_finalized (procs w1 p)" "\<not> pc_exited (procs w1 p)"
      "\<not> pc_closed (procs w1 p)" "hnd w1 = hnd w" "tick w1 = tick w + 3"
    by auto
  from proc_wait_pending [OF w1(2,4-6)] obtain w2
    where w2: "ijProcessWait E (JS_Ref ob) w1 = Inr (JS_Ref (tick w1), w2)" "proc_good E ob p w2"
      "proms w2 (tick w) = Pending" "pr_p (pc_result (procs w2 p)) = JS_Ref (tick w1)"
      "pr_valid (pc_result (procs w2 p))" "\<not> pc_finalized (procs w2 p)" "hnd w2 = hnd w1"
    using w1(3,8) by auto
  have "hnd w2 p 0 \<noteq> HNone" using w1(7) w2(7) assms(2) by (simp add: lc_wf_def proc_abs_def)
  from proc_exit [OF w2(2) this w2(6), of st sg] obtain w3
    where w3: "uvExitCb E p st sg w2 = Inr w3" "proms w3 (tick w1) = Fulfilled (exit_object st sg)"
      "proms w3 (tick w) = proms w2 (tick w)"
    using w2(4,5) w1(8) by auto
  with w1(1) w2(1,3) show ?thesis by metis
qed

theorem second_wait_loses_first_witness:
  "\<exists>w n w1 m w2 w3. ijProcessWait plain_env (JS_Ref 0) w = Inr (JS_Ref n, w1) \<and>
    ijProcessWait plain_env (JS_Ref 0) w1 = Inr (JS_Ref m, w2) \<and>
    uvExitCb plain_env 2 0 9 w2 = Inr w3 \<and> proms w3 m = Fulfilled (exit_object 0 9) \<and>
    proms (w3 :: proc_rt) n = Pending"
proof -
  obtain w where w: "proc_good plain_env 0 2 (w :: proc_rt)" "proc_abs 2 w = lc_init"
    "\<not> pc_exited (procs w 2)" using proc_demo by blast
  from proc_demo_ready [OF w(2)] second_wait_loses_first [OF w(1), of 0 9] w(3)
  show ?thesis by blast
qed

lemma throwErrno_keeps:
  "q \<le> tick w \<Longrightarrow> blk (snd (ijThrowErrno E r w)) q = blk w q"
  "q \<le> tick w \<Longrightarrow> hnd (snd (ijThrowErrno E r w)) q = hnd w q"
  "procs (snd (ijThrowErrno E r w)) = procs w"
proof -
  obtain v w' where t: "ijThrowErrno E r w = (v, w')" by fastforce
  then have f: "alloc_frame w w'" using af_throwErrno by blast
  then show "procs (snd (ijThrowErrno E r w)) = procs w"
    unfolding t snd_conv by (intro procs_more) (simp add: alloc_frame_def)
  from f t show "q \<le> tick w \<Longrightarrow> blk (snd (ijThrowErrno E r w)) q = blk w q"
    "q \<le> tick w \<Longrightarrow> hnd (snd (ijThrowErrno E r w)) q = hnd w q"
    by (simp_all add: alloc_frame_def)
qed

text \<open>When libuv cannot start the child, spawn frees the structure while its handle is still
  registered with the loop.\<close>

theorem spawn_failure_frees_live_handle:
  assumes "\<forall>n. \<not> oom w n" "to_cstr E (JS_Str cmd) = Some cmd"
    and "\<forall>o1. spawn_words (so_argv o1) = [cmd] \<longrightarrow> uv_spawn P o1 \<noteq> 0"
  shows "ijSpawn E S P [JS_Str cmd] w = Inl LiveHandleFreed"
  using assms
  by (simp add: ijSpawn_def spawn_options_def spawn_args_def js_strdup_def no_opts_def rt_defs
      spawn_words_def Let_def pc_upd_def argn_def uv_handle_init_def spawn_fail_def
      throwErrno_keeps)

theorem spawn_failure_frees_live_handle_witness:
  "ijSpawn plain_env plain_uv plain_procs [JS_Str ''nope''] proc_world = Inl LiveHandleFreed"
  by (rule spawn_failure_frees_live_handle)
     (simp_all add: proc_world_ok plain_env_def plain_procs_def)

end
