(* ===== verification/Worker.thy ===== *)
theory Worker
  imports Modules Slots
begin

text \<open>
  ijworker.c: a worker is a runtime on its own thread, connected by a stream socket over which
  both sides send serialized values. The structure IJJSWorker exists on both sides.
\<close>

section \<open>Data\<close>

text \<open>
  \<open>wk_events\<close> are the three handlers (message, messageerror, error), \<open>wk_wrt\<close> the runtime of the
  thread on the main side. A write request has its stream and its data. \<open>wk_sent\<close> are the bytes
  written to a worker's channel.
\<close>

record IJJSWorker =
  wk_events :: "jsval list"
  wk_wrt :: nat
  wk_is_main :: bool
  wk_reading :: bool
  wk_sent :: string

record IJJSWorkerWriteReq =
  ww_worker :: nat
  ww_data :: nat

record wk_rt = mod_rt +
  workers :: "nat \<Rightarrow> IJJSWorker"
  wwreqs :: "nat \<Rightarrow> IJJSWorkerWriteReq"

text \<open>The environment. \<open>read_value\<close> is JS\_ReadObject: it decodes the value at the start of its
  input; \<open>write_value\<close> is JS\_WriteObject.\<close>

record wkenv =
  wk_pipe_init :: int
  wk_pipe_open :: "int \<Rightarrow> int"
  wk_read_start :: int
  wk_socketpair :: "int + int \<times> int"
  wk_sem_init :: int
  wk_thread_create :: int
  wk_thread_runtime :: nat
  wk_thread_join :: int
  wk_uv_write :: "string \<Rightarrow> int"
  write_value :: "jsval \<Rightarrow> string option"
  read_value :: "string \<Rightarrow> jsval + jsval"
  uv_EOF :: int

definition WORKER_EVENT_MESSAGE :: nat where "WORKER_EVENT_MESSAGE = 0"
definition WORKER_EVENT_MESSAGE_ERROR :: nat where "WORKER_EVENT_MESSAGE_ERROR = 1"
definition WORKER_EVENT_ERROR :: nat where "WORKER_EVENT_ERROR = 2"
definition WORKER_EVENT_MAX :: nat where "WORKER_EVENT_MAX = 3"

lemmas worker_events = WORKER_EVENT_MESSAGE_def WORKER_EVENT_MESSAGE_ERROR_def WORKER_EVENT_ERROR_def
  WORKER_EVENT_MAX_def

definition ijjs_worker_class_id :: nat where "ijjs_worker_class_id = 61"

text \<open>The native jobs the file enqueues, by number.\<close>

definition job_ijWorkerEval :: nat where "job_ijWorkerEval = 1"
definition job_ijEmitEvent :: nat where "job_ijEmitEvent = 2"

definition wk_upd :: "nat \<Rightarrow> (IJJSWorker \<Rightarrow> IJJSWorker) \<Rightarrow> 'z wk_rt_scheme \<Rightarrow> 'z wk_rt_scheme" where
  "wk_upd p f w = w\<lparr>workers := (workers w)(p := f (workers w p))\<rparr>"

section \<open>Jobs\<close>

definition ijWorkerEval ::
    "jsenv \<Rightarrow> vmenv \<Rightarrow> modenv \<Rightarrow> nat \<Rightarrow> jsval list \<Rightarrow> 'z wk_rt_scheme
       \<Rightarrow> (jsval \<times> 'z wk_rt_scheme) res option" where
  "ijWorkerEval E V M qrt argv w =
     (let err = (\<lambda>w. bindE (CHECK (qrt \<noteq> 0) w) (\<lambda>w. bindE (ijStop qrt w) (\<lambda>w. Inr (JS_UNDEFINED, w)))) in
      case JS_ToCString E (argn 0 argv) w of (p, filename, w) \<Rightarrow>
      if p = 0 then Some (bindE (ijDumpError E w) err)
      else case ijEvalFile E V M filename JS_EVAL_TYPE_MODULE False None w of
          None \<Rightarrow> None
        | Some r \<Rightarrow> Some (bindE r (\<lambda>(ret, w).
            bindE (JS_FreeCString (p, 0) w) (\<lambda>w.
            if JS_IsException ret
            then bindE (ijDumpError E w) (\<lambda>w. bindE (JS_FreeValue ret w) err)
            else bindE (JS_FreeValue ret w) (\<lambda>w. Inr (JS_UNDEFINED, w))))))"

definition ijEmitEvent ::
    "jsenv \<Rightarrow> jsval list \<Rightarrow> 'z wk_rt_scheme \<Rightarrow> (jsval \<times> 'z wk_rt_scheme) res" where
  "ijEmitEvent E argv w =
     bindE (CHECK (length argv = 2) w) (\<lambda>w.
     let func = argn 0 argv; arg = argn 1 argv in
     bindE (JS_Call E func [arg] w) (\<lambda>(ret, w).
     bindE (if JS_IsException ret then ijDumpError E w else Inr w) (\<lambda>w.
     bindE (JS_FreeValue ret w) (\<lambda>w.
     bindE (JS_FreeValue func w) (\<lambda>w.
     bindE (JS_FreeValue arg w) (\<lambda>w.
     Inr (JS_UNDEFINED, w)))))))"

definition ijMaybeEmitEvent :: "nat \<Rightarrow> nat \<Rightarrow> jsval \<Rightarrow> 'z wk_rt_scheme \<Rightarrow> 'z wk_rt_scheme res" where
  "ijMaybeEmitEvent p event arg w =
     bindE (deref p w) (\<lambda>w.
     let event_func = wk_events (workers w p) ! event in
     if \<not> JS_IsFunction event_func w then Inr w
     else
       let w = JS_DupValue arg (JS_DupValue event_func w) in
       case JS_EnqueueJob job_ijEmitEvent [event_func, arg] w of (r, w) \<Rightarrow> CHECK (r = 0) w)"

section \<open>The channel\<close>

definition uvWorkerCloseCb :: "nat \<Rightarrow> 'z wk_rt_scheme \<Rightarrow> 'z wk_rt_scheme res" where
  "uvWorkerCloseCb p w = bindE (CHECK (p \<noteq> 0) w) (je_free p)"

definition ijWorkerFinalizer :: "jsval \<Rightarrow> 'z wk_rt_scheme \<Rightarrow> 'z wk_rt_scheme res" where
  "ijWorkerFinalizer val w =
     (let p = JS_GetOpaque val ijjs_worker_class_id w in
      if p = 0 then Inr w
      else bindE (deref p w) (\<lambda>w.
        bindE (forE JS_FreeValueRT (wk_events (workers w p)) w) (\<lambda>w. uv_close p 0 w)))"

definition ijWorkerMark :: "jsval \<Rightarrow> 'z wk_rt_scheme \<Rightarrow> jsval list" where
  "ijWorkerMark val w =
     (let p = JS_GetOpaque val ijjs_worker_class_id w
      in if p = 0 then [] else wk_events (workers w p))"

definition ijWorkerGet :: "jsval \<Rightarrow> 'z wk_rt_scheme \<Rightarrow> nat \<times> 'z wk_rt_scheme" where
  "ijWorkerGet obj w = JS_GetOpaque2 obj ijjs_worker_class_id w"

definition uvWorkerAllocCb :: "nat \<Rightarrow> 'z wk_rt_scheme \<Rightarrow> (nat \<times> 'z wk_rt_scheme) res" where
  "uvWorkerAllocCb p w = bindE (CHECK (p \<noteq> 0) w) (\<lambda>w. bindE (deref p w) (\<lambda>w. Inr (js_malloc w)))"

text \<open>
  A read delivers \<open>nread\<close> bytes into the buffer at \<open>base\<close>, whose whole contents are \<open>buf\<close>: the
  bytes read, then whatever the memory held. The decoder is given all of it.
\<close>

definition uvWorkerReadCb ::
    "jsenv \<Rightarrow> wkenv \<Rightarrow> nat \<Rightarrow> int \<Rightarrow> nat \<Rightarrow> string \<Rightarrow> 'z wk_rt_scheme \<Rightarrow> 'z wk_rt_scheme res" where
  "uvWorkerReadCb E K p nread base buf w =
     bindE (CHECK (p \<noteq> 0) w) (\<lambda>w.
     bindE (deref p w) (\<lambda>w.
     if nread < 0 then
       let w = wk_upd p (\<lambda>t. t\<lparr>wk_reading := False\<rparr>) w in
       bindE (js_free base w) (\<lambda>w.
       if nread \<noteq> uv_EOF K then
         (case ijNewError E nread w of (error, w) \<Rightarrow>
          bindE (ijMaybeEmitEvent p WORKER_EVENT_ERROR error w) (JS_FreeValue error))
       else Inr w)
     else
       (case (case read_value K buf of Inl e \<Rightarrow> JS_Throw e w | Inr v \<Rightarrow> (v, JS_DupValue v w)) of (obj, w) \<Rightarrow>
        bindE (ijMaybeEmitEvent p WORKER_EVENT_MESSAGE obj w) (\<lambda>w.
        bindE (JS_FreeValue obj w) (js_free base)))))"

definition ijNewWorker ::
    "wkenv \<Rightarrow> int \<Rightarrow> bool \<Rightarrow> 'z wk_rt_scheme \<Rightarrow> (jsval \<times> 'z wk_rt_scheme) res" where
  "ijNewWorker K channel_fd is_main w = (case JS_NewObjectClass ijjs_worker_class_id w of (obj, w) \<Rightarrow>
     if JS_IsException obj then Inr (obj, w)
     else case je_calloc w of (p, w) \<Rightarrow>
       if p = 0 then bindE (JS_FreeValue obj w) (\<lambda>w. Inr (JS_EXCEPTION, w))
       else
         bindE (CHECK (wk_pipe_init K = 0) w) (\<lambda>w.
         bindE (CHECK (wk_pipe_open K channel_fd = 0) (uv_handle_init p 0 w)) (\<lambda>w.
         bindE (CHECK (wk_read_start K = 0) w) (\<lambda>w.
         let w = w\<lparr>workers := (workers w)(p := \<lparr>wk_events = [JS_UNDEFINED, JS_UNDEFINED, JS_UNDEFINED],
               wk_wrt = 0, wk_is_main = is_main, wk_reading = True, wk_sent = []\<rparr>)\<rparr>
         in Inr (obj, JS_SetOpaque obj p w)))))"

definition ijWorkerChannel :: "wkenv \<Rightarrow> int \<times> int \<times> int" where
  "ijWorkerChannel K = (case wk_socketpair K of Inl e \<Rightarrow> (- e, 0, 0) | Inr (a, b) \<Rightarrow> (0, a, b))"

text \<open>The thread posts the semaphore once its runtime exists, which the constructor waits for.\<close>

definition ijWorkerConstructor ::
    "jsenv \<Rightarrow> wkenv \<Rightarrow> jsval list \<Rightarrow> 'z wk_rt_scheme \<Rightarrow> (jsval \<times> 'z wk_rt_scheme) res" where
  "ijWorkerConstructor E K argv w = (case JS_ToCString E (argn 0 argv) w of (path, _, w) \<Rightarrow>
     if path = 0 then Inr (JS_EXCEPTION, w)
     else case ijWorkerChannel K of (r, fd0, fd1) \<Rightarrow>
       if r \<noteq> 0 then bindE (JS_FreeCString (path, 0) w) (\<lambda>w. Inr (ijThrowErrno E r w))
       else
         let w = w\<lparr>open_fds := open_fds w @ [fd0, fd1]\<rparr> in
         bindE (ijNewWorker K fd0 True w) (\<lambda>(obj, w).
         if JS_IsException obj
         then let w = w\<lparr>open_fds := remove1 fd1 (remove1 fd0 (open_fds w))\<rparr> in
              bindE (JS_FreeCString (path, 0) w) (\<lambda>w. Inr (JS_EXCEPTION, w))
         else
           (case ijWorkerGet obj w of (p, w) \<Rightarrow>
            bindE (CHECK (wk_sem_init K = 0) w) (\<lambda>w.
            bindE (deref p w) (\<lambda>w.
            bindE (CHECK (wk_thread_create K = 0) w) (\<lambda>w.
            bindE (JS_FreeCString (path, 0) w) (\<lambda>w.
            let w = wk_upd p (\<lambda>t. t\<lparr>wk_wrt := wk_thread_runtime K\<rparr>) w in
            bindE (CHECK (wk_wrt (workers w p) \<noteq> 0) w) (\<lambda>w. Inr (obj, w)))))))))"

definition uvWorkerWriteCb :: "jsenv \<Rightarrow> nat \<Rightarrow> int \<Rightarrow> 'z wk_rt_scheme \<Rightarrow> 'z wk_rt_scheme res" where
  "uvWorkerWriteCb E wr status w =
     bindE (CHECK (wr \<noteq> 0) w) (\<lambda>w.
     bindE (deref wr w) (\<lambda>w.
     let p = ww_worker (wwreqs w wr) in
     bindE (CHECK (p \<noteq> 0) w) (\<lambda>w.
     bindE (deref p w) (\<lambda>w.
     bindE (if status < 0 then
              (case ijNewError E status w of (error, w) \<Rightarrow>
               bindE (ijMaybeEmitEvent p WORKER_EVENT_MESSAGE_ERROR error w) (JS_FreeValue error))
            else Inr w) (\<lambda>w.
     bindE (js_free (ww_data (wwreqs w wr)) w) (js_free wr))))))"

definition ijWorkerPostMessage ::
    "wkenv \<Rightarrow> jsval \<Rightarrow> jsval list \<Rightarrow> 'z wk_rt_scheme \<Rightarrow> (jsval \<times> 'z wk_rt_scheme) res" where
  "ijWorkerPostMessage K this argv w = (case ijWorkerGet this w of (p, w) \<Rightarrow>
     if p = 0 then Inr (JS_EXCEPTION, w)
     else case js_malloc w of (wr, w) \<Rightarrow>
       if wr = 0 then Inr (JS_EXCEPTION, w)
       else case (case write_value K (argn 0 argv) of
             None \<Rightarrow> (0, [], snd (JS_ThrowTypeError ''unsupported object class'' w))
           | Some bytes \<Rightarrow> (case js_malloc w of (q, w) \<Rightarrow> (q, bytes, w))) of (buf, bytes, w) \<Rightarrow>
         if buf = 0 then bindE (js_free wr w) (\<lambda>w. Inr (JS_EXCEPTION, w))
         else
           let w = w\<lparr>wwreqs := (wwreqs w)(wr := \<lparr>ww_worker = p, ww_data = buf\<rparr>)\<rparr> in
           bindE (deref p w) (\<lambda>w.
           if wk_uv_write K bytes \<noteq> 0
           then bindE (js_free buf w) (\<lambda>w. bindE (js_free wr w) (\<lambda>w. Inr (JS_EXCEPTION, w)))
           else Inr (JS_UNDEFINED, wk_upd p (\<lambda>t. t\<lparr>wk_sent := wk_sent t @ bytes\<rparr>) w)))"

text \<open>Terminating asks the worker's loop to stop and waits for its thread. The stop request acts on the
  worker's own runtime, which is the state of the other thread and not part of this one.\<close>

definition ijWorkerTerminate ::
    "wkenv \<Rightarrow> jsval \<Rightarrow> 'z wk_rt_scheme \<Rightarrow> (jsval \<times> 'z wk_rt_scheme) res" where
  "ijWorkerTerminate K this w = (case ijWorkerGet this w of (p, w) \<Rightarrow>
     if p = 0 then Inr (JS_EXCEPTION, w)
     else bindE (deref p w) (\<lambda>w.
       if wk_is_main (workers w p) \<and> wk_wrt (workers w p) \<noteq> 0
       then bindE (CHECK (wk_thread_join K = 0) w) (\<lambda>w.
            Inr (JS_UNDEFINED, wk_upd p (\<lambda>t. t\<lparr>wk_wrt := 0\<rparr>) w))
       else Inr (JS_UNDEFINED, w)))"

definition ijWorkerEventGet :: "nat \<Rightarrow> jsval \<Rightarrow> 'z wk_rt_scheme \<Rightarrow> (jsval \<times> 'z wk_rt_scheme) res" where
  "ijWorkerEventGet magic this w = (case ijWorkerGet this w of (p, w) \<Rightarrow>
     if p = 0 then Inr (JS_EXCEPTION, w)
     else bindE (deref p w) (\<lambda>w.
       let v = wk_events (workers w p) ! magic in Inr (v, JS_DupValue v w)))"

definition ijWorkerEventSet ::
    "nat \<Rightarrow> jsval \<Rightarrow> jsval \<Rightarrow> 'z wk_rt_scheme \<Rightarrow> (jsval \<times> 'z wk_rt_scheme) res" where
  "ijWorkerEventSet magic this value w = (case ijWorkerGet this w of (p, w) \<Rightarrow>
     if p = 0 then Inr (JS_EXCEPTION, w)
     else bindE (deref p w) (\<lambda>w.
       if JS_IsFunction value w \<or> JS_IsUndefined value \<or> value = JS_NULL
       then bindE (JS_FreeValue (wk_events (workers w p) ! magic) w) (\<lambda>w.
            Inr (JS_UNDEFINED, wk_upd p (\<lambda>t. t\<lparr>wk_events := (wk_events t)[magic := value]\<rparr>)
                   (JS_DupValue value w)))
       else Inr (JS_UNDEFINED, w)))"

section \<open>The thread\<close>

text \<open>
  What the new thread runs, on its own runtime: create it, put the worker object into the global
  object, run the start-up script, queue the evaluation of the worker's file, then the loop. The
  parameters are those of ijRun and ijFreeRuntime.
\<close>

definition ijWorkerEntry where
  "ijWorkerEntry E V M K J poll alive hs teardown path channel_fd w =
     (case bindE (ijNewRuntimeWorker E V (boot_scripts E M) w) (\<lambda>(wrt, w).
        bindE (CHECK (wrt \<noteq> 0) w) (\<lambda>w.
        let w = w\<lparr>in_bootstrap := True\<rparr>; w = JS_DupValue (global_obj V) w in
        bindE (ijNewWorker K channel_fd False w) (\<lambda>(worker_obj, w).
        bindE (JS_FreeValue worker_obj w) (\<lambda>w.
        bindE (JS_FreeValue (global_obj V) w) (\<lambda>w.
        bindE (ijEvalBinary E M (bytecode M ''worker_bootstrap'') w) (\<lambda>(r, w).
        bindE (CHECK (r = 0) w) (\<lambda>w.
        let w = w\<lparr>in_bootstrap := False\<rparr>; filename = JS_Str path in
        case JS_EnqueueJob job_ijWorkerEval [filename] w of (r, w) \<Rightarrow>
        bindE (CHECK (r = 0) w) (\<lambda>w.
        bindE (JS_FreeValue filename w) (\<lambda>w. Inr (wrt, w)))))))))) of
      Inl c \<Rightarrow> Some (Inl c)
    | Inr (wrt, w) \<Rightarrow>
        (case ijRun E V J poll alive wrt w of
           None \<Rightarrow> None
         | Some r \<Rightarrow> Some (bindE r (ijFreeRuntime hs teardown wrt))))"

section \<open>Messages\<close>

text \<open>What JS\_WriteObject and JS\_ReadObject promise: reading starts at the first byte, returns the
  value that was written there, and ignores what follows.\<close>

definition codec_ok :: "wkenv \<Rightarrow> bool" where
  "codec_ok K \<longleftrightarrow> (\<forall>v b rest. write_value K v = Some b \<longrightarrow> read_value K (b @ rest) = Inr v)"

text \<open>The engine's view of the job: it cannot crash when the lemma below applies.\<close>

definition emit_job :: "jsenv \<Rightarrow> (('z wk_rt_ext) mod_rt_ext curl_rt_ext vm_rt_ext) job_sem" where
  "emit_job E job vs w = (case ijEmitEvent E vs w of Inr r \<Rightarrow> r | Inl _ \<Rightarrow> (JS_EXCEPTION, w))"

definition listening :: "nat \<Rightarrow> nat \<Rightarrow> nat \<Rightarrow> 'z wk_rt_scheme \<Rightarrow> bool" where
  "listening p event f w \<longleftrightarrow> p \<noteq> 0 \<and> blk w p = JeBlock \<and> length (wk_events (workers w p)) = 3 \<and> event < 3 \<and>
     wk_events (workers w p) ! event = JS_Ref f \<and> funs w f = UserFun"

lemma emit_enqueues:
  assumes "listening p event f w" "\<not> oom w (tick w)" "\<forall>n. v \<noteq> JS_Ref n"
  shows "ijMaybeEmitEvent p event v w = Inr (w\<lparr>tick := Suc (tick w), refs := (refs w)(f := refs w f + 2),
    jobs := jobs w @ [(job_ijEmitEvent, [JS_Ref f, v])]\<rparr>)"
proof -
  have "JS_DupValue v x = x" for x :: "'a wk_rt_scheme" using assms(3) by (cases v) auto
  then show ?thesis
    using assms(1,2)
    by (simp add: ijMaybeEmitEvent_def listening_def deref_def JS_EnqueueJob_def Let_def)
qed

lemma emit_runs:
  assumes "jsenv_ok E" "fresh_blk w" "funs w f = UserFun" "1 \<le> refs w f" "\<forall>n. v \<noteq> JS_Ref n" "v \<noteq> JS_JUNK"
  shows "\<exists>w'. ijEmitEvent E [JS_Ref f, v] w = Inr (JS_UNDEFINED, w') \<and>
    unobs (w\<lparr>calls := calls w @ [(JS_Ref f, [v])], refs := (refs w)(f := refs w f - 1)\<rparr>) w'"
proof -
  let ?w = "w\<lparr>calls := calls w @ [(JS_Ref f, [v])]\<rparr>"
  have fv: "JS_FreeValue v x = Inr x" for x :: "'a wk_rt_scheme" using assms(5,6) by (cases v) auto
  have "\<exists>w1. bindE (JS_Call E (JS_Ref f) [v] w) (\<lambda>(ret, w).
      bindE (if JS_IsException ret then ijDumpError E w else Inr w) (JS_FreeValue ret)) = Inr w1 \<and> unobs ?w w1"
  proof (cases "user_call E (JS_Ref f) [v]")
    case (Inl e)
    then have "e \<noteq> JS_JUNK" using assms(1) by (auto simp: jsenv_ok_def)
    then obtain w1 where "ijDumpError E (?w\<lparr>exn := Some e\<rparr>) = Inr w1" "unobs (?w\<lparr>exn := Some e\<rparr>) w1"
      using ijDumpError_unobs [of "?w\<lparr>exn := Some e\<rparr>" E] assms(1,2) by (auto simp: fresh_blk_def)
    then show ?thesis using assms(3) Inl by (simp add: JS_Throw_def unobs_def)
  next
    case (Inr r)
    then have "r \<noteq> JS_JUNK" "r \<noteq> JS_EXCEPTION" using assms(1) by (auto simp: jsenv_ok_def)
    then show ?thesis using assms(3) Inr by (simp add: free_dup del: JS_DupValue.simps)
  qed
  then obtain w1 where w1: "bindE (JS_Call E (JS_Ref f) [v] w) (\<lambda>(ret, w).
      bindE (if JS_IsException ret then ijDumpError E w else Inr w) (JS_FreeValue ret)) = Inr w1" "unobs ?w w1"
    by (elim exE conjE) (rule that)
  have r: "refs w1 f \<noteq> 0" "refs w1 = refs w" using w1(2) assms(4) by (auto simp: unobs_def)
  have "ijEmitEvent E [JS_Ref f, v] w =
      bindE (bindE (JS_Call E (JS_Ref f) [v] w) (\<lambda>(ret, w).
        bindE (if JS_IsException ret then ijDumpError E w else Inr w) (JS_FreeValue ret)))
      (\<lambda>w. bindE (JS_FreeValue (JS_Ref f) w) (\<lambda>w. bindE (JS_FreeValue v w) (\<lambda>w. Inr (JS_UNDEFINED, w))))"
    by (simp add: ijEmitEvent_def argn_def bindE_assoc split_def Let_def del: JS_Call.simps JS_FreeValue.simps)
  then show ?thesis using w1 r by (simp add: fv unobs_def)
qed

text \<open>C32. A read from a worker's channel delivers the first message its buffer holds: the handler is
  queued once with the value that was posted, the buffer is given back, and once the job has run
  the handler has been called with the value and every reference is back where it was. What
  follows the first message in the buffer, a second message that arrived with it included, is
  lost.\<close>

theorem worker_read_delivers_first:
  assumes "codec_ok K" "jsenv_ok E" "fresh_blk w" "listening p 0 f w" "\<not> oom w (tick w)"
    and "base \<noteq> 0" "base \<noteq> p" "blk w base = JsBlock" "hnd w base = (\<lambda>_. HNone)"
    and "write_value K v = Some b" "v \<noteq> JS_JUNK" "\<forall>n. v \<noteq> JS_Ref n" "jobs w = []" "0 \<le> nread"
  shows "\<exists>w1 w2. uvWorkerReadCb E K p nread base (b @ rest) w = Inr w1 \<and>
    jobs w1 = [(job_ijEmitEvent, [JS_Ref f, v])] \<and> blk w1 = (blk w)(base := NoBlock) \<and>
    JS_ExecutePendingJob (emit_job E) w1 = Inr (1, w2) \<and>
    calls w2 = calls w @ [(JS_Ref f, [v])] \<and> refs w2 = refs w \<and> jobs w2 = []"
proof -
  have fv: "JS_DupValue v x = x" "JS_FreeValue v x = Inr x" for x :: "'a wk_rt_scheme"
    using assms(11,12) by (cases v; simp)+
  let ?u = "w\<lparr>tick := Suc (tick w), refs := (refs w)(f := refs w f + 2),
      jobs := [(job_ijEmitEvent, [JS_Ref f, v])]\<rparr>"
  have dec: "read_value K (b @ rest) = Inr v" using assms(1,10) by (simp add: codec_ok_def)
  have p: "p \<noteq> 0" "blk w p = JeBlock" "funs w f = UserFun" using assms(4) by (simp_all add: listening_def)
  have em: "ijMaybeEmitEvent p WORKER_EVENT_MESSAGE v w = Inr ?u"
    using emit_enqueues [OF assms(4,5,12)] assms(13) by (simp add: worker_events)
  define w1 where "w1 = ?u\<lparr>blk := (blk w)(base := NoBlock)\<rparr>"
  have run: "uvWorkerReadCb E K p nread base (b @ rest) w = Inr w1"
    using p assms(6,8,9,14) dec em
    by (simp add: uvWorkerReadCb_def deref_def fv js_free_def free_block_def handles_quiet_def w1_def
        del: JS_DupValue.simps JS_FreeValue.simps)
  let ?w = "w1\<lparr>jobs := []\<rparr>"
  have "fresh_blk ?w" using assms(3) by (auto simp: fresh_blk_def w1_def)
  from emit_runs [OF assms(2) this, of f v] assms(11,12) p(3) obtain w2
    where w2: "ijEmitEvent E [JS_Ref f, v] ?w = Inr (JS_UNDEFINED, w2)"
      "unobs (?w\<lparr>calls := calls ?w @ [(JS_Ref f, [v])], refs := (refs ?w)(f := refs ?w f - 1)\<rparr>) w2"
    by (auto simp: w1_def)
  have r: "refs w2 = (refs w)(f := refs w f + 1)" "calls w2 = calls w @ [(JS_Ref f, [v])]" "jobs w2 = []"
    using w2(2) by (auto simp: unobs_def w1_def)
  have "JS_ExecutePendingJob (emit_job E) w1 = Inr (1, w2\<lparr>refs := refs w\<rparr>)"
    using w2(1) r(1) by (simp add: JS_ExecutePendingJob_def emit_job_def w1_def fv)
  then show ?thesis using run r by (auto simp: w1_def)
qed

section \<open>Handlers\<close>

lemma count_list_update:
  "i < length xs \<Longrightarrow> count_list (xs[i := v]) x + (if xs ! i = x then 1 else 0) =
     count_list xs x + (if v = x then 1 else 0)"
proof (induction xs arbitrary: i)
  case (Cons a xs)
  show ?case
  proof (cases i)
    case (Suc j)
    then show ?thesis using Cons.IH [of j] Cons.prems by (auto split: if_splits)
  qed simp
qed simp

text \<open>A worker whose handlers hold exactly the references beyond \<open>R\<close>.\<close>

definition worker_inv :: "(nat \<Rightarrow> nat) \<Rightarrow> nat \<Rightarrow> nat \<Rightarrow> 'z wk_rt_scheme \<Rightarrow> bool" where
  "worker_inv R ob p w \<longleftrightarrow> p \<noteq> 0 \<and> opaque w ob = (ijjs_worker_class_id, p) \<and> blk w p = JeBlock \<and>
     hnd w p 0 = HOpen \<and> hnd w p 1 = HNone \<and> length (wk_events (workers w p)) = 3 \<and>
     JS_JUNK \<notin> set (wk_events (workers w p)) \<and>
     (\<forall>n. refs w n = R n + count_list (wk_events (workers w p)) (JS_Ref n))"

lemma worker_inv_owns: "worker_inv R ob p w \<Longrightarrow> owns (wk_events (workers w p)) w"
  by (simp add: worker_inv_def owns_def)

lemma event_set_inv:
  assumes "worker_inv R ob p w" "m < 3" "v \<noteq> JS_JUNK"
  shows "\<exists>w'. ijWorkerEventSet m (JS_Ref ob) v w = Inr (JS_UNDEFINED, w') \<and> worker_inv R ob p w'"
proof -
  let ?ev = "wk_events (workers w p)"
  have p: "p \<noteq> 0" "opaque w ob = (ijjs_worker_class_id, p)" "blk w p = JeBlock" "length ?ev = 3"
    "JS_JUNK \<notin> set ?ev" using assms(1) by (simp_all add: worker_inv_def)
  have old: "owned (?ev ! m) 1 w"
  proof -
    have m: "?ev ! m \<in> set ?ev" using p(4) assms(2) by simp
    have "1 \<le> refs w n" if "?ev ! m = JS_Ref n" for n
    proof -
      have "count_list ?ev (JS_Ref n) \<noteq> 0" using m that by (metis count_list_0_iff)
      moreover have "count_list ?ev (JS_Ref n) \<le> refs w n" using assms(1) by (simp add: worker_inv_def)
      ultimately show ?thesis by linarith
    qed
    then show ?thesis using m p(5) by (cases "?ev ! m") (auto simp: owned_def)
  qed
  let ?w = "wk_upd p (\<lambda>t. t\<lparr>wk_events := (wk_events t)[m := v]\<rparr>)
      (JS_DupValue v (w\<lparr>refs := dec_ref (?ev ! m) (refs w)\<rparr>))"
  have "worker_inv R ob p ?w"
  proof -
    have "inc_ref v (dec_ref (?ev ! m) (refs w)) n = R n + count_list (?ev[m := v]) (JS_Ref n)" for n
    proof -
      have "refs w n = R n + count_list ?ev (JS_Ref n)" using assms(1) by (simp add: worker_inv_def)
      moreover have "?ev ! m = JS_Ref n \<Longrightarrow> 1 \<le> refs w n" using old by (simp add: owned_def)
      ultimately show ?thesis
        using count_list_update [of m ?ev v "JS_Ref n"] p(4) assms(2)
        by (auto simp: inc_ref_def dec_ref_def split: if_splits)
    qed
    moreover have "JS_JUNK \<notin> set (?ev[m := v])"
      using p(5) assms(3) set_update_subset_insert [of ?ev m v] by auto
    ultimately show ?thesis using assms(1) by (simp add: worker_inv_def wk_upd_def JS_DupValue_eq)
  qed
  moreover have "ijWorkerEventSet m (JS_Ref ob) v w =
      (if JS_IsFunction v w \<or> v = JS_UNDEFINED \<or> v = JS_NULL then Inr (JS_UNDEFINED, ?w) else Inr (JS_UNDEFINED, w))"
    using p JS_FreeValue_eq [OF old]
    by (simp add: ijWorkerEventSet_def ijWorkerGet_def JS_GetOpaque2_def deref_def Let_def)
  ultimately show ?thesis using assms(1) by auto
qed

fun set_handlers :: "jsval \<Rightarrow> (nat \<times> jsval) list \<Rightarrow> 'z wk_rt_scheme \<Rightarrow> 'z wk_rt_scheme res" where
  "set_handlers this [] w = Inr w"
| "set_handlers this ((m, v) # hs) w =
     bindE (ijWorkerEventSet m this v w) (\<lambda>(_, w). set_handlers this hs w)"

lemma set_handlers_inv:
  assumes "worker_inv R ob p w" "\<forall>(m, v)\<in>set hs. m < 3 \<and> v \<noteq> JS_JUNK"
  shows "\<exists>w'. set_handlers (JS_Ref ob) hs w = Inr w' \<and> worker_inv R ob p w'"
  using assms
proof (induction hs arbitrary: w)
  case (Cons h hs)
  obtain m v where h: "h = (m, v)" by (cases h)
  with Cons.prems event_set_inv [of R ob p w m v] obtain w1
    where "ijWorkerEventSet m (JS_Ref ob) v w = Inr (JS_UNDEFINED, w1)" "worker_inv R ob p w1" by auto
  with Cons.IH [of w1] Cons.prems(2) show ?case by (auto simp: h)
qed simp

lemma new_worker_inv:
  assumes "ijNewWorker K fd mn w = Inr (JS_Ref ob, w')"
  shows "\<exists>p. worker_inv (refs w') ob p w'"
  using assms by (auto simp: ijNewWorker_def JS_NewObjectClass_def je_calloc_def uv_handle_init_def throw_defs
      worker_inv_def Let_def split: if_splits)

text \<open>C33. A worker's handlers never leak: after any sequence of assignments to onmessage,
  onmessageerror and onerror, of functions or of anything else, finalizing the object and serving
  the close gives back every reference the handlers held and frees the structure.\<close>

theorem worker_handlers_released:
  assumes "ijNewWorker K fd mn w0 = Inr (JS_Ref ob, w)" "\<forall>(m, v)\<in>set hs. m < 3 \<and> v \<noteq> JS_JUNK"
  shows "\<exists>p w1 w2. set_handlers (JS_Ref ob) hs w = Inr w1 \<and>
    bindE (ijWorkerFinalizer (JS_Ref ob) w1) (\<lambda>w. uvWorkerCloseCb p (uv_finish_close p 0 w)) = Inr w2 \<and>
    refs w2 = refs w \<and> blk w2 p = NoBlock \<and> opaque w ob = (ijjs_worker_class_id, p)"
proof -
  obtain p where i: "worker_inv (refs w) ob p w" using new_worker_inv [OF assms(1)] by blast
  then obtain w1 where w1: "set_handlers (JS_Ref ob) hs w = Inr w1" "worker_inv (refs w) ob p w1"
    using set_handlers_inv [OF _ assms(2)] by blast
  let ?r = "\<lambda>n. refs w1 n - count_list (wk_events (workers w1 p)) (JS_Ref n)"
  have "?r = refs w" using w1(2) by (auto simp: worker_inv_def)
  with forE_free [OF worker_inv_owns [OF w1(2)]]
  have f: "forE JS_FreeValue (wk_events (workers w1 p)) w1 = Inr (w1\<lparr>refs := refs w\<rparr>)" by simp
  have "bindE (ijWorkerFinalizer (JS_Ref ob) w1) (\<lambda>w. uvWorkerCloseCb p (uv_finish_close p 0 w)) =
      Inr (w1\<lparr>refs := refs w, hnd := (hnd w1)(p := (hnd w1 p)(0 := HClosed)), blk := (blk w1)(p := NoBlock)\<rparr>)"
    using w1(2) f
    by (simp add: ijWorkerFinalizer_def worker_inv_def deref_def uv_close_def uvWorkerCloseCb_def
        uv_finish_close_def je_free_def free_block_def handles_quiet_def)
  then show ?thesis using w1(1) i by (auto simp: worker_inv_def)
qed

definition plain_wk :: wkenv where
  "plain_wk = \<lparr>wk_pipe_init = 0, wk_pipe_open = (\<lambda>_. 0), wk_read_start = 0,
     wk_socketpair = Inr (8, 9), wk_sem_init = 0, wk_thread_create = 0, wk_thread_runtime = 77,
     wk_thread_join = 0, wk_uv_write = (\<lambda>_. 0),
     write_value = (\<lambda>v. case v of JS_Bool b \<Rightarrow> Some (if b then ''t'' else ''f'') | _ \<Rightarrow> None),
     read_value = (\<lambda>s. case s of c # _ \<Rightarrow> Inr (JS_Bool (c = CHR ''t'')) | [] \<Rightarrow> Inl JS_NULL),
     uv_EOF = -4095\<rparr>"

lemma plain_wk_codec: "codec_ok plain_wk"
  by (auto simp: codec_ok_def plain_wk_def split: jsval.splits)

definition wk_world :: wk_rt where
  "wk_world = mod_rt.extend mod_world (wk_rt.fields
     (\<lambda>_. \<lparr>wk_events = [JS_Ref 0, JS_UNDEFINED, JS_UNDEFINED], wk_wrt = 0, wk_is_main = True,
        wk_reading = True, wk_sent = []\<rparr>) (\<lambda>_. \<lparr>ww_worker = 0, ww_data = 0\<rparr>))"

lemmas wk_world_defs = wk_world_def mod_rt.defs wk_rt.defs mod_world_defs

definition wk_demo :: wk_rt where
  "wk_demo = wk_world\<lparr>tick := 9, blk := (\<lambda>_. NoBlock)(3 := JeBlock, 4 := JsBlock), funs := (\<lambda>_. UserFun)\<rparr>"

theorem worker_read_delivers_first_witness:
  "\<exists>w1 w2. uvWorkerReadCb plain_env plain_wk 3 2 4 ''tf'' wk_demo = Inr w1 \<and>
    JS_ExecutePendingJob (emit_job plain_env) w1 = Inr (1, w2) \<and>
    calls w2 = calls wk_demo @ [(JS_Ref 0, [JS_Bool True])]"
proof -
  have "fresh_blk wk_demo" "listening 3 0 0 wk_demo" "\<not> oom wk_demo (tick wk_demo)" "(4 :: nat) \<noteq> 0"
    "(4 :: nat) \<noteq> 3" "blk wk_demo 4 = JsBlock" "hnd wk_demo 4 = (\<lambda>_. HNone)" "jobs wk_demo = []"
    by (simp_all add: wk_demo_def wk_world_defs fresh_blk_def listening_def)
  moreover have "write_value plain_wk (JS_Bool True) = Some ''t''" by (simp add: plain_wk_def)
  ultimately show ?thesis
    using worker_read_delivers_first [OF plain_wk_codec plain_env_ok, of wk_demo 3 0 4 "JS_Bool True" "''t''" 2 "''f''"]
    by auto
qed

theorem worker_handlers_released_witness:
  "\<exists>w. ijNewWorker plain_wk 8 True wk_world = Inr (JS_Ref 0, w) \<and>
    (\<exists>p w1 w2. set_handlers (JS_Ref 0) [(0, JS_Ref 5), (2, JS_NULL), (0, JS_UNDEFINED)] w = Inr w1 \<and>
      bindE (ijWorkerFinalizer (JS_Ref 0) w1) (\<lambda>w. uvWorkerCloseCb p (uv_finish_close p 0 w)) = Inr w2 \<and>
      refs w2 = refs w)"
proof -
  obtain w where w: "ijNewWorker plain_wk 8 True wk_world = Inr (JS_Ref 0, w)"
    by (simp add: ijNewWorker_def plain_wk_def wk_world_defs rt_defs Let_def)
  have "\<forall>(m, v)\<in>set [(0 :: nat, JS_Ref 5), (2, JS_NULL), (0, JS_UNDEFINED)]. m < 3 \<and> v \<noteq> JS_JUNK" by simp
  from worker_handlers_released [OF w this] show ?thesis using w by meson
qed

end
