(* ===== verification/Fs.thy ===== *)
theory Fs
  imports Vm Slots
begin

unbundle bit_operations_syntax

text \<open>
  ijfs.c: files, directories and the asynchronous file system calls. Every call allocates a
  request, hands it to libuv and returns a promise, which one callback settles for all kinds
  of requests.
\<close>

section \<open>Data\<close>

text \<open>The operations of libuv's uv\_fs\_t requests, with their arguments.\<close>

datatype fsop =
    FsOpen string int int | FsClose int | FsRead int int int | FsWrite int string int
  | FsStat string | FsLstat string | FsFstat int | FsRealpath string | FsUnlink string
  | FsRename string string | FsMkdtemp string | FsMkstemp string | FsRmdir string
  | FsCopyfile string string int | FsOpendir string | FsClosedir nat | FsReaddir nat

record IJJSFile =
  fl_fd :: int
  fl_path :: jsval

record IJJSDir =
  dr_dir :: nat
  dr_path :: jsval
  dr_done :: bool

text \<open>IJJSFsReq with the operation libuv keeps in it; \<open>fr_buf\<close> is the buffer of IJJSFsReadReq.\<close>

record IJJSFsReq =
  fr_op :: fsop
  fr_obj :: jsval
  fr_result :: IJJSPromise
  fr_buf :: nat

record IJJSReadFileReq =
  rf_dbuf :: string
  rf_r :: int
  rf_filename :: nat
  rf_name :: string
  rf_result :: IJJSPromise

text \<open>
  The state: the structures by address, the requests submitted and not yet answered, the
  directory streams libuv has open, and the readFile requests whose work is queued.
\<close>

record fs_rt = vm_rt +
  files :: "nat \<Rightarrow> IJJSFile"
  dirs :: "nat \<Rightarrow> IJJSDir"
  fsreqs :: "nat \<Rightarrow> IJJSFsReq"
  fs_queue :: "nat list"
  uvdirs :: "nat \<Rightarrow> bool"
  readreqs :: "nat \<Rightarrow> IJJSReadFileReq"
  work_queue :: "nat list"

record uv_stat_t =
  st_dev :: int
  st_mode :: int
  st_nlink :: int
  st_uid :: int
  st_gid :: int
  st_rdev :: int
  st_ino :: int
  st_size :: int
  st_blksize :: int
  st_blocks :: int
  st_flags :: int
  st_gen :: int
  st_atim :: "int \<times> int"
  st_mtim :: "int \<times> int"
  st_ctim :: "int \<times> int"
  st_birthtim :: "int \<times> int"

text \<open>The answer of a request, and the environment: what submitting a request returns, the
  double of a seconds and nanoseconds pair, the fcntl flags.\<close>

record fsout =
  fo_result :: int
  fo_path :: string
  fo_ptr :: string
  fo_dir :: nat
  fo_stat :: uv_stat_t
  fo_data :: string
  fo_dirent :: "string \<times> int"

record fsenv =
  fs_submit :: "fsop \<Rightarrow> int"
  fs_work_submit :: int
  timespec_double :: "int \<times> int \<Rightarrow> 64 word"

definition ijjs_file_class_id :: nat where "ijjs_file_class_id = 51"
definition ijjs_dir_class_id :: nat where "ijjs_dir_class_id = 52"

section \<open>Objects\<close>

definition fs_close_sync :: "int \<Rightarrow> 'z fs_rt_scheme \<Rightarrow> 'z fs_rt_scheme" where
  "fs_close_sync fd w = w\<lparr>open_fds := remove1 fd (open_fds w)\<rparr>"

text \<open>libuv's directory stream is freed by closedir.\<close>

definition fs_closedir :: "nat \<Rightarrow> 'z fs_rt_scheme \<Rightarrow> 'z fs_rt_scheme res" where
  "fs_closedir d w = (if uvdirs w d then Inr (w\<lparr>uvdirs := (uvdirs w)(d := False)\<rparr>) else Inl UseAfterFree)"

definition ijFileFinalizer :: "jsval \<Rightarrow> 'z fs_rt_scheme \<Rightarrow> 'z fs_rt_scheme res" where
  "ijFileFinalizer val w =
     (let f = JS_GetOpaque val ijjs_file_class_id w in
      if f = 0 then Inr w
      else bindE (deref f w) (\<lambda>w.
        let w = (if fl_fd (files w f) \<noteq> -1 then fs_close_sync (fl_fd (files w f)) w else w) in
        bindE (JS_FreeValueRT (fl_path (files w f)) w) (\<lambda>w. js_free f w)))"

definition ijDirFinalizer :: "jsval \<Rightarrow> 'z fs_rt_scheme \<Rightarrow> 'z fs_rt_scheme res" where
  "ijDirFinalizer val w =
     (let d = JS_GetOpaque val ijjs_dir_class_id w in
      if d = 0 then Inr w
      else bindE (deref d w) (\<lambda>w.
        bindE (if dr_dir (dirs w d) \<noteq> 0 then fs_closedir (dr_dir (dirs w d)) w else Inr w) (\<lambda>w.
        bindE (JS_FreeValueRT (dr_path (dirs w d)) w) (\<lambda>w. js_free d w))))"

definition ijStat2Obj :: "fsenv \<Rightarrow> uv_stat_t \<Rightarrow> jsval" where
  "ijStat2Obj F st = JS_Object [
     (''st_dev'', JS_BigUint (st_dev st)), (''st_mode'', JS_BigUint (st_mode st)),
     (''st_nlink'', JS_BigUint (st_nlink st)), (''st_uid'', JS_BigUint (st_uid st)),
     (''st_gid'', JS_BigUint (st_gid st)), (''st_rdev'', JS_BigUint (st_rdev st)),
     (''st_ino'', JS_BigUint (st_ino st)), (''st_size'', JS_BigUint (st_size st)),
     (''st_blksize'', JS_BigUint (st_blksize st)), (''st_blocks'', JS_BigUint (st_blocks st)),
     (''st_flags'', JS_BigUint (st_flags st)), (''st_gen'', JS_BigUint (st_gen st)),
     (''st_atim'', JS_Float64 (timespec_double F (st_atim st))),
     (''st_mtim'', JS_Float64 (timespec_double F (st_mtim st))),
     (''st_ctim'', JS_Float64 (timespec_double F (st_ctim st))),
     (''st_birthtim'', JS_Float64 (timespec_double F (st_birthtim st)))]"

definition ijNewFile :: "int \<Rightarrow> string \<Rightarrow> 'z fs_rt_scheme \<Rightarrow> (jsval \<times> 'z fs_rt_scheme) res" where
  "ijNewFile fd path w = (case JS_NewObjectClass ijjs_file_class_id w of (obj, w) \<Rightarrow>
     if JS_IsException obj then Inr (obj, w)
     else case js_malloc w of (f, w) \<Rightarrow>
       if f = 0 then bindE (JS_FreeValue obj w) (\<lambda>w. Inr (JS_EXCEPTION, w))
       else Inr (obj, JS_SetOpaque obj f
              (w\<lparr>files := (files w)(f := \<lparr>fl_fd = fd, fl_path = JS_Str path\<rparr>)\<rparr>)))"

definition ijFileGet :: "jsval \<Rightarrow> 'z fs_rt_scheme \<Rightarrow> nat \<times> 'z fs_rt_scheme" where
  "ijFileGet obj w = JS_GetOpaque2 obj ijjs_file_class_id w"

definition ijNewDir :: "nat \<Rightarrow> string \<Rightarrow> 'z fs_rt_scheme \<Rightarrow> (jsval \<times> 'z fs_rt_scheme) res" where
  "ijNewDir dir path w = (case JS_NewObjectClass ijjs_dir_class_id w of (obj, w) \<Rightarrow>
     if JS_IsException obj then Inr (obj, w)
     else case js_malloc w of (d, w) \<Rightarrow>
       if d = 0 then bindE (JS_FreeValue obj w) (\<lambda>w. Inr (JS_EXCEPTION, w))
       else Inr (obj, JS_SetOpaque obj d
              (w\<lparr>dirs := (dirs w)(d := \<lparr>dr_dir = dir, dr_path = JS_Str path, dr_done = False\<rparr>)\<rparr>)))"

definition ijDirGet :: "jsval \<Rightarrow> 'z fs_rt_scheme \<Rightarrow> nat \<times> 'z fs_rt_scheme" where
  "ijDirGet obj w = JS_GetOpaque2 obj ijjs_dir_class_id w"

section \<open>The request callback\<close>

definition ijFsReqInit :: "nat \<Rightarrow> jsval \<Rightarrow> 'z fs_rt_scheme \<Rightarrow> jsval \<times> 'z fs_rt_scheme" where
  "ijFsReqInit fr obj w =
     (let w = JS_DupValue obj (w\<lparr>fsreqs := (fsreqs w)(fr := (fsreqs w fr)\<lparr>fr_obj := obj\<rparr>)\<rparr>) in
      case ijInitPromise (fr_result (fsreqs w fr)) w of (v, pr, w) \<Rightarrow>
      (v, w\<lparr>fsreqs := (fsreqs w)(fr := (fsreqs w fr)\<lparr>fr_result := pr\<rparr>)\<rparr>))"

definition close_file_cb :: "jsval \<Rightarrow> 'z fs_rt_scheme \<Rightarrow> (jsval \<times> 'z fs_rt_scheme) res" where
  "close_file_cb obj w = (case ijFileGet obj w of (f, w) \<Rightarrow>
     bindE (CHECK (f \<noteq> 0) w) (\<lambda>w.
     bindE (deref f w) (\<lambda>w.
     let w = w\<lparr>files := (files w)(f := (files w f)\<lparr>fl_fd := -1\<rparr>)\<rparr> in
     bindE (JS_FreeValue (fl_path (files w f)) w) (\<lambda>w.
     Inr (JS_UNDEFINED, w\<lparr>files := (files w)(f := (files w f)\<lparr>fl_path := JS_UNDEFINED\<rparr>)\<rparr>)))))"

definition close_dir_cb :: "jsval \<Rightarrow> 'z fs_rt_scheme \<Rightarrow> (jsval \<times> 'z fs_rt_scheme) res" where
  "close_dir_cb obj w = (case ijDirGet obj w of (d, w) \<Rightarrow>
     bindE (CHECK (d \<noteq> 0) w) (\<lambda>w.
     bindE (deref d w) (\<lambda>w.
     let w = w\<lparr>dirs := (dirs w)(d := (dirs w d)\<lparr>dr_dir := 0\<rparr>)\<rparr> in
     bindE (JS_FreeValue (dr_path (dirs w d)) w) (\<lambda>w.
     Inr (JS_UNDEFINED, w\<lparr>dirs := (dirs w)(d := (dirs w d)\<lparr>dr_path := JS_UNDEFINED\<rparr>)\<rparr>)))))"

definition read_dir_cb :: "fsout \<Rightarrow> jsval \<Rightarrow> 'z fs_rt_scheme \<Rightarrow> (jsval \<times> 'z fs_rt_scheme) res" where
  "read_dir_cb out obj w = (case ijDirGet obj w of (d, w) \<Rightarrow>
     bindE (deref d w) (\<lambda>w.
     let w = w\<lparr>dirs := (dirs w)(d := (dirs w d)\<lparr>dr_done := (fo_result out = 0)\<rparr>)\<rparr>;
         arg = [(''done'', JS_Bool (dr_done (dirs w d)))];
         arg = (if fo_result out \<noteq> 0
           then arg @ [(''value'', JS_Object [(''name'', JS_Str (fst (fo_dirent out))),
                  (''type'', JS_NewInt32 (snd (fo_dirent out)))])]
           else arg)
     in Inr (JS_Object arg, w)))"

definition fs_answer ::
    "fsenv \<Rightarrow> nat \<Rightarrow> fsout \<Rightarrow> 'z fs_rt_scheme \<Rightarrow> (jsval \<times> 'z fs_rt_scheme) res" where
  "fs_answer F fr out w = (case fr_op (fsreqs w fr) of
     FsOpen _ _ _ \<Rightarrow> ijNewFile (fo_result out) (fo_path out) w
   | FsClose _ \<Rightarrow> close_file_cb (fr_obj (fsreqs w fr)) w
   | FsRead _ _ _ \<Rightarrow> ijNewUint8Array (fr_buf (fsreqs w fr)) (fo_data out) w
   | FsWrite _ _ _ \<Rightarrow> Inr (JS_NewInt32 (fo_result out), w)
   | FsStat _ \<Rightarrow> Inr (ijStat2Obj F (fo_stat out), w)
   | FsLstat _ \<Rightarrow> Inr (ijStat2Obj F (fo_stat out), w)
   | FsFstat _ \<Rightarrow> Inr (ijStat2Obj F (fo_stat out), w)
   | FsRealpath _ \<Rightarrow> Inr (JS_Str (fo_ptr out), w)
   | FsCopyfile _ _ _ \<Rightarrow> Inr (JS_UNDEFINED, w)
   | FsRename _ _ \<Rightarrow> Inr (JS_UNDEFINED, w)
   | FsRmdir _ \<Rightarrow> Inr (JS_UNDEFINED, w)
   | FsUnlink _ \<Rightarrow> Inr (JS_UNDEFINED, w)
   | FsMkdtemp _ \<Rightarrow> Inr (JS_Str (fo_path out), w)
   | FsMkstemp _ \<Rightarrow> ijNewFile (fo_result out) (fo_path out) w
   | FsOpendir _ \<Rightarrow> ijNewDir (fo_dir out) (fo_path out) w
   | FsClosedir _ \<Rightarrow> close_dir_cb (fr_obj (fsreqs w fr)) w
   | FsReaddir _ \<Rightarrow> read_dir_cb out (fr_obj (fsreqs w fr)) w)"

definition fs_error ::
    "jsenv \<Rightarrow> nat \<Rightarrow> fsout \<Rightarrow> 'z fs_rt_scheme \<Rightarrow> (jsval \<times> 'z fs_rt_scheme) res" where
  "fs_error E fr out w = (case ijNewError E (fo_result out) w of (arg, w) \<Rightarrow>
     case fr_op (fsreqs w fr) of
       FsRead _ _ _ \<Rightarrow> bindE (js_free (fr_buf (fsreqs w fr)) w) (\<lambda>w. Inr (arg, w))
     | _ \<Rightarrow> Inr (arg, w))"

definition uvFsReqCb ::
    "jsenv \<Rightarrow> fsenv \<Rightarrow> nat \<Rightarrow> fsout \<Rightarrow> 'z fs_rt_scheme \<Rightarrow> 'z fs_rt_scheme res" where
  "uvFsReqCb E F fr out w =
     (if fr = 0 then Inr w
      else bindE (deref fr w) (\<lambda>w.
        let is_reject = fo_result out < 0 in
        bindE (if is_reject then fs_error E fr out w else fs_answer F fr out w) (\<lambda>(arg, w).
        bindE (ijSettlePromise E (fr_result (fsreqs w fr)) is_reject [arg] w) (\<lambda>(pr, w).
        bindE (JS_FreeValue (fr_obj (fsreqs w fr)) w) (\<lambda>w.
        js_free fr w)))))"

section \<open>Submitting requests\<close>

text \<open>What every call does once its request is allocated: submit it, give the request back when
  libuv refuses, keep the object and create the promise otherwise. \<open>clean\<close> releases what the
  call borrowed, between the two, and \<open>obj\<close> is the object kept alive.\<close>

definition fs_request ::
    "jsenv \<Rightarrow> fsenv \<Rightarrow> nat \<Rightarrow> fsop \<Rightarrow> ('z fs_rt_scheme \<Rightarrow> 'z fs_rt_scheme res) \<Rightarrow> jsval
       \<Rightarrow> 'z fs_rt_scheme \<Rightarrow> (jsval \<times> 'z fs_rt_scheme) res" where
  "fs_request E F fr op clean obj w =
     (let r = fs_submit F op;
          w = (if r = 0 then w\<lparr>fs_queue := fs_queue w @ [fr],
                 fsreqs := (fsreqs w)(fr := (fsreqs w fr)\<lparr>fr_op := op, fr_result := uninit_promise E\<rparr>)\<rparr>
               else w)
      in bindE (clean w) (\<lambda>w.
         if r \<noteq> 0 then bindE (js_free fr w) (\<lambda>w. Inr (ijThrowErrno E r w))
         else Inr (ijFsReqInit fr obj w)))"

definition ijFileRead ::
    "jsenv \<Rightarrow> fsenv \<Rightarrow> jsval \<Rightarrow> jsval list \<Rightarrow> 'z fs_rt_scheme \<Rightarrow> (jsval \<times> 'z fs_rt_scheme) res" where
  "ijFileRead E F this argv w = (case ijFileGet this w of (f, w) \<Rightarrow>
     if f = 0 then Inr (JS_EXCEPTION, w)
     else case (if JS_IsUndefined (argn 0 argv) then (Some IJJS_DEFAULt_READ_SIZE, w)
                else JS_ToIndex E (argn 0 argv) w) of
       (None, w) \<Rightarrow> Inr (JS_EXCEPTION, w)
     | (Some len, w) \<Rightarrow>
       (case (if JS_IsUndefined (argn 1 argv) then (Some (-1), w) else JS_ToInt64 E (argn 1 argv) w) of
          (None, w) \<Rightarrow> Inr (JS_EXCEPTION, w)
        | (Some pos, w) \<Rightarrow>
          (case js_malloc w of (rr, w) \<Rightarrow>
             if rr = 0 then Inr (JS_EXCEPTION, w)
             else case js_malloc w of (buf, w) \<Rightarrow>
               if buf = 0 then bindE (js_free rr w) (\<lambda>w. Inr (JS_EXCEPTION, w))
               else bindE (deref f w) (\<lambda>w.
                 let w = w\<lparr>fsreqs := (fsreqs w)(rr := (fsreqs w rr)\<lparr>fr_buf := buf\<rparr>)\<rparr> in
                 fs_request E F rr (FsRead (fl_fd (files w f)) len pos)
                   (\<lambda>w. if fs_submit F (FsRead (fl_fd (files w f)) len pos) \<noteq> 0
                        then js_free buf w else Inr w) this w))))"

definition ijFileWrite ::
    "jsenv \<Rightarrow> fsenv \<Rightarrow> jsval \<Rightarrow> jsval list \<Rightarrow> 'z fs_rt_scheme \<Rightarrow> (jsval \<times> 'z fs_rt_scheme) res" where
  "ijFileWrite E F this argv w = (case ijFileGet this w of (f, w) \<Rightarrow>
     if f = 0 then Inr (JS_EXCEPTION, w)
     else case js_data E (argn 0 argv) w of
       (None, w) \<Rightarrow> Inr (JS_EXCEPTION, w)
     | (Some (is_string, buf, data), w) \<Rightarrow>
       let drop_string = (\<lambda>w. if is_string then JS_FreeCString (buf, 0) w else Inr w) in
       (case (if JS_IsUndefined (argn 1 argv) then (Some (-1), w) else JS_ToInt64 E (argn 1 argv) w) of
          (None, w) \<Rightarrow> bindE (drop_string w) (\<lambda>w. Inr (JS_EXCEPTION, w))
        | (Some pos, w) \<Rightarrow>
          (case js_malloc w of (wr, w) \<Rightarrow>
             if wr = 0 then bindE (drop_string w) (\<lambda>w. Inr (JS_EXCEPTION, w))
             else bindE (drop_string w) (\<lambda>w.
                  bindE (deref f w) (\<lambda>w.
                  fs_request E F wr (FsWrite (fl_fd (files w f)) data pos) Inr this w)))))"

definition file_request ::
    "jsenv \<Rightarrow> fsenv \<Rightarrow> (int \<Rightarrow> fsop) \<Rightarrow> jsval \<Rightarrow> 'z fs_rt_scheme \<Rightarrow> (jsval \<times> 'z fs_rt_scheme) res" where
  "file_request E F op this w = (case ijFileGet this w of (f, w) \<Rightarrow>
     if f = 0 then Inr (JS_EXCEPTION, w)
     else case js_malloc w of (fr, w) \<Rightarrow>
       if fr = 0 then Inr (JS_EXCEPTION, w)
       else bindE (deref f w) (\<lambda>w. fs_request E F fr (op (fl_fd (files w f))) Inr this w))"

definition ijFileClose ::
    "jsenv \<Rightarrow> fsenv \<Rightarrow> jsval \<Rightarrow> 'z fs_rt_scheme \<Rightarrow> (jsval \<times> 'z fs_rt_scheme) res" where
  "ijFileClose E F this w = file_request E F FsClose this w"

definition ijFileStat ::
    "jsenv \<Rightarrow> fsenv \<Rightarrow> jsval \<Rightarrow> 'z fs_rt_scheme \<Rightarrow> (jsval \<times> 'z fs_rt_scheme) res" where
  "ijFileStat E F this w = file_request E F FsFstat this w"

definition ijFileFileno :: "jsval \<Rightarrow> 'z fs_rt_scheme \<Rightarrow> (jsval \<times> 'z fs_rt_scheme) res" where
  "ijFileFileno this w = (case ijFileGet this w of (f, w) \<Rightarrow>
     if f = 0 then Inr (JS_EXCEPTION, w)
     else bindE (deref f w) (\<lambda>w. Inr (JS_NewInt32 (fl_fd (files w f)), w)))"

definition ijFilePathGet :: "jsval \<Rightarrow> 'z fs_rt_scheme \<Rightarrow> (jsval \<times> 'z fs_rt_scheme) res" where
  "ijFilePathGet this w = (case ijFileGet this w of (f, w) \<Rightarrow>
     if f = 0 then Inr (JS_EXCEPTION, w)
     else bindE (deref f w) (\<lambda>w.
       let path = fl_path (files w f) in Inr (path, JS_DupValue path w)))"

definition ijDirClose ::
    "jsenv \<Rightarrow> fsenv \<Rightarrow> jsval \<Rightarrow> 'z fs_rt_scheme \<Rightarrow> (jsval \<times> 'z fs_rt_scheme) res" where
  "ijDirClose E F this w = (case ijDirGet this w of (d, w) \<Rightarrow>
     if d = 0 then Inr (JS_EXCEPTION, w)
     else case js_malloc w of (fr, w) \<Rightarrow>
       if fr = 0 then Inr (JS_EXCEPTION, w)
       else bindE (deref d w) (\<lambda>w. fs_request E F fr (FsClosedir (dr_dir (dirs w d))) Inr this w))"

definition ijDirPathGet :: "jsval \<Rightarrow> 'z fs_rt_scheme \<Rightarrow> (jsval \<times> 'z fs_rt_scheme) res" where
  "ijDirPathGet this w = (case ijDirGet this w of (d, w) \<Rightarrow>
     if d = 0 then Inr (JS_EXCEPTION, w)
     else bindE (deref d w) (\<lambda>w.
       let path = dr_path (dirs w d) in Inr (path, JS_DupValue path w)))"

definition ijDirNext ::
    "jsenv \<Rightarrow> fsenv \<Rightarrow> jsval \<Rightarrow> 'z fs_rt_scheme \<Rightarrow> (jsval \<times> 'z fs_rt_scheme) res" where
  "ijDirNext E F this w = (case ijDirGet this w of (d, w) \<Rightarrow>
     if d = 0 then Inr (JS_EXCEPTION, w)
     else bindE (deref d w) (\<lambda>w.
       if dr_done (dirs w d) then Inr (JS_UNDEFINED, w)
       else case js_malloc w of (fr, w) \<Rightarrow>
         if fr = 0 then Inr (JS_EXCEPTION, w)
         else if dr_dir (dirs w d) = 0 then Inl NullDeref
         else if \<not> uvdirs w (dr_dir (dirs w d)) then Inl UseAfterFree
         else fs_request E F fr (FsReaddir (dr_dir (dirs w d))) Inr this w))"

definition ijDirIterator :: "jsval \<Rightarrow> 'z fs_rt_scheme \<Rightarrow> jsval \<times> 'z fs_rt_scheme" where
  "ijDirIterator this w = (this, JS_DupValue this w)"

section \<open>Calls on paths\<close>

text \<open>The fcntl constants of the platform.\<close>

definition O_RDONLY :: int where "O_RDONLY = 0"
definition O_WRONLY :: int where "O_WRONLY = 1"
definition O_RDWR :: int where "O_RDWR = 2"
definition O_CREAT :: int where "O_CREAT = 64"
definition O_EXCL :: int where "O_EXCL = 128"
definition O_TRUNC :: int where "O_TRUNC = 512"
definition O_APPEND :: int where "O_APPEND = 1024"

fun open_flag :: "char \<Rightarrow> int \<times> bool \<times> bool \<Rightarrow> int \<times> bool \<times> bool" where
  "open_flag c (flags, read, write) =
     (if c = CHR ''r'' then (flags, True, write)
      else if c = CHR ''w'' then (flags OR (O_TRUNC OR O_CREAT), read, True)
      else if c = CHR ''a'' then (flags OR (O_APPEND OR O_CREAT), read, True)
      else if c = CHR ''+'' then (flags, True, True)
      else if c = CHR ''x'' then (flags OR O_EXCL, read, write)
      else (flags, read, write))"

definition ijUvOpenFlags :: "string \<Rightarrow> int" where
  "ijUvOpenFlags strflags = (case fold open_flag strflags (0, False, False) of (flags, read, write) \<Rightarrow>
     flags OR (if read then (if write then O_RDWR else O_RDONLY) else (if write then O_WRONLY else 0)))"

definition ijFsOpen ::
    "jsenv \<Rightarrow> fsenv \<Rightarrow> jsval list \<Rightarrow> 'z fs_rt_scheme \<Rightarrow> (jsval \<times> 'z fs_rt_scheme) res" where
  "ijFsOpen E F argv w = (case JS_ToCString E (argn 0 argv) w of (p, path, w) \<Rightarrow>
     if p = 0 then Inr (JS_EXCEPTION, w)
     else case JS_ToCString E (argn 1 argv) w of (q, strflags, w) \<Rightarrow>
       if q = 0 then bindE (JS_FreeCString (p, 0) w) (\<lambda>w. Inr (JS_EXCEPTION, w))
       else
         let flags = ijUvOpenFlags strflags in
         bindE (JS_FreeCString (q, 0) w) (\<lambda>w.
         case (if JS_IsUndefined (argn 2 argv) then (Some 0, w) else JS_ToInt32 E (argn 2 argv) w) of
           (None, w) \<Rightarrow> bindE (JS_FreeCString (p, 0) w) (\<lambda>w. Inr (JS_EXCEPTION, w))
         | (Some mode, w) \<Rightarrow>
           (case js_malloc w of (fr, w) \<Rightarrow>
              if fr = 0 then bindE (JS_FreeCString (p, 0) w) (\<lambda>w. Inr (JS_EXCEPTION, w))
              else fs_request E F fr (FsOpen path flags mode) (JS_FreeCString (p, 0)) JS_UNDEFINED w)))"

text \<open>The calls with one path differ in the libuv function only, as do those with two.\<close>

definition path_request ::
    "jsenv \<Rightarrow> fsenv \<Rightarrow> (string \<Rightarrow> fsop) \<Rightarrow> jsval list \<Rightarrow> 'z fs_rt_scheme
       \<Rightarrow> (jsval \<times> 'z fs_rt_scheme) res" where
  "path_request E F op argv w = (case JS_ToCString E (argn 0 argv) w of (p, path, w) \<Rightarrow>
     if p = 0 then Inr (JS_EXCEPTION, w)
     else case js_malloc w of (fr, w) \<Rightarrow>
       if fr = 0 then bindE (JS_FreeCString (p, 0) w) (\<lambda>w. Inr (JS_EXCEPTION, w))
       else fs_request E F fr (op path) (JS_FreeCString (p, 0)) JS_UNDEFINED w)"

definition free_paths :: "nat \<Rightarrow> nat \<Rightarrow> 'z rt_scheme \<Rightarrow> 'z rt_scheme res" where
  "free_paths p q w = bindE (JS_FreeCString (p, 0) w) (JS_FreeCString (q, 0))"

definition ijFsStat ::
    "jsenv \<Rightarrow> fsenv \<Rightarrow> bool \<Rightarrow> jsval list \<Rightarrow> 'z fs_rt_scheme \<Rightarrow> (jsval \<times> 'z fs_rt_scheme) res" where
  "ijFsStat E F magic argv w = path_request E F (if magic then FsLstat else FsStat) argv w"

definition ijFsRealPath ::
    "jsenv \<Rightarrow> fsenv \<Rightarrow> jsval list \<Rightarrow> 'z fs_rt_scheme \<Rightarrow> (jsval \<times> 'z fs_rt_scheme) res" where
  "ijFsRealPath E F argv w = path_request E F FsRealpath argv w"

definition ijFsUnlink ::
    "jsenv \<Rightarrow> fsenv \<Rightarrow> jsval list \<Rightarrow> 'z fs_rt_scheme \<Rightarrow> (jsval \<times> 'z fs_rt_scheme) res" where
  "ijFsUnlink E F argv w = path_request E F FsUnlink argv w"

definition ijFsRename ::
    "jsenv \<Rightarrow> fsenv \<Rightarrow> jsval list \<Rightarrow> 'z fs_rt_scheme \<Rightarrow> (jsval \<times> 'z fs_rt_scheme) res" where
  "ijFsRename E F argv w = (case JS_ToCString E (argn 0 argv) w of (p, path, w) \<Rightarrow>
     if p = 0 then Inr (JS_EXCEPTION, w)
     else case JS_ToCString E (argn 1 argv) w of (q, new_path, w) \<Rightarrow>
       if q = 0 then bindE (JS_FreeCString (p, 0) w) (\<lambda>w. Inr (JS_EXCEPTION, w))
       else case js_malloc w of (fr, w) \<Rightarrow>
         if fr = 0 then bindE (free_paths p q w) (\<lambda>w. Inr (JS_EXCEPTION, w))
         else fs_request E F fr (FsRename path new_path) (free_paths p q) JS_UNDEFINED w)"

definition ijFsMkdTemp ::
    "jsenv \<Rightarrow> fsenv \<Rightarrow> jsval list \<Rightarrow> 'z fs_rt_scheme \<Rightarrow> (jsval \<times> 'z fs_rt_scheme) res" where
  "ijFsMkdTemp E F argv w = path_request E F FsMkdtemp argv w"

definition ijFsMksTemp ::
    "jsenv \<Rightarrow> fsenv \<Rightarrow> jsval list \<Rightarrow> 'z fs_rt_scheme \<Rightarrow> (jsval \<times> 'z fs_rt_scheme) res" where
  "ijFsMksTemp E F argv w = path_request E F FsMkstemp argv w"

definition ijFsRmdir ::
    "jsenv \<Rightarrow> fsenv \<Rightarrow> jsval list \<Rightarrow> 'z fs_rt_scheme \<Rightarrow> (jsval \<times> 'z fs_rt_scheme) res" where
  "ijFsRmdir E F argv w = path_request E F FsRmdir argv w"

definition ijFsCopyFile ::
    "jsenv \<Rightarrow> fsenv \<Rightarrow> jsval list \<Rightarrow> 'z fs_rt_scheme \<Rightarrow> (jsval \<times> 'z fs_rt_scheme) res" where
  "ijFsCopyFile E F argv w = (case JS_ToCString E (argn 0 argv) w of (p, path, w) \<Rightarrow>
     if p = 0 then Inr (JS_EXCEPTION, w)
     else case JS_ToCString E (argn 1 argv) w of (q, new_path, w) \<Rightarrow>
       if q = 0 then bindE (JS_FreeCString (p, 0) w) (\<lambda>w. Inr (JS_EXCEPTION, w))
       else case JS_ToInt32 E (argn 2 argv) w of
         (None, w) \<Rightarrow> bindE (free_paths p q w) (\<lambda>w. Inr (JS_EXCEPTION, w))
       | (Some flags, w) \<Rightarrow>
         (case js_malloc w of (fr, w) \<Rightarrow>
            if fr = 0 then bindE (free_paths p q w) (\<lambda>w. Inr (JS_EXCEPTION, w))
            else fs_request E F fr (FsCopyfile path new_path flags) (free_paths p q) JS_UNDEFINED w))"

definition ijFsReadDir ::
    "jsenv \<Rightarrow> fsenv \<Rightarrow> jsval list \<Rightarrow> 'z fs_rt_scheme \<Rightarrow> (jsval \<times> 'z fs_rt_scheme) res" where
  "ijFsReadDir E F argv w = path_request E F FsOpendir argv w"

section \<open>Reading a whole file\<close>

definition ijReadFileFree :: "nat \<Rightarrow> 'z fs_rt_scheme \<Rightarrow> 'z fs_rt_scheme res" where
  "ijReadFileFree fr w =
     bindE (CHECK (fr \<noteq> 0) w) (\<lambda>w.
     bindE (deref fr w) (\<lambda>w.
     bindE (js_free (rf_filename (readreqs w fr)) w) (\<lambda>w. js_free fr w)))"

text \<open>The work runs on a thread of the pool; libuv aborts on a NULL path.\<close>

definition ijReadFileWorkCb :: "vmenv \<Rightarrow> nat \<Rightarrow> 'z fs_rt_scheme \<Rightarrow> 'z fs_rt_scheme res option" where
  "ijReadFileWorkCb V fr w =
     (if fr = 0 then Some (Inl CheckFailed)
      else if rf_filename (readreqs w fr) = 0 then Some (Inl AbortCalled)
      else case ijLoadFile V (rf_dbuf (readreqs w fr)) (rf_name (readreqs w fr)) w of
          None \<Rightarrow> None
        | Some (r, dbuf, w) \<Rightarrow> Some (Inr (w\<lparr>readreqs := (readreqs w)(fr :=
            (readreqs w fr)\<lparr>rf_r := r, rf_dbuf := dbuf\<rparr>)\<rparr>)))"

definition ijReadFileAfterWorkCb ::
    "jsenv \<Rightarrow> nat \<Rightarrow> int \<Rightarrow> 'z fs_rt_scheme \<Rightarrow> 'z fs_rt_scheme res" where
  "ijReadFileAfterWorkCb E fr status w =
     bindE (CHECK (fr \<noteq> 0) w) (\<lambda>w.
     bindE (deref fr w) (\<lambda>w.
     let r = rf_r (readreqs w fr) in
     case (if status \<noteq> 0 then (case ijNewError E status w of (arg, w) \<Rightarrow> (arg, True, w))
           else if r < 0 then (case ijNewError E r w of (arg, w) \<Rightarrow> (arg, True, w))
           else (case JS_NewArrayBuffer 0 (rf_dbuf (readreqs w fr)) w of (arg, w) \<Rightarrow> (arg, False, w)))
       of (arg, is_reject, w) \<Rightarrow>
     bindE (ijSettlePromise E (rf_result (readreqs w fr)) is_reject [arg] w) (\<lambda>(pr, w).
     let w = w\<lparr>readreqs := (readreqs w)(fr := (readreqs w fr)\<lparr>rf_result := pr\<rparr>)\<rparr> in
     if is_reject then ijReadFileFree fr w else Inr w)))"

definition ijFsReadFile ::
    "jsenv \<Rightarrow> fsenv \<Rightarrow> jsval list \<Rightarrow> 'z fs_rt_scheme \<Rightarrow> (jsval \<times> 'z fs_rt_scheme) res" where
  "ijFsReadFile E F argv w = (case JS_ToCString E (argn 0 argv) w of (p, path, w) \<Rightarrow>
     if p = 0 then Inr (JS_EXCEPTION, w)
     else case js_malloc w of (fr, w) \<Rightarrow>
       if fr = 0 then bindE (JS_FreeCString (p, 0) w) (\<lambda>w. Inr (JS_EXCEPTION, w))
       else case js_malloc w of (filename, w) \<Rightarrow>
         let w = w\<lparr>readreqs := (readreqs w)(fr := \<lparr>rf_dbuf = [], rf_r = -1,
                 rf_filename = filename, rf_name = path, rf_result = uninit_promise E\<rparr>)\<rparr> in
         bindE (JS_FreeCString (p, 0) w) (\<lambda>w.
         let r = fs_work_submit F in
         if r \<noteq> 0
         then bindE (js_free filename w) (\<lambda>w. bindE (js_free fr w) (\<lambda>w. Inr (ijThrowErrno E r w)))
         else let w = w\<lparr>work_queue := work_queue w @ [fr]\<rparr> in
           case ijInitPromise (rf_result (readreqs w fr)) w of (v, pr, w) \<Rightarrow>
           Inr (v, w\<lparr>readreqs := (readreqs w)(fr := (readreqs w fr)\<lparr>rf_result := pr\<rparr>)\<rparr>)))"

section \<open>Open flags\<close>

text \<open>The reference: which flags a mode string asks for, letter by letter.\<close>

definition mode_flags :: "char set \<Rightarrow> int" where
  "mode_flags cs =
     (if CHR ''w'' \<in> cs then O_TRUNC OR O_CREAT else 0) OR
     (if CHR ''a'' \<in> cs then O_APPEND OR O_CREAT else 0) OR
     (if CHR ''x'' \<in> cs then O_EXCL else 0) OR
     (let rd = CHR ''r'' \<in> cs \<or> CHR ''+'' \<in> cs;
          wr = CHR ''w'' \<in> cs \<or> CHR ''a'' \<in> cs \<or> CHR ''+'' \<in> cs
      in if rd \<and> wr then O_RDWR else if wr then O_WRONLY else O_RDONLY)"

lemma fold_open_flag:
  "fold open_flag cs (fl, rd, wr) =
     (fl OR (if CHR ''w'' \<in> set cs then O_TRUNC OR O_CREAT else 0) OR
        (if CHR ''a'' \<in> set cs then O_APPEND OR O_CREAT else 0) OR
        (if CHR ''x'' \<in> set cs then O_EXCL else 0),
      rd \<or> CHR ''r'' \<in> set cs \<or> CHR ''+'' \<in> set cs,
      wr \<or> CHR ''w'' \<in> set cs \<or> CHR ''a'' \<in> set cs \<or> CHR ''+'' \<in> set cs)"
proof (induction cs arbitrary: fl rd wr)
  case (Cons c cs)
  then show ?case by (simp add: ac_simps)
qed simp

text \<open>C31. The open flags depend only on which letters the mode string has, in any order and however
  often: \<open>w\<close> truncates, \<open>a\<close> appends, both create, \<open>x\<close> is exclusive, \<open>+\<close> opens for reading and
  writing. The four ways of naming a mode that the documentation gives follow.\<close>

theorem open_flags_by_letters:
  "ijUvOpenFlags cs = mode_flags (set cs) \<and>
   ijUvOpenFlags ''r'' = O_RDONLY \<and> ijUvOpenFlags ''r+'' = O_RDWR \<and>
   ijUvOpenFlags ''w'' = (O_TRUNC OR O_CREAT OR O_WRONLY) \<and>
   ijUvOpenFlags ''a+'' = (O_APPEND OR O_CREAT OR O_RDWR)"
proof (intro conjI)
  show "ijUvOpenFlags cs = mode_flags (set cs)"
    by (simp add: ijUvOpenFlags_def fold_open_flag mode_flags_def Let_def O_RDONLY_def ac_simps)
qed (simp_all add: ijUvOpenFlags_def O_RDONLY_def O_RDWR_def O_WRONLY_def O_TRUNC_def O_CREAT_def
    O_APPEND_def)

section \<open>A call and its answer\<close>

text \<open>The value a successful answer fulfils the promise with, for the calls whose value is not a
  new object.\<close>

fun fs_value :: "fsenv \<Rightarrow> fsop \<Rightarrow> fsout \<Rightarrow> jsval" where
  "fs_value F (FsStat _) out = ijStat2Obj F (fo_stat out)"
| "fs_value F (FsLstat _) out = ijStat2Obj F (fo_stat out)"
| "fs_value F (FsRealpath _) out = JS_Str (fo_ptr out)"
| "fs_value F (FsMkdtemp _) out = JS_Str (fo_path out)"
| "fs_value F _ out = JS_UNDEFINED"

definition path_calls ::
    "jsenv \<Rightarrow> fsenv \<Rightarrow> ((jsval list \<Rightarrow> 'z fs_rt_scheme \<Rightarrow> (jsval \<times> 'z fs_rt_scheme) res) \<times> (string \<Rightarrow> fsop)) list" where
  "path_calls E F = [(ijFsStat E F False, FsStat), (ijFsStat E F True, FsLstat),
     (ijFsRealPath E F, FsRealpath), (ijFsUnlink E F, FsUnlink), (ijFsMkdTemp E F, FsMkdtemp),
     (ijFsRmdir E F, FsRmdir)]"

lemma path_calls_request:
  assumes "(call, op) \<in> set (path_calls E F)"
  shows "call = path_request E F op"
    "fs_answer F fr out w = Inr (fs_value F (op x) out, w) \<or> fr_op (fsreqs w fr) \<noteq> op x"
    "fs_value F (op x) out \<noteq> JS_JUNK" "\<forall>n. fs_value F (op x) out \<noteq> JS_Ref n"
    "\<forall>a b c. op x \<noteq> FsRead a b c"
  using assms by (auto simp: path_calls_def ijFsStat_def ijFsRealPath_def ijFsUnlink_def
      ijFsMkdTemp_def ijFsRmdir_def fs_answer_def ijStat2Obj_def intro!: ext)

text \<open>A request libuv has: its block, a pending promise nobody else settles, and nothing to give
  back but the promise.\<close>

definition fs_pending :: "nat \<Rightarrow> nat \<Rightarrow> fsop \<Rightarrow> 'z fs_rt_scheme \<Rightarrow> bool" where
  "fs_pending fr p op w \<longleftrightarrow> fr \<noteq> 0 \<and> fr \<le> tick w \<and> blk w fr = JsBlock \<and> hnd w fr = (\<lambda>_. HNone) \<and>
     fr_op (fsreqs w fr) = op \<and> fr_obj (fsreqs w fr) = JS_UNDEFINED \<and>
     promise_live p (p + 1) (p + 2) (fr_result (fsreqs w fr)) w"

lemma path_request_pending:
  assumes "fresh_blk w" "\<not> oom w (Suc (tick w))" "\<not> oom w (Suc (Suc (tick w)))"
    and "to_cstr E (argn 0 argv) = Some path" "fs_submit F (op path) = 0"
  shows "\<exists>w'. path_request E F op argv w = Inr (JS_Ref (tick w + 2), w') \<and>
    fs_queue w' = fs_queue w @ [tick w + 2] \<and> fs_pending (tick w + 2) (tick w + 2) (op path) w' \<and>
    blk w' = (blk w)(tick w + 2 := JsBlock) \<and> oom w' = oom w \<and> fresh_blk w' \<and>
    refs w' = (refs w)(tick w + 2 := 2, tick w + 3 := 2, tick w + 4 := 2)"
proof -
  have "(blk w)(Suc (tick w) := NoBlock) = blk w" using assms(1) by (auto simp: fresh_blk_def)
  then have b: "(blk w)(Suc (tick w) := NoBlock, Suc (Suc (tick w)) := JsBlock) =
      (blk w)(Suc (Suc (tick w)) := JsBlock)" by simp
  show ?thesis
    using assms(2-) b
    by (simp add: path_request_def JS_ToCString_def js_malloc_def fs_request_def JS_FreeCString_def
        free_block_def handles_quiet_def ijFsReqInit_def ijInitPromise_live Let_def fs_pending_def
        promise_live_def fun_upd_twist numeral_nat) (use assms(1) in \<open>auto simp: fresh_blk_def\<close>)
qed

text \<open>What an answer fulfils or rejects the promise with.\<close>

definition fs_outcome :: "jsenv \<Rightarrow> fsenv \<Rightarrow> fsop \<Rightarrow> fsout \<Rightarrow> promise_state \<Rightarrow> bool" where
  "fs_outcome E F op out st \<longleftrightarrow>
     (if fo_result out < 0 then (\<exists>e. st = Rejected e \<and> e \<in> {JS_EXCEPTION, JS_ErrorObj ''Error''
          [(''message'', JS_Str (uv_strerror E (fo_result out))), (''errno'', JS_NewInt32 (fo_result out))]})
      else st = Fulfilled (fs_value F op out))"

lemma fsreqs_more: "rt.more w' = rt.more w \<Longrightarrow> fsreqs w' = fsreqs w \<and> fs_queue w' = fs_queue w"
  by (cases w; cases w') simp

lemma fs_arg:
  assumes "(call, op) \<in> set (path_calls E F)" "fs_pending fr p (op x) w"
  shows "\<exists>v w'. (if fo_result out < 0 then fs_error E fr out w else fs_answer F fr out w) = Inr (v, w') \<and>
    alloc_frame w w' \<and> v \<noteq> JS_JUNK \<and> (\<forall>n. v \<noteq> JS_Ref n) \<and> blk w' = blk w \<and>
    fs_outcome E F (op x) out (settled_state (fo_result out < 0) v)"
proof (cases "fo_result out < 0")
  case True
  obtain v w' where e: "ijNewError E (fo_result out) w = (v, w')" by fastforce
  note f = af_newError [OF e]
  have "blk w' = blk w" "v \<in> {JS_EXCEPTION, JS_ErrorObj ''Error''
      [(''message'', JS_Str (uv_strerror E (fo_result out))), (''errno'', JS_NewInt32 (fo_result out))]}"
    using e by (auto simp: ijNewError_def JS_NewError_def throw_defs Let_def split: if_splits)
  moreover have "fsreqs w' = fsreqs w" using f fsreqs_more [of w' w] by (simp add: alloc_frame_def)
  then have "fs_error E fr out w = Inr (v, w')"
    using e path_calls_request(5) [OF assms(1)] assms(2)
    by (auto simp: fs_error_def fs_pending_def split: fsop.splits)
  ultimately show ?thesis using True f by (auto simp: fs_outcome_def settled_state_def)
next
  case False
  then show ?thesis
    using path_calls_request(2) [OF assms(1), of fr out w x] path_calls_request(3) [OF assms(1), of x out]
      path_calls_request(4) [OF assms(1), of x out] assms(2)
    by (auto simp: fs_pending_def fs_outcome_def settled_state_def)
qed

lemma fs_completes:
  assumes "(call, op) \<in> set (path_calls E F)" "fs_pending fr p (op x) w"
  shows "\<exists>w'. uvFsReqCb E F fr out w = Inr w' \<and> blk w' = (blk w)(fr := NoBlock) \<and>
    refs w' = (refs w)(p := refs w p - 1, p + 1 := refs w (p + 1) - 2, p + 2 := refs w (p + 2) - 2) \<and>
    fs_outcome E F (op x) out (proms w' p)"
proof -
  have p: "fr \<noteq> 0" "fr \<le> tick w" "blk w fr = JsBlock" "hnd w fr = (\<lambda>_. HNone)"
    "fr_obj (fsreqs w fr) = JS_UNDEFINED" "promise_live p (p + 1) (p + 2) (fr_result (fsreqs w fr)) w"
    using assms(2) by (auto simp: fs_pending_def)
  obtain v w1 where a: "(if fo_result out < 0 then fs_error E fr out w else fs_answer F fr out w) = Inr (v, w1)"
    "alloc_frame w w1" "v \<noteq> JS_JUNK" "\<forall>n. v \<noteq> JS_Ref n" "blk w1 = blk w"
    "fs_outcome E F (op x) out (settled_state (fo_result out < 0) v)"
    using fs_arg [OF assms] by blast
  have m: "fsreqs w1 = fsreqs w" "refs w1 = refs w" "hnd w1 fr = hnd w fr"
    using a(2) p(2) fsreqs_more [of w1 w] by (auto simp: alloc_frame_def)
  have l: "promise_live p (p + 1) (p + 2) (fr_result (fsreqs w fr)) w1"
    using p(6) a(2) by (auto simp: promise_live_def alloc_frame_def)
  have o: "owned v 1 w1" using a(3,4) by (cases v) (auto simp: owned_def)
  have "v \<notin> {JS_Ref p, JS_Ref (p + 1), JS_Ref (p + 2)}" using a(4) by blast
  from ijSettlePromise_live [OF l o this, of E "fo_result out < 0"]
  have s: "ijSettlePromise E (fr_result (fsreqs w fr)) (fo_result out < 0) [v] w1 =
    Inr ((fr_result (fsreqs w fr))\<lparr>pr_valid := False\<rparr>,
      w1\<lparr>refs := settled_refs p (p + 1) (p + 2) v (refs w1),
        proms := (proms w1)(p := settled_state (fo_result out < 0) v)\<rparr>)" .
  have "settled_refs p (p + 1) (p + 2) v (refs w) =
      (refs w)(p := refs w p - 1, p + 1 := refs w (p + 1) - 2, p + 2 := refs w (p + 2) - 2)"
    using a(4) by (auto simp: settled_refs_def)
  then show ?thesis
    using p a(1,5,6) m s
    by (simp add: uvFsReqCb_def deref_def js_free_def free_block_def handles_quiet_def)
qed


definition plain_fs :: fsenv where
  "plain_fs = \<lparr>fs_submit = (\<lambda>_. 0), fs_work_submit = 0, timespec_double = (\<lambda>_. 0)\<rparr>"

definition fs_world :: fs_rt where
  "fs_world = vm_rt.extend vm_world (fs_rt.fields
     (\<lambda>_. \<lparr>fl_fd = -1, fl_path = JS_UNDEFINED\<rparr>)
     (\<lambda>_. \<lparr>dr_dir = 0, dr_path = JS_UNDEFINED, dr_done = False\<rparr>)
     (\<lambda>_. \<lparr>fr_op = FsClose 0, fr_obj = JS_UNDEFINED, fr_result = clear_promise, fr_buf = 0\<rparr>)
     [] (\<lambda>_. False)
     (\<lambda>_. \<lparr>rf_dbuf = [], rf_r = 0, rf_filename = 0, rf_name = [], rf_result = clear_promise\<rparr>) [])"

lemmas fs_world_defs = fs_world_def vm_rt.defs fs_rt.defs vm_world_def rt.defs rt0_def


section \<open>Closing\<close>

lemma file_request_queues:
  assumes "this = JS_Ref ob" "ob \<le> tick w" "JS_GetOpaque this ijjs_file_class_id w = f" "f \<noteq> 0"
    and "blk w f \<noteq> NoBlock" "f \<le> tick w" "\<not> oom w (tick w)" "\<not> oom w (Suc (tick w))"
    and "fs_submit F (op (fl_fd (files w f))) = 0"
  shows "\<exists>w'. file_request E F op this w = Inr (JS_Ref (Suc (tick w)), w') \<and>
    fs_queue w' = fs_queue w @ [Suc (tick w)] \<and>
    fr_op (fsreqs w' (Suc (tick w))) = op (fl_fd (files w f)) \<and>
    (\<forall>q. q \<noteq> Suc (tick w) \<longrightarrow> fsreqs w' q = fsreqs w q) \<and> files w' = files w \<and>
    tick w' = tick w + 4 \<and> oom w' = oom w \<and> blk w' f \<noteq> NoBlock \<and>
    JS_GetOpaque this ijjs_file_class_id w' = f"
  using assms
  by (cases "fst (opaque w ob) = ijjs_file_class_id") (simp_all add: file_request_def ijFileGet_def JS_GetOpaque2_def js_malloc_def deref_def fs_request_def
      ijFsReqInit_def ijInitPromise_live Let_def)

text \<open>Closing a file twice without waiting closes its descriptor twice: the second call does not
  see the first, because the structure keeps the descriptor until the first is answered, so both
  requests carry it; libuv may have handed the same number to another file in between.\<close>

theorem double_close_closes_twice:
  assumes "this = JS_Ref ob" "ob \<le> tick w" "JS_GetOpaque this ijjs_file_class_id w = f" "f \<noteq> 0"
    and "blk w f \<noteq> NoBlock" "f \<le> tick w" "\<forall>n. \<not> oom w n" "fl_fd (files w f) = fd"
    and "fs_submit F (FsClose fd) = 0"
  shows "\<exists>v1 w1 v2 w2 r1 r2. ijFileClose E F this w = Inr (v1, w1) \<and>
    ijFileClose E F this w1 = Inr (v2, w2) \<and> fs_queue w2 = fs_queue w @ [r1, r2] \<and> r1 \<noteq> r2 \<and>
    fr_op (fsreqs w2 r1) = FsClose fd \<and> fr_op (fsreqs w2 r2) = FsClose fd"
proof -
  let ?r1 = "Suc (tick w)"
  obtain w1 where w1: "ijFileClose E F this w = Inr (JS_Ref ?r1, w1)" "fs_queue w1 = fs_queue w @ [?r1]"
    "fr_op (fsreqs w1 ?r1) = FsClose fd" "files w1 = files w" "tick w1 = tick w + 4" "oom w1 = oom w"
    "blk w1 f \<noteq> NoBlock" "JS_GetOpaque this ijjs_file_class_id w1 = f"
    using file_request_queues [OF assms(1-6), of F FsClose E] assms(7-9) by (auto simp: ijFileClose_def)
  let ?r2 = "Suc (tick w1)"
  have "ob \<le> tick w1" "f \<le> tick w1" "\<not> oom w1 (tick w1)" "\<not> oom w1 (Suc (tick w1))"
    "fs_submit F (FsClose (fl_fd (files w1 f))) = 0"
    using assms w1 by auto
  from file_request_queues [of this ob w1 f F FsClose, OF assms(1) this(1) w1(8) assms(4) w1(7) this(2-5), of E]
  obtain w2
    where w2: "ijFileClose E F this w1 = Inr (JS_Ref ?r2, w2)" "fs_queue w2 = fs_queue w1 @ [?r2]"
    "fr_op (fsreqs w2 ?r2) = FsClose fd" "\<forall>q. q \<noteq> ?r2 \<longrightarrow> fsreqs w2 q = fsreqs w1 q"
    using w1(4) assms(8) by (auto simp: ijFileClose_def)
  have "?r1 \<noteq> ?r2" using w1(5) by simp
  moreover have "fr_op (fsreqs w2 ?r1) = FsClose fd" using w2(4) w1(3) calculation by simp
  ultimately show ?thesis
    using w1(1,2) w2(1-3)
    by (intro exI [of _ "JS_Ref ?r1"] exI [of _ w1] exI [of _ "JS_Ref ?r2"] exI [of _ w2]
        exI [of _ ?r1] exI [of _ ?r2]) simp
qed

definition demo_file :: fs_rt where
  "demo_file = fs_world\<lparr>tick := 9, opaque := (\<lambda>_. (0, 0))(3 := (ijjs_file_class_id, 4)),
     blk := (\<lambda>_. NoBlock)(4 := JsBlock),
     files := (\<lambda>_. \<lparr>fl_fd = 7, fl_path = JS_Str ''a.txt''\<rparr>)\<rparr>"

theorem double_close_closes_twice_witness:
  "\<exists>v1 w1 v2 w2 r1 r2. ijFileClose plain_env plain_fs (JS_Ref 3) demo_file = Inr (v1, w1) \<and>
    ijFileClose plain_env plain_fs (JS_Ref 3) w1 = Inr (v2, w2) \<and> fs_queue w2 = [r1, r2] \<and> r1 \<noteq> r2 \<and>
    fr_op (fsreqs w2 r1) = FsClose 7 \<and> fr_op (fsreqs w2 r2) = FsClose 7"
proof -
  have q: "fs_queue demo_file = []" by (simp add: demo_file_def fs_world_defs)
  show ?thesis
    using double_close_closes_twice [OF refl, of 3 demo_file 4 7 plain_fs plain_env] unfolding q
    by (simp add: demo_file_def fs_world_defs plain_fs_def)
qed

text \<open>Asking a directory for its next entry after it was closed, and before its end was seen, writes
  through the NULL pointer that closing left in the structure.\<close>

theorem next_after_close_crashes:
  assumes "close_dir_cb (JS_Ref ob) w = Inr (v, w1)" "\<not> oom w1 (tick w1)"
    and "\<not> dr_done (dirs w1 (JS_GetOpaque (JS_Ref ob) ijjs_dir_class_id w1))"
  shows "ijDirNext E F (JS_Ref ob) w1 = Inl NullDeref"
proof -
  let ?d = "JS_GetOpaque (JS_Ref ob) ijjs_dir_class_id w"
  have d: "?d \<noteq> 0" "blk w ?d \<noteq> NoBlock"
    using assms(1) by (auto simp: close_dir_cb_def ijDirGet_def JS_GetOpaque2_def deref_def Let_def
        split: if_splits)
  have "opaque w1 = opaque w \<and> blk w1 = blk w \<and> dr_dir (dirs w1 ?d) = 0"
    using assms(1) d
    by (cases "dr_path (dirs w ?d)") (auto simp: close_dir_cb_def ijDirGet_def JS_GetOpaque2_def deref_def
        Let_def split: if_splits)
  then have "JS_GetOpaque (JS_Ref ob) ijjs_dir_class_id w1 = ?d" "blk w1 ?d \<noteq> NoBlock" "dr_dir (dirs w1 ?d) = 0"
    using d(2) by simp_all
  then show ?thesis
    using assms(2,3) d(1)
    by (simp add: ijDirNext_def ijDirGet_def JS_GetOpaque2_def deref_def js_malloc_def Let_def
        del: JS_GetOpaque.simps)
qed

definition demo_dir :: fs_rt where
  "demo_dir = fs_world\<lparr>tick := 9, opaque := (\<lambda>_. (0, 0))(3 := (ijjs_dir_class_id, 4)),
     blk := (\<lambda>_. NoBlock)(4 := JsBlock), uvdirs := (\<lambda>_. True),
     dirs := (\<lambda>_. \<lparr>dr_dir = 8, dr_path = JS_Str ''/tmp'', dr_done = False\<rparr>)\<rparr>"

theorem next_after_close_crashes_witness:
  "\<exists>v w1. close_dir_cb (JS_Ref 3) demo_dir = Inr (v, w1) \<and>
    ijDirNext plain_env plain_fs (JS_Ref 3) w1 = Inl NullDeref"
proof -
  obtain v w1 where w1: "close_dir_cb (JS_Ref 3) demo_dir = Inr (v, w1)" "\<not> oom w1 (tick w1)"
    "\<not> dr_done (dirs w1 (JS_GetOpaque (JS_Ref 3) ijjs_dir_class_id w1))"
    by (simp add: close_dir_cb_def ijDirGet_def JS_GetOpaque2_def deref_def demo_dir_def fs_world_defs Let_def)
  with next_after_close_crashes [OF w1] show ?thesis by blast
qed

end
