(* ===== verification/Dns.thy ===== *)
theory Dns
  imports Vm Slots
begin

text \<open>
  ijdns.c: getaddrinfo, from the call with its hints to the callback that settles its promise.
  The resolver is a parameter: whether it takes a request, and the answer the callback is given.
\<close>

section \<open>Data\<close>

record addrinfo =
  ai_flags :: int
  ai_family :: int
  ai_socktype :: int
  ai_protocol :: int
  ai_addrlen :: nat
  ai_addr :: sockaddr
  ai_canonname :: "string option"

record IJJSGetAddrInfoReq =
  gr_result :: IJJSPromise

record dns_query =
  q_req :: nat
  q_node :: string
  q_service :: "string option"
  q_hints :: addrinfo

record dns_rt = vm_rt +
  gaireqs :: "nat \<Rightarrow> IJJSGetAddrInfoReq"
  dns_queue :: "dns_query list"

text \<open>The code of uv\_getaddrinfo for a node, a service and hints.\<close>

type_synonym dnsenv = "string \<Rightarrow> string option \<Rightarrow> addrinfo \<Rightarrow> int"

section \<open>Operations\<close>

definition addr_item :: "netenv \<Rightarrow> addrinfo \<Rightarrow> jsval" where
  "addr_item N ptr = JS_Object
     [(''addr'', ijAddr2Obj N (ai_addr ptr)), (''socktype'', JS_NewInt32 (ai_socktype ptr)),
      (''protocol'', JS_NewInt32 (ai_protocol ptr)),
      (''canonname'', case ai_canonname ptr of Some s \<Rightarrow> JS_Str s | None \<Rightarrow> JS_UNDEFINED)]"

fun addr_items :: "netenv \<Rightarrow> addrinfo list \<Rightarrow> jsval list" where
  "addr_items N [] = []"
| "addr_items N (ptr # ais) =
     (if ai_addrlen ptr = 0 then addr_items N ais else addr_item N ptr # addr_items N ais)"

definition ijAddrInfo2Obj :: "netenv \<Rightarrow> addrinfo list \<Rightarrow> jsval" where
  "ijAddrInfo2Obj N ai = JS_Array (addr_items N ai)"

text \<open>
  One hint: a property that is not undefined is converted into the field. JS\_ToInt32 stores 0
  when it fails, and its result is not looked at.
\<close>

definition hint :: "jsenv \<Rightarrow> jsval \<Rightarrow> string \<Rightarrow> int \<Rightarrow> 'z rt_scheme \<Rightarrow> (int \<times> 'z rt_scheme) res" where
  "hint E obj k old w = (case JS_GetPropertyStr E obj k w of (v, w) \<Rightarrow>
     case (if JS_IsUndefined v then (old, w)
           else case JS_ToInt32 E v w of (None, w) \<Rightarrow> (0, w) | (Some i, w) \<Rightarrow> (i, w)) of (i, w) \<Rightarrow>
     bindE (JS_FreeValue v w) (\<lambda>w. Inr (i, w)))"

definition ijObj2AddrInfo ::
    "jsenv \<Rightarrow> jsval \<Rightarrow> addrinfo \<Rightarrow> 'z rt_scheme \<Rightarrow> (addrinfo \<times> 'z rt_scheme) res" where
  "ijObj2AddrInfo E obj ai w =
     bindE (hint E obj ''family'' (ai_family ai) w) (\<lambda>(family, w).
     bindE (hint E obj ''socktype'' (ai_socktype ai) w) (\<lambda>(socktype, w).
     bindE (hint E obj ''protocol'' (ai_protocol ai) w) (\<lambda>(protocol, w).
     bindE (hint E obj ''flags'' (ai_flags ai) w) (\<lambda>(flags, w).
     Inr (ai\<lparr>ai_family := family, ai_socktype := socktype, ai_protocol := protocol, ai_flags := flags\<rparr>, w)))))"

definition uvGetAddrInfoCb ::
    "jsenv \<Rightarrow> netenv \<Rightarrow> nat \<Rightarrow> int \<Rightarrow> addrinfo list \<Rightarrow> 'z dns_rt_scheme \<Rightarrow> 'z dns_rt_scheme res" where
  "uvGetAddrInfoCb E N gr status res w =
     bindE (CHECK (gr \<noteq> 0) w) (\<lambda>w.
     bindE (deref gr w) (\<lambda>w.
     case (if status \<noteq> 0 then ijNewError E status w else (ijAddrInfo2Obj N res, w)) of (arg, w) \<Rightarrow>
     bindE (ijSettlePromise E (gr_result (gaireqs w gr)) (status \<noteq> 0) [arg] w) (\<lambda>(pr, w).
     js_free gr (w\<lparr>gaireqs := (gaireqs w)(gr := (gaireqs w gr)\<lparr>gr_result := pr\<rparr>)\<rparr>))))"

definition no_hints :: addrinfo where
  "no_hints = \<lparr>ai_flags = 0, ai_family = 0, ai_socktype = 0, ai_protocol = 0, ai_addrlen = 0,
     ai_addr = SockOther 0, ai_canonname = None\<rparr>"

definition dns_options ::
    "jsenv \<Rightarrow> jsval \<Rightarrow> 'z rt_scheme \<Rightarrow> (addrinfo \<times> string option \<times> 'z rt_scheme) res" where
  "dns_options E opts w =
     (if \<not> JS_IsObject opts then Inr (no_hints, None, w)
      else bindE (ijObj2AddrInfo E opts no_hints w) (\<lambda>(hints, w).
        case JS_GetPropertyStr E opts ''service'' w of (js_service, w) \<Rightarrow>
        case (if JS_IsUndefined js_service then (None, w)
              else case JS_ToCString E js_service w of (p, s, w) \<Rightarrow> (if p = 0 then None else Some s, w))
          of (service, w) \<Rightarrow>
        bindE (JS_FreeValue js_service w) (\<lambda>w. Inr (hints, service, w))))"

definition ijDnsGetAddrInfo ::
    "jsenv \<Rightarrow> dnsenv \<Rightarrow> jsval list \<Rightarrow> 'z dns_rt_scheme \<Rightarrow> (jsval \<times> 'z dns_rt_scheme) res" where
  "ijDnsGetAddrInfo E D argv w = (case JS_ToCString E (argn 0 argv) w of (p, node, w) \<Rightarrow>
     if p = 0 then Inr (JS_EXCEPTION, w)
     else case js_malloc w of (gr, w) \<Rightarrow>
       if gr = 0 then Inr (JS_EXCEPTION, w)
       else bindE (dns_options E (argn 1 argv)
              (w\<lparr>gaireqs := (gaireqs w)(gr := \<lparr>gr_result = uninit_promise E\<rparr>)\<rparr>)) (\<lambda>(hints, service, w).
         if D node service hints \<noteq> 0
         then bindE (js_free gr w) (\<lambda>w. Inr (ijThrowErrno E (D node service hints) w))
         else case ijInitPromise (gr_result (gaireqs w gr))
                (w\<lparr>dns_queue := dns_queue w @ [\<lparr>q_req = gr, q_node = node, q_service = service, q_hints = hints\<rparr>]\<rparr>) of
           (v, pr, w) \<Rightarrow>
           Inr (v, w\<lparr>gaireqs := (gaireqs w)(gr := (gaireqs w gr)\<lparr>gr_result := pr\<rparr>)\<rparr>)))"

section \<open>Options\<close>

text \<open>Reading options changes nothing but the pending exception; a service adds one C string.\<close>

lemma dup_free:
  "v \<noteq> JS_JUNK \<Longrightarrow> JS_FreeValue v (JS_DupValue v w) = Inr w"
  by (cases v) (auto intro!: rt.equality)

lemma hint_frame:
  assumes "jsenv_ok E"
  shows "\<exists>i e. hint E obj k old w = Inr (i, w\<lparr>exn := e\<rparr>)"
proof (cases "getprop E obj k = JS_EXCEPTION")
  case True
  then show ?thesis
    by (auto simp: hint_def JS_GetPropertyStr_def JS_IsException_def JS_IsUndefined_def JS_ToInt32_def throw_defs
        split: option.splits)
next
  case False
  have j: "getprop E obj k \<noteq> JS_JUNK" using assms by (simp add: jsenv_ok_def)
  have f: "JS_FreeValue v ((JS_DupValue v w)\<lparr>exn := e\<rparr>) = Inr (w\<lparr>exn := e\<rparr>)" if "v \<noteq> JS_JUNK" for v e
    using that by (cases v) (auto intro!: rt.equality)
  show ?thesis
  proof (cases "JS_IsUndefined (getprop E obj k) \<or> to_i32 E (getprop E obj k) \<noteq> None")
    case True
    then have "\<exists>i. hint E obj k old w = Inr (i, w\<lparr>exn := exn w\<rparr>)"
      using False dup_free [OF j, of w]
      by (auto simp: hint_def JS_GetPropertyStr_def JS_IsException_def JS_ToInt32_def Let_def
          simp del: JS_FreeValue.simps JS_DupValue.simps)
    then show ?thesis by blast
  next
    case F: False
    then show ?thesis
      using False f [OF j]
      by (auto simp: hint_def JS_GetPropertyStr_def JS_IsException_def JS_ToInt32_def throw_defs Let_def
          simp del: JS_FreeValue.simps JS_DupValue.simps)
  qed
qed

lemma ijObj2AddrInfo_frame:
  assumes "jsenv_ok E"
  shows "\<exists>h e. ijObj2AddrInfo E obj ai w = Inr (h, w\<lparr>exn := e\<rparr>)"
proof -
  obtain i1 e1 where 1: "hint E obj ''family'' (ai_family ai) w = Inr (i1, w\<lparr>exn := e1\<rparr>)"
    using hint_frame [OF assms] by blast
  obtain i2 e2 where 2: "hint E obj ''socktype'' (ai_socktype ai) (w\<lparr>exn := e1\<rparr>) = Inr (i2, w\<lparr>exn := e2\<rparr>)"
    using hint_frame [OF assms, of obj "''socktype''" "ai_socktype ai" "w\<lparr>exn := e1\<rparr>"] by auto
  obtain i3 e3 where 3: "hint E obj ''protocol'' (ai_protocol ai) (w\<lparr>exn := e2\<rparr>) = Inr (i3, w\<lparr>exn := e3\<rparr>)"
    using hint_frame [OF assms, of obj "''protocol''" "ai_protocol ai" "w\<lparr>exn := e2\<rparr>"] by auto
  obtain i4 e4 where "hint E obj ''flags'' (ai_flags ai) (w\<lparr>exn := e3\<rparr>) = Inr (i4, w\<lparr>exn := e4\<rparr>)"
    using hint_frame [OF assms, of obj "''flags''" "ai_flags ai" "w\<lparr>exn := e3\<rparr>"] by auto
  with 1 2 3 show ?thesis by (auto simp: ijObj2AddrInfo_def)
qed

text \<open>What reading the options may change: the pending exception, and one C string for the service.\<close>

definition options_frame :: "'z rt_scheme \<Rightarrow> 'z rt_scheme \<Rightarrow> bool" where
  "options_frame w w' \<longleftrightarrow> refs w' = refs w \<and> oom w' = oom w \<and> rt.more w' = rt.more w \<and>
     tick w \<le> tick w' \<and> hnd w' (tick w) = hnd w (tick w) \<and> blk w' (tick w) = blk w (tick w) \<and>
     (\<forall>n<tick w. blk w' n = blk w n)"

lemma dns_options_frame:
  assumes "jsenv_ok E"
  shows "\<exists>h s w'. dns_options E opts w = Inr (h, s, w') \<and> options_frame w w'"
proof (cases "JS_IsObject opts")
  case True
  obtain h e where h: "ijObj2AddrInfo E opts no_hints w = Inr (h, w\<lparr>exn := e\<rparr>)"
    using ijObj2AddrInfo_frame [OF assms] by blast
  let ?v = "getprop E opts ''service''"
  have j: "?v \<noteq> JS_JUNK" using assms by (simp add: jsenv_ok_def)
  show ?thesis
  proof (cases "?v")
    case (JS_Ref n)
    then show ?thesis using True h
      by (cases "to_cstr E ?v") (auto simp: dns_options_def JS_GetPropertyStr_def JS_IsException_def
          JS_IsUndefined_def JS_ToCString_def throw_defs options_frame_def Let_def simp del: JS_IsObject.simps)
  qed (use True h j in \<open>cases "to_cstr E ?v"; auto simp: dns_options_def JS_GetPropertyStr_def JS_IsException_def
        JS_IsUndefined_def JS_ToCString_def throw_defs options_frame_def Let_def split: option.splits
        simp del: JS_IsObject.simps\<close>)+
qed (simp add: dns_options_def options_frame_def del: JS_IsObject.simps)

section \<open>From the call to the answer\<close>

lemma addr_items_filter: "addr_items N ais = map (addr_item N) (filter (\<lambda>a. ai_addrlen a \<noteq> 0) ais)"
  by (induction ais) auto

lemma dns_more: "rt.more w' = rt.more w \<Longrightarrow> gaireqs w' = gaireqs w \<and> dns_queue w' = dns_queue w"
  by (cases w; cases w') simp

definition dns_pending :: "nat \<Rightarrow> nat \<Rightarrow> 'z dns_rt_scheme \<Rightarrow> bool" where
  "dns_pending gr p w \<longleftrightarrow> gr \<noteq> 0 \<and> gr \<le> tick w \<and> blk w gr = JsBlock \<and> hnd w gr = (\<lambda>_. HNone) \<and>
     promise_live p (p + 1) (p + 2) (gr_result (gaireqs w gr)) w"

text \<open>The answer settles the promise and gives the request back.\<close>

lemma dns_answered:
  assumes "dns_pending gr p w"
  shows "\<exists>w' v. uvGetAddrInfoCb E N gr status res w = Inr w' \<and> blk w' = (blk w)(gr := NoBlock) \<and>
    refs w' = (refs w)(p := refs w p - 1, p + 1 := refs w (p + 1) - 2, p + 2 := refs w (p + 2) - 2) \<and>
    proms w' p = settled_state (status \<noteq> 0) v \<and> (status = 0 \<longrightarrow> v = ijAddrInfo2Obj N res)"
proof -
  have p: "gr \<noteq> 0" "gr \<le> tick w" "blk w gr = JsBlock" "hnd w gr = (\<lambda>_. HNone)"
    "promise_live p (p + 1) (p + 2) (gr_result (gaireqs w gr)) w"
    using assms by (auto simp: dns_pending_def)
  obtain v w1 where a: "(if status \<noteq> 0 then ijNewError E status w else (ijAddrInfo2Obj N res, w)) = (v, w1)"
    by fastforce
  have f: "alloc_frame w w1" "v \<noteq> JS_JUNK" "\<forall>n. v \<noteq> JS_Ref n" "blk w1 = blk w"
  proof -
    have "alloc_frame w w" by (simp add: alloc_frame_def)
    then show "alloc_frame w w1" using a af_newError [of E status w v w1] by (auto split: if_splits)
    show "v \<noteq> JS_JUNK" "\<forall>n. v \<noteq> JS_Ref n" "blk w1 = blk w"
      using a by (auto simp: ijAddrInfo2Obj_def ijNewError_def JS_NewError_def throw_defs Let_def split: if_splits)
  qed
  have m: "gaireqs w1 = gaireqs w" "refs w1 = refs w" "hnd w1 gr = hnd w gr"
    using f(1) p(2) dns_more [of w1 w] by (auto simp: alloc_frame_def)
  have l: "promise_live p (p + 1) (p + 2) (gr_result (gaireqs w gr)) w1"
    using p(5) f(1) by (auto simp: promise_live_def alloc_frame_def)
  have o: "owned v 1 w1" using f(2,3) by (cases v) (auto simp: owned_def)
  have "v \<notin> {JS_Ref p, JS_Ref (p + 1), JS_Ref (p + 2)}" using f(3) by blast
  note s = ijSettlePromise_live [OF l o this, of E "status \<noteq> 0"]
  have "settled_refs p (p + 1) (p + 2) v (refs w) =
      (refs w)(p := refs w p - 1, p + 1 := refs w (p + 1) - 2, p + 2 := refs w (p + 2) - 2)"
    using f(3) by (auto simp: settled_refs_def)
  then have "\<exists>w'. uvGetAddrInfoCb E N gr status res w = Inr w' \<and> blk w' = (blk w)(gr := NoBlock) \<and>
    refs w' = (refs w)(p := refs w p - 1, p + 1 := refs w (p + 1) - 2, p + 2 := refs w (p + 2) - 2) \<and>
    proms w' p = settled_state (status \<noteq> 0) v"
    using p f(4) m s a
    by (simp add: uvGetAddrInfoCb_def deref_def js_free_def free_block_def handles_quiet_def)
  moreover have "status = 0 \<longrightarrow> v = ijAddrInfo2Obj N res" using a by auto
  ultimately show ?thesis by blast
qed

lemma dns_requested:
  assumes "jsenv_ok E" "fresh_blk w" "\<forall>n. \<not> oom w n" "to_cstr E (argn 0 argv) = Some node"
    and "\<forall>s h. D node s h = 0"
  shows "\<exists>p q w1. ijDnsGetAddrInfo E D argv w = Inr (JS_Ref p, w1) \<and> dns_queue w1 = dns_queue w @ [q] \<and>
    q_req q = tick w + 2 \<and> q_node q = node \<and> tick w \<le> p \<and> dns_pending (q_req q) p w1 \<and>
    blk w1 (tick w + 1) = CString \<and> refs w1 = (refs w)(p := 2, p + 1 := 2, p + 2 := 2)"
proof -
  let ?g = "tick w + 2"
  define u where "u = w\<lparr>tick := tick w + 2, blk := (blk w)(tick w + 1 := CString, ?g := JsBlock),
    hnd := (hnd w)(tick w + 1 := (\<lambda>_. HNone), ?g := (\<lambda>_. HNone)),
    gaireqs := (gaireqs w)(?g := \<lparr>gr_result = uninit_promise E\<rparr>)\<rparr>"
  obtain h s u' where o: "dns_options E (argn 1 argv) u = Inr (h, s, u')" "options_frame u u'"
    using dns_options_frame [OF assms(1)] by blast
  have m: "gaireqs u' = gaireqs u" "dns_queue u' = dns_queue u"
    using o(2) dns_more [of u' u] by (simp_all add: options_frame_def)
  have u': "refs u' = refs w" "oom u' = oom w" "?g \<le> tick u'" "blk u' ?g = JsBlock" "hnd u' ?g = (\<lambda>_. HNone)"
    "blk u' (tick w + 1) = CString" "dns_queue u' = dns_queue w"
    using o(2) m by (auto simp: options_frame_def u_def)
  define q where "q = \<lparr>q_req = ?g, q_node = node, q_service = s, q_hints = h\<rparr>"
  define pr where "pr = (uninit_promise E)\<lparr>pr_p := JS_Ref (tick u'), pr_rfuncs0 := JS_Ref (tick u' + 1),
    pr_rfuncs1 := JS_Ref (tick u' + 2), pr_valid := True\<rparr>"
  obtain u2 where u2: "ijInitPromise (gr_result (gaireqs u' ?g)) (u'\<lparr>dns_queue := dns_queue u' @ [q]\<rparr>) =
      (JS_Ref (tick u'), pr, u2)"
    using assms(3) u'(2) m(1) by (simp add: ijInitPromise_live Let_def pr_def u_def)
  note l = promise_live_init [OF u2]
  have f: "blk u2 = blk u'" "hnd u2 = hnd u'" "tick u' \<le> tick u2" "dns_queue u2 = dns_queue u' @ [q]"
    using init_frame_init [OF u2] dns_more [of u2 "u'\<lparr>dns_queue := dns_queue u' @ [q]\<rparr>"]
    by (simp_all add: init_frame_def)
  let ?w1 = "u2\<lparr>gaireqs := (gaireqs u2)(?g := (gaireqs u2 ?g)\<lparr>gr_result := pr\<rparr>)\<rparr>"
  have "ijDnsGetAddrInfo E D argv w = Inr (JS_Ref (tick u'), ?w1)"
    using assms(3-5) o(1) u2
    by (simp add: ijDnsGetAddrInfo_def JS_ToCString_def js_malloc_def u_def q_def)
  moreover have "dns_pending ?g (tick u') ?w1"
    using l(2) f u' by (auto simp: dns_pending_def promise_live_def)
  ultimately show ?thesis
    using f u' l(3) by (intro exI [of _ "tick u'"] exI [of _ q] exI [of _ ?w1]) (simp add: q_def)
qed


definition dns_world :: dns_rt where
  "dns_world = vm_rt.extend vm_world (dns_rt.fields (\<lambda>_. \<lparr>gr_result = ijClearPromise (uninit_promise plain_env)\<rparr>) [])"


end
