(* ===== verification/Log.thy ===== *)
theory Log
  imports Vm
begin

text \<open>
  ijlog.c: the log object over zlog, and where its directory comes from. zlog is a parameter; of
  it the code uses that a message is a printf format, and that zlog\_fini frees the category.
\<close>

section \<open>Data\<close>

datatype category = NoCategory | Category | FreedCategory

datatype log_level = FATAL | WARN | INFO | DEBUG

record log_rt = vm_rt +
  zc :: category
  log_dirs :: "string list"
  logged :: "(log_level \<times> string) list"

record logenv =
  prog_argv :: "string list"
  zlog_init :: "string \<Rightarrow> int"
  zlog_get_category :: "string \<Rightarrow> bool"
  NDEBUG :: bool

text \<open>A printf format without arguments: only %% is defined, any other conversion reads an argument
  that was not passed.\<close>

fun vformat :: "string \<Rightarrow> string res" where
  "vformat [] = Inr []"
| "vformat (c # cs) =
     (if c = CHR 0x00 then Inr []
      else if c \<noteq> CHR ''%'' then bindE (vformat cs) (\<lambda>s. Inr (c # s))
      else case cs of
        d # ds \<Rightarrow> if d = CHR ''%'' then bindE (vformat ds) (\<lambda>s. Inr (c # s)) else Inl UninitRead
      | [] \<Rightarrow> Inl UninitRead)"

definition zlog :: "log_level \<Rightarrow> string \<Rightarrow> 'z log_rt_scheme \<Rightarrow> 'z log_rt_scheme res" where
  "zlog level format w = (case zc w of
     NoCategory \<Rightarrow> Inl NullDeref
   | FreedCategory \<Rightarrow> Inl UseAfterFree
   | Category \<Rightarrow> bindE (vformat format) (\<lambda>s. Inr (w\<lparr>logged := logged w @ [(level, s)]\<rparr>)))"

section \<open>Operations\<close>

definition log_message ::
    "log_level \<Rightarrow> jsenv \<Rightarrow> jsval list \<Rightarrow> 'z log_rt_scheme \<Rightarrow> (jsval \<times> 'z log_rt_scheme) res" where
  "log_message level E argv w =
     (if JS_IsString (argn 0 argv)
      then case JS_ToCString E (argn 0 argv) w of (p, buf, w) \<Rightarrow>
        if p = 0 then Inr (JS_EXCEPTION, w)
        else bindE (zlog level buf w) (\<lambda>w. Inr (JS_NULL, w))
      else Inr (JS_EXCEPTION, w))"

definition ijLogFatal :: "jsenv \<Rightarrow> jsval list \<Rightarrow> 'z log_rt_scheme \<Rightarrow> (jsval \<times> 'z log_rt_scheme) res" where
  "ijLogFatal = log_message FATAL"

definition ijLogWarn :: "jsenv \<Rightarrow> jsval list \<Rightarrow> 'z log_rt_scheme \<Rightarrow> (jsval \<times> 'z log_rt_scheme) res" where
  "ijLogWarn = log_message WARN"

definition ijLogInfo :: "jsenv \<Rightarrow> jsval list \<Rightarrow> 'z log_rt_scheme \<Rightarrow> (jsval \<times> 'z log_rt_scheme) res" where
  "ijLogInfo = log_message INFO"

definition ijLogDebug :: "jsenv \<Rightarrow> jsval list \<Rightarrow> 'z log_rt_scheme \<Rightarrow> (jsval \<times> 'z log_rt_scheme) res" where
  "ijLogDebug = log_message DEBUG"

definition ijLogFinalize :: "'z log_rt_scheme \<Rightarrow> jsval \<times> 'z log_rt_scheme" where
  "ijLogFinalize w = (JS_NULL, if zc w = Category then w\<lparr>zc := FreedCategory\<rparr> else w)"

definition ijGetScriptPath :: "logenv \<Rightarrow> string res" where
  "ijGetScriptPath L = (if prog_argv L = [] then Inl NullDeref else Inr (last (prog_argv L)))"

definition is_sep :: "char \<Rightarrow> bool" where
  "is_sep c = (c = CHR ''/'' \<or> c = CHR 0x5C)"

text \<open>The loop from the last index of the buffer down to 0; \<open>n\<close> indices are left.\<close>

fun clear_name :: "nat \<Rightarrow> string \<Rightarrow> string" where
  "clear_name 0 buf = buf"
| "clear_name (Suc i) buf = (if is_sep (buf ! i) then buf else clear_name i (buf[i := CHR 0x00]))"

definition c_string :: "string \<Rightarrow> string" where
  "c_string buf = takeWhile (\<lambda>c. c \<noteq> CHR 0x00) buf"

definition log_path :: "string \<Rightarrow> string res" where
  "log_path script =
     (if 256 \<le> length script then Inl BufferOverflow
      else let buf = clear_name 256 (script @ replicate (256 - length script) CHR 0x00);
               dir = c_string buf
           in if 256 < length dir + 4 then Inl BufferOverflow else Inr (dir @ ''log''))"

definition ijModLogInit :: "logenv \<Rightarrow> 'z log_rt_scheme \<Rightarrow> 'z log_rt_scheme res" where
  "ijModLogInit L w =
     (if zc w \<noteq> NoCategory then Inr w
      else bindE (ijGetScriptPath L) (\<lambda>script.
        bindE (log_path script) (\<lambda>buf.
        let w = w\<lparr>log_dirs := log_dirs w @ [buf]\<rparr> in
        if zlog_init L buf \<noteq> 0 \<and> \<not> NDEBUG L then Inl AbortCalled
        else Inr (w\<lparr>zc := if zlog_get_category L ''ijjs_rule'' then Category else NoCategory\<rparr>))))"

definition ijjs_log_proto_funcs :: "(string \<times> nat) list" where
  "ijjs_log_proto_funcs = [(''fatal'', 1), (''warn'', 1), (''info'', 1), (''debug'', 1), (''finalize'', 0)]"

section \<open>The log directory\<close>

lemma clear_name_tail:
  "\<lbrakk>n \<le> length buf; \<forall>i<n. k \<le> i \<longrightarrow> \<not> is_sep (buf ! i); k \<le> n; k = 0 \<or> is_sep (buf ! (k - 1))\<rbrakk> \<Longrightarrow>
   clear_name n buf = take k buf @ replicate (n - k) CHR 0x00 @ drop n buf"
proof (induction n buf rule: clear_name.induct)
  case (2 i buf)
  show ?case
  proof (cases "k = Suc i")
    case True
    then show ?thesis using 2(5) by simp
  next
    case False
    then have k: "k \<le> i" using 2(4) by simp
    have n: "\<not> is_sep (buf ! i)" using 2(3) k by simp
    have "clear_name i (buf[i := CHR 0x00]) =
        take k (buf[i := CHR 0x00]) @ replicate (i - k) CHR 0x00 @ drop i (buf[i := CHR 0x00])"
    proof (rule 2(1) [OF n])
      show "k = 0 \<or> is_sep (buf[i := CHR 0x00] ! (k - 1))" using 2(5) k by (cases k) auto
    qed (use 2 k in auto)
    moreover have "drop i (buf[i := CHR 0x00]) = CHR 0x00 # drop (Suc i) buf"
      using 2(2) by (simp add: Cons_nth_drop_Suc [symmetric])
    ultimately show ?thesis
      using n k by (simp add: Suc_diff_le replicate_app_Cons_same)
  qed
qed simp

lemma c_string_pad: "CHR 0x00 \<notin> set s \<Longrightarrow> c_string (s @ replicate n CHR 0x00) = s"
proof (induction s)
  case Nil
  then show ?case by (cases n) (simp_all add: c_string_def)
qed (auto simp: c_string_def)

text \<open>The log directory stands beside the script: for a script path below 256 bytes with
  a directory part of at most 252 the initialiser keeps the path up to its last separator, appends
  \<open>log\<close>, makes that directory and opens the log there. A path that does not fit the buffer of 256 bytes is written past its end.\<close>

theorem log_directory_beside_script:
  assumes "zc w = NoCategory" "prog_argv L \<noteq> []" "CHR 0x00 \<notin> set dir" "CHR 0x00 \<notin> set name"
    and "last (prog_argv L) = dir @ name" "\<forall>c\<in>set name. \<not> is_sep c" "dir = [] \<or> is_sep (last dir)"
    and "zlog_init L (dir @ ''log'') = 0" "zlog_get_category L ''ijjs_rule''"
  shows "(length dir \<le> 252 \<and> length (dir @ name) < 256 \<longrightarrow>
      ijModLogInit L w = Inr (w\<lparr>log_dirs := log_dirs w @ [dir @ ''log''], zc := Category\<rparr>)) \<and>
    (256 \<le> length (dir @ name) \<longrightarrow> ijModLogInit L w = Inl BufferOverflow)"
proof -
  let ?b = "(dir @ name) @ replicate (256 - length (dir @ name)) CHR 0x00"
  have "clear_name 256 ?b = dir @ replicate (256 - length dir) CHR 0x00" if "length (dir @ name) < 256"
  proof -
    have "\<not> is_sep (?b ! i)" if "length dir \<le> i" "i < 256" for i
      using that assms(6) by (auto simp: nth_append is_sep_def)
    moreover have "length dir = 0 \<or> is_sep (?b ! (length dir - 1))"
      using assms(7) by (cases dir rule: rev_cases) (auto simp: nth_append)
    ultimately show ?thesis
      using clear_name_tail [of 256 ?b "length dir"] that by simp
  qed
  then have "log_path (dir @ name) = Inr (dir @ ''log'')" if "length dir \<le> 252" "length (dir @ name) < 256"
    using that c_string_pad [OF assms(3)] by (simp add: log_path_def Let_def)
  moreover have "log_path (dir @ name) = Inl BufferOverflow" if "256 \<le> length (dir @ name)"
    using that by (simp add: log_path_def)
  moreover have "ijModLogInit L w = bindE (log_path (dir @ name)) (\<lambda>buf.
      if zlog_init L buf \<noteq> 0 \<and> \<not> NDEBUG L then Inl AbortCalled
      else Inr (w\<lparr>log_dirs := log_dirs w @ [buf], zc := Category\<rparr>))"
    using assms(1,2,5,9) by (simp add: ijModLogInit_def ijGetScriptPath_def Let_def)
  ultimately show ?thesis using assms(8) by simp
qed

definition log_world :: log_rt where
  "log_world = vm_rt.extend vm_world (log_rt.fields NoCategory [] [])"

definition plain_log :: logenv where
  "plain_log = \<lparr>prog_argv = [''ijjs'', ''/srv/app/main.js''], zlog_init = (\<lambda>_. 0),
     zlog_get_category = (\<lambda>_. True), NDEBUG = False\<rparr>"

lemmas log_world_defs = log_world_def vm_world_defs log_rt.defs

theorem log_directory_beside_script_witness:
  "ijModLogInit plain_log log_world =
     Inr (log_world\<lparr>log_dirs := [''/srv/app/log''], zc := Category\<rparr>)"
  using log_directory_beside_script [of log_world plain_log "''/srv/app/''" "''main.js''"]
  by (simp add: plain_log_def log_world_defs is_sep_def)

section \<open>Messages\<close>

lemma vformat_plain: "CHR ''%'' \<notin> set s \<Longrightarrow> CHR 0x00 \<notin> set s \<Longrightarrow> vformat s = Inr s"
  by (induction s) auto

lemma log_message_plain:
  assumes "zc w = Category" "to_cstr E (JS_Str s) = Some s" "CHR ''%'' \<notin> set s" "CHR 0x00 \<notin> set s"
  shows "\<exists>w'. log_message level E [JS_Str s] w = Inr (JS_NULL, w') \<and> logged w' = logged w @ [(level, s)] \<and>
    zc w' = Category"
  using assms by (simp add: log_message_def argn_def JS_ToCString_def zlog_def vformat_plain)

text \<open>The message is the format: a conversion in it reads an argument that does not exist.\<close>

lemma log_format_string:
  assumes "zc w = Category" "to_cstr E (JS_Str ''100%s'') = Some ''100%s''"
  shows "ijLogInfo E [JS_Str ''100%s''] w = Inl UninitRead"
  using assms by (simp add: ijLogInfo_def log_message_def argn_def JS_ToCString_def zlog_def)

text \<open>After finalize, which frees the category but keeps the pointer, the next message uses it.\<close>

lemma log_after_finalize:
  assumes "zc w = Category" "to_cstr E (JS_Str s) = Some s"
  shows "ijLogInfo E [JS_Str s] (snd (ijLogFinalize w)) = Inl UseAfterFree"
  using assms by (simp add: ijLogFinalize_def ijLogInfo_def log_message_def argn_def JS_ToCString_def zlog_def)

end
