(* ===== verification/Xhr.thy ===== *)
theory Xhr
  imports Curl
begin

text \<open>
  ijxhr.c: XMLHttpRequest over libcurl. The structure with its handlers and buffers, the callbacks
  libcurl makes for status lines, headers, data and progress, and the methods of the object.
\<close>

section \<open>Data\<close>

definition XHR_EVENT_ABORT :: nat where "XHR_EVENT_ABORT = 0"
definition XHR_EVENT_ERROR :: nat where "XHR_EVENT_ERROR = 1"
definition XHR_EVENT_LOAD :: nat where "XHR_EVENT_LOAD = 2"
definition XHR_EVENT_LOAD_END :: nat where "XHR_EVENT_LOAD_END = 3"
definition XHR_EVENT_LOAD_START :: nat where "XHR_EVENT_LOAD_START = 4"
definition XHR_EVENT_PROGRESS :: nat where "XHR_EVENT_PROGRESS = 5"
definition XHR_EVENT_READY_STATE_CHANGED :: nat where "XHR_EVENT_READY_STATE_CHANGED = 6"
definition XHR_EVENT_TIMEOUT :: nat where "XHR_EVENT_TIMEOUT = 7"
definition XHR_EVENT_MAX :: nat where "XHR_EVENT_MAX = 8"

definition XHR_RSTATE_UNSENT :: nat where "XHR_RSTATE_UNSENT = 0"
definition XHR_RSTATE_OPENED :: nat where "XHR_RSTATE_OPENED = 1"
definition XHR_RSTATE_HEADERS_RECEIVED :: nat where "XHR_RSTATE_HEADERS_RECEIVED = 2"
definition XHR_RSTATE_LOADING :: nat where "XHR_RSTATE_LOADING = 3"
definition XHR_RSTATE_DONE :: nat where "XHR_RSTATE_DONE = 4"

lemmas xhr_consts = XHR_EVENT_ABORT_def XHR_EVENT_ERROR_def XHR_EVENT_LOAD_def XHR_EVENT_LOAD_END_def
  XHR_EVENT_LOAD_START_def XHR_EVENT_PROGRESS_def XHR_EVENT_READY_STATE_CHANGED_def XHR_EVENT_TIMEOUT_def
  XHR_EVENT_MAX_def XHR_RSTATE_UNSENT_def XHR_RSTATE_OPENED_def XHR_RSTATE_HEADERS_RECEIVED_def
  XHR_RSTATE_LOADING_def XHR_RSTATE_DONE_def

datatype xhr_rtype = XHR_RTYPE_DEFAULT | XHR_RTYPE_TEXT | XHR_RTYPE_ARRAY_BUFFER | XHR_RTYPE_JSON

text \<open>
  \<open>xh_curl_h\<close> is the easy handle (0 for NULL), \<open>xh_slist\<close> the request headers (empty for NULL),
  \<open>xh_raw\<close> the block of the status text and \<open>xh_raw_str\<close> its contents.
\<close>

record IJJSXhr =
  xh_events :: "jsval list"
  xh_curl_h :: nat
  xh_slist :: "string list"
  xh_sent :: bool
  xh_async :: bool
  xh_timeout :: int
  xh_rtype :: xhr_rtype
  xh_ready_state :: nat
  xh_raw :: nat
  xh_raw_str :: string
  xh_status :: jsval
  xh_status_text :: jsval
  xh_url :: jsval
  xh_headers :: jsval
  xh_response :: jsval
  xh_response_text :: jsval
  xh_hbuf :: string
  xh_bbuf :: string

datatype curlopt =
    OptNobody | OptMethod string | OptUrl string | OptTimeout int | OptBody string | OptHeaders "string list"

record xhr_rt = curl_rt +
  xhrs :: "nat \<Rightarrow> IJJSXhr"
  easy_opts :: "nat \<Rightarrow> curlopt list"

text \<open>What a transfer makes libcurl call, and the environment.\<close>

datatype xhr_ev = Header string | Data string | Progress int int

record xhrenv =
  curl_easy_init :: nat
  effective_url :: "nat \<Rightarrow> string option"
  resp_code :: "nat \<Rightarrow> int"
  length_known :: "nat \<Rightarrow> bool"
  parse_json :: "string \<Rightarrow> jsval + jsval"
  perform :: "nat \<Rightarrow> xhr_ev list \<times> int"
  slist_append_ok :: bool

definition CURLE_OPERATION_TIMEDOUT :: int where "CURLE_OPERATION_TIMEDOUT = 28"
definition CURLE_BAD_FUNCTION_ARGUMENT :: int where "CURLE_BAD_FUNCTION_ARGUMENT = 43"
definition CURL_MAX_HTTP_HEADER :: nat where "CURL_MAX_HTTP_HEADER = 102400"

definition ijjs_xhr_class_id :: nat where "ijjs_xhr_class_id = 62"

definition xh_upd :: "nat \<Rightarrow> (IJJSXhr \<Rightarrow> IJJSXhr) \<Rightarrow> 'z xhr_rt_scheme \<Rightarrow> 'z xhr_rt_scheme" where
  "xh_upd p f w = w\<lparr>xhrs := (xhrs w)(p := f (xhrs w p))\<rparr>"

text \<open>libcurl ignores an option or a request on a NULL handle; a handle is cleaned up once.\<close>

definition curl_easy_setopt :: "nat \<Rightarrow> curlopt \<Rightarrow> 'z xhr_rt_scheme \<Rightarrow> 'z xhr_rt_scheme" where
  "curl_easy_setopt h opt w = (if h = 0 then w else w\<lparr>easy_opts := (easy_opts w)(h := easy_opts w h @ [opt])\<rparr>)"

definition curl_easy_cleanup :: "nat \<Rightarrow> 'z xhr_rt_scheme \<Rightarrow> 'z xhr_rt_scheme res" where
  "curl_easy_cleanup h w = (if \<not> easy_live w h then Inl DoubleFree
     else Inr (w\<lparr>easy_live := (easy_live w)(h := False)\<rparr>))"

definition ijXhrGet :: "jsval \<Rightarrow> 'z xhr_rt_scheme \<Rightarrow> nat \<times> 'z xhr_rt_scheme" where
  "ijXhrGet obj w = JS_GetOpaque2 obj ijjs_xhr_class_id w"

section \<open>Finalizer and events\<close>

definition xhr_values :: "IJJSXhr \<Rightarrow> jsval list" where
  "xhr_values x = xh_events x @
     [xh_status x, xh_status_text x, xh_url x, xh_headers x, xh_response x, xh_response_text x]"

definition ijXhrFinalizer :: "jsval \<Rightarrow> 'z xhr_rt_scheme \<Rightarrow> 'z xhr_rt_scheme res" where
  "ijXhrFinalizer val w =
     (let p = JS_GetOpaque val ijjs_xhr_class_id w in
      if p = 0 then Inr w
      else bindE (deref p w) (\<lambda>w.
        let x = xhrs w p in
        bindE (if xh_curl_h x = 0 then Inr w
               else curl_easy_cleanup (xh_curl_h x)
                 (if xh_async x then w\<lparr>easies := removeAll (xh_curl_h x) (easies w)\<rparr> else w)) (\<lambda>w.
        bindE (js_free (xh_raw x) w) (\<lambda>w.
        bindE (forE JS_FreeValueRT (xhr_values x) w) (je_free p)))))"

definition ijXhrMark :: "jsval \<Rightarrow> 'z xhr_rt_scheme \<Rightarrow> jsval list" where
  "ijXhrMark val w =
     (let p = JS_GetOpaque val ijjs_xhr_class_id w in if p = 0 then [] else xhr_values (xhrs w p))"

definition xhrMaybeEmitEvent ::
    "jsenv \<Rightarrow> nat \<Rightarrow> nat \<Rightarrow> jsval \<Rightarrow> 'z xhr_rt_scheme \<Rightarrow> 'z xhr_rt_scheme res" where
  "xhrMaybeEmitEvent E p event arg w =
     bindE (deref p w) (\<lambda>w.
     let event_func = xh_events (xhrs w p) ! event in
     if \<not> JS_IsFunction event_func w then JS_FreeValue arg w
     else
       bindE (JS_Call E event_func [arg] (JS_DupValue event_func w)) (\<lambda>(ret, w).
       bindE (if JS_IsException ret then ijDumpError E w else Inr w) (\<lambda>w.
       bindE (JS_FreeValue ret w) (\<lambda>w.
       bindE (JS_FreeValue event_func w) (JS_FreeValue arg)))))"

section \<open>Callbacks of libcurl\<close>

definition curlDoneCb ::
    "jsenv \<Rightarrow> xhrenv \<Rightarrow> int \<Rightarrow> nat \<Rightarrow> 'z xhr_rt_scheme \<Rightarrow> 'z xhr_rt_scheme res" where
  "curlDoneCb E X result p w =
     bindE (CHECK (p \<noteq> 0) w) (\<lambda>w.
     bindE (deref p w) (\<lambda>w.
     let w = (case effective_url X (xh_curl_h (xhrs w p)) of
           Some u \<Rightarrow> xh_upd p (\<lambda>x. x\<lparr>xh_url := JS_Str u\<rparr>) w | None \<Rightarrow> w);
         w = xh_upd p (\<lambda>x. x\<lparr>xh_slist := [], xh_ready_state := XHR_RSTATE_DONE\<rparr>) w in
     bindE (xhrMaybeEmitEvent E p XHR_EVENT_READY_STATE_CHANGED JS_UNDEFINED w) (\<lambda>w.
     bindE (if result = CURLE_OPERATION_TIMEDOUT
            then xhrMaybeEmitEvent E p XHR_EVENT_TIMEOUT JS_UNDEFINED w else Inr w) (\<lambda>w.
     bindE (xhrMaybeEmitEvent E p XHR_EVENT_LOAD_END JS_UNDEFINED w) (\<lambda>w.
     if result \<noteq> CURLE_OPERATION_TIMEDOUT
     then xhrMaybeEmitEvent E p (if result \<noteq> 0 then XHR_EVENT_ERROR else XHR_EVENT_LOAD) JS_UNDEFINED w
     else Inr w)))))"

definition curlmDoneCb ::
    "jsenv \<Rightarrow> xhrenv \<Rightarrow> nat \<Rightarrow> int \<Rightarrow> nat \<Rightarrow> 'z xhr_rt_scheme \<Rightarrow> 'z xhr_rt_scheme res" where
  "curlmDoneCb E X easy_handle result p w =
     bindE (CHECK (p \<noteq> 0) w) (\<lambda>w.
     bindE (deref p w) (\<lambda>w.
     bindE (CHECK (xh_curl_h (xhrs w p) = easy_handle) w) (\<lambda>w.
     bindE (curlDoneCb E X result p w) (\<lambda>w. Inr (xh_upd p (\<lambda>x. x\<lparr>xh_curl_h := 0\<rparr>) w)))))"

definition curlmDataCb ::
    "jsenv \<Rightarrow> vmenv \<Rightarrow> string \<Rightarrow> nat \<Rightarrow> 'z xhr_rt_scheme \<Rightarrow> (int \<times> 'z xhr_rt_scheme) res" where
  "curlmDataCb E V ptr p w =
     bindE (CHECK (p \<noteq> 0) w) (\<lambda>w.
     bindE (deref p w) (\<lambda>w.
     bindE (if xh_ready_state (xhrs w p) = XHR_RSTATE_HEADERS_RECEIVED
            then xhrMaybeEmitEvent E p XHR_EVENT_READY_STATE_CHANGED JS_UNDEFINED
                   (xh_upd p (\<lambda>x. x\<lparr>xh_ready_state := XHR_RSTATE_LOADING\<rparr>) w)
            else Inr w) (\<lambda>w.
     case dbuf_put V (xh_bbuf (xhrs w p)) ptr of (r, b) \<Rightarrow>
     Inr (if r \<noteq> 0 then wrap64 (-1) else int (length ptr), xh_upd p (\<lambda>x. x\<lparr>xh_bbuf := b\<rparr>) w))))"

definition tolower :: "char \<Rightarrow> char" where
  "tolower c = (if 65 \<le> (of_char c :: nat) \<and> (of_char c :: nat) \<le> 90 then char_of (of_char c + 32 :: nat) else c)"

definition c_str :: "string \<Rightarrow> string" where
  "c_str s = takeWhile (\<lambda>c. c \<noteq> CHR 0x00) s"

text \<open>A status line: a new response begins. The text after the first blank is kept, without the
  line end.\<close>

definition status_line ::
    "jsenv \<Rightarrow> string \<Rightarrow> nat \<Rightarrow> 'z xhr_rt_scheme \<Rightarrow> 'z xhr_rt_scheme res" where
  "status_line E ptr p w =
     bindE (if xh_hbuf (xhrs w p) = [] then xhrMaybeEmitEvent E p XHR_EVENT_LOAD_START JS_UNDEFINED w
            else Inr (xh_upd p (\<lambda>x. x\<lparr>xh_hbuf := []\<rparr>) w)) (\<lambda>w.
     bindE (js_free (xh_raw (xhrs w p)) w) (\<lambda>w.
     let w = xh_upd p (\<lambda>x. x\<lparr>xh_raw := 0\<rparr>) w in
     case strchr_idx ptr CHR '' '' of
       None \<Rightarrow> Inr w
     | Some i \<Rightarrow>
         (case js_malloc w of (q, w) \<Rightarrow>
          Inr (xh_upd p (\<lambda>x. x\<lparr>xh_raw := q,
            xh_raw_str := c_str (drop (Suc i) (ptr[length ptr - 2 := CHR 0x00]))\<rparr>) w))))"

text \<open>The empty line: the headers are complete unless this is a redirect. \<open>headers_complete\<close> is
  the state in which the handlers are called; the headers get their terminator after that.\<close>

definition headers_complete :: "int \<Rightarrow> nat \<Rightarrow> 'z xhr_rt_scheme \<Rightarrow> 'z xhr_rt_scheme" where
  "headers_complete code p w = xh_upd p (\<lambda>x. x\<lparr>xh_status_text := JS_Str (xh_raw_str x),
     xh_status := JS_NewInt32 code, xh_ready_state := XHR_RSTATE_HEADERS_RECEIVED\<rparr>) w"

definition empty_line ::
    "jsenv \<Rightarrow> vmenv \<Rightarrow> xhrenv \<Rightarrow> nat \<Rightarrow> 'z xhr_rt_scheme \<Rightarrow> 'z xhr_rt_scheme res" where
  "empty_line E V X p w =
     (let code = resp_code X (xh_curl_h (xhrs w p)) in
      if code > -1 \<and> code div 100 \<noteq> 3 then
        bindE (CHECK (xh_raw (xhrs w p) \<noteq> 0) w) (\<lambda>w.
        bindE (xhrMaybeEmitEvent E p XHR_EVENT_READY_STATE_CHANGED JS_UNDEFINED (headers_complete code p w)) (\<lambda>w.
        Inr (xh_upd p (\<lambda>x. x\<lparr>xh_hbuf := snd (dbuf_put V (xh_hbuf x) [CHR 0x00])\<rparr>) w)))
      else Inr w)"

definition header_line :: "vmenv \<Rightarrow> string \<Rightarrow> nat \<Rightarrow> 'z xhr_rt_scheme \<Rightarrow> int \<times> 'z xhr_rt_scheme" where
  "header_line V ptr p w = (case strchr_idx ptr CHR '':'' of
     None \<Rightarrow> (int (length ptr), w)
   | Some i \<Rightarrow>
       (case dbuf_put V (xh_hbuf (xhrs w p)) (map tolower (take i ptr) @ drop i ptr) of (r, b) \<Rightarrow>
        (if r \<noteq> 0 then wrap64 (-1) else int (length ptr), xh_upd p (\<lambda>x. x\<lparr>xh_hbuf := b\<rparr>) w)))"

definition curlmHeaderCb ::
    "jsenv \<Rightarrow> vmenv \<Rightarrow> xhrenv \<Rightarrow> string \<Rightarrow> nat \<Rightarrow> 'z xhr_rt_scheme \<Rightarrow> (int \<times> 'z xhr_rt_scheme) res" where
  "curlmHeaderCb E V X ptr p w =
     bindE (CHECK (p \<noteq> 0) w) (\<lambda>w.
     bindE (deref p w) (\<lambda>w.
     if is_prefix ''HTTP/'' ptr then bindE (status_line E ptr p w) (\<lambda>w. Inr (int (length ptr), w))
     else if is_prefix [CHR 0x0D, CHR 0x0A] ptr then bindE (empty_line E V X p w) (\<lambda>w. Inr (int (length ptr), w))
     else Inr (header_line V ptr p w)))"

definition curlmProcessCb ::
    "jsenv \<Rightarrow> xhrenv \<Rightarrow> int \<Rightarrow> int \<Rightarrow> nat \<Rightarrow> 'z xhr_rt_scheme \<Rightarrow> 'z xhr_rt_scheme res" where
  "curlmProcessCb E X dltotal dlnow p w =
     bindE (CHECK (p \<noteq> 0) w) (\<lambda>w.
     bindE (deref p w) (\<lambda>w.
     if xh_ready_state (xhrs w p) = XHR_RSTATE_LOADING
     then xhrMaybeEmitEvent E p XHR_EVENT_PROGRESS
            (JS_Object [(''lengthComputable'', JS_Bool (length_known X (xh_curl_h (xhrs w p)))),
               (''loaded'', JS_Int dlnow), (''total'', JS_Int dltotal)]) w
     else Inr w))"

section \<open>The object\<close>

definition new_xhr :: "nat \<Rightarrow> IJJSXhr" where
  "new_xhr h = \<lparr>xh_events = replicate XHR_EVENT_MAX JS_UNDEFINED, xh_curl_h = h, xh_slist = [],
     xh_sent = False, xh_async = True, xh_timeout = 0, xh_rtype = XHR_RTYPE_DEFAULT,
     xh_ready_state = XHR_RSTATE_UNSENT, xh_raw = 0, xh_raw_str = [], xh_status = JS_UNDEFINED,
     xh_status_text = JS_UNDEFINED, xh_url = JS_NULL, xh_headers = JS_NULL, xh_response = JS_NULL,
     xh_response_text = JS_NULL, xh_hbuf = [], xh_bbuf = []\<rparr>"

definition ijXhrConstructor ::
    "curlenv \<Rightarrow> xhrenv \<Rightarrow> nat \<Rightarrow> 'z xhr_rt_scheme \<Rightarrow> (jsval \<times> 'z xhr_rt_scheme) res" where
  "ijXhrConstructor C X qrt w = (case JS_NewObjectClass ijjs_xhr_class_id w of (obj, w) \<Rightarrow>
     if JS_IsException obj then Inr (obj, w)
     else case je_calloc w of (p, w) \<Rightarrow>
       if p = 0 then bindE (JS_FreeValue obj w) (\<lambda>w. Inr (JS_EXCEPTION, w))
       else bindE (ijGetCurlm C qrt w) (\<lambda>w.
         let h = curl_easy_init X;
             w = (if h = 0 then w else w\<lparr>easy_live := (easy_live w)(h := True), easy_opts := (easy_opts w)(h := [])\<rparr>)
         in Inr (obj, JS_SetOpaque obj p (w\<lparr>xhrs := (xhrs w)(p := new_xhr h)\<rparr>))))"

text \<open>Every method begins by fetching the structure.\<close>

definition with_xhr ::
    "jsval \<Rightarrow> (nat \<Rightarrow> 'z xhr_rt_scheme \<Rightarrow> (jsval \<times> 'z xhr_rt_scheme) res) \<Rightarrow> 'z xhr_rt_scheme
       \<Rightarrow> (jsval \<times> 'z xhr_rt_scheme) res" where
  "with_xhr this f w = (case ijXhrGet this w of (p, w) \<Rightarrow>
     if p = 0 then Inr (JS_EXCEPTION, w) else bindE (deref p w) (f p))"

definition ijXhrEventGet :: "nat \<Rightarrow> jsval \<Rightarrow> 'z xhr_rt_scheme \<Rightarrow> (jsval \<times> 'z xhr_rt_scheme) res" where
  "ijXhrEventGet magic this = with_xhr this (\<lambda>p w.
     let v = xh_events (xhrs w p) ! magic in Inr (v, JS_DupValue v w))"

definition ijXhrEventSet ::
    "nat \<Rightarrow> jsval \<Rightarrow> jsval \<Rightarrow> 'z xhr_rt_scheme \<Rightarrow> (jsval \<times> 'z xhr_rt_scheme) res" where
  "ijXhrEventSet magic this value = with_xhr this (\<lambda>p w.
     if JS_IsFunction value w \<or> JS_IsUndefined value \<or> value = JS_NULL
     then bindE (JS_FreeValue (xh_events (xhrs w p) ! magic) w) (\<lambda>w.
          Inr (JS_UNDEFINED, xh_upd p (\<lambda>x. x\<lparr>xh_events := (xh_events x)[magic := value]\<rparr>)
                 (JS_DupValue value w)))
     else Inr (JS_UNDEFINED, w))"

definition ijXhrReadystateGet :: "jsval \<Rightarrow> 'z xhr_rt_scheme \<Rightarrow> (jsval \<times> 'z xhr_rt_scheme) res" where
  "ijXhrReadystateGet this = with_xhr this (\<lambda>p w. Inr (JS_NewInt32 (int (xh_ready_state (xhrs w p))), w))"

text \<open>The value of a body by its type; JSON is parsed from the buffer with a terminator appended to
  it.\<close>

definition ijXhrResponseGet ::
    "vmenv \<Rightarrow> xhrenv \<Rightarrow> jsval \<Rightarrow> 'z xhr_rt_scheme \<Rightarrow> (jsval \<times> 'z xhr_rt_scheme) res" where
  "ijXhrResponseGet V X this = with_xhr this (\<lambda>p w.
     if xh_bbuf (xhrs w p) = [] then Inr (JS_NULL, w)
     else
       let w = (if xh_response (xhrs w p) \<noteq> JS_NULL then w
         else case xh_rtype (xhrs w p) of
           XHR_RTYPE_DEFAULT \<Rightarrow> xh_upd p (\<lambda>x. x\<lparr>xh_response := JS_Str (xh_bbuf x)\<rparr>) w
         | XHR_RTYPE_TEXT \<Rightarrow> xh_upd p (\<lambda>x. x\<lparr>xh_response := JS_Str (xh_bbuf x)\<rparr>) w
         | XHR_RTYPE_ARRAY_BUFFER \<Rightarrow> xh_upd p (\<lambda>x. x\<lparr>xh_response := JS_ArrayBuffer (xh_bbuf x)\<rparr>) w
         | XHR_RTYPE_JSON \<Rightarrow>
             (let b = snd (dbuf_put V (xh_bbuf (xhrs w p)) [CHR 0x00]);
                  w = xh_upd p (\<lambda>x. x\<lparr>xh_bbuf := b\<rparr>) w
              in case (case parse_json X b of Inl e \<Rightarrow> JS_Throw e w | Inr v \<Rightarrow> (v, JS_DupValue v w)) of (v, w) \<Rightarrow>
                 xh_upd p (\<lambda>x. x\<lparr>xh_response := v\<rparr>) w));
           v = xh_response (xhrs w p)
       in Inr (v, JS_DupValue v w))"

definition ijXhrResponsetextGet :: "jsval \<Rightarrow> 'z xhr_rt_scheme \<Rightarrow> (jsval \<times> 'z xhr_rt_scheme) res" where
  "ijXhrResponsetextGet this = with_xhr this (\<lambda>p w.
     if xh_bbuf (xhrs w p) = [] then Inr (JS_NULL, w)
     else
       let w = (if xh_response_text (xhrs w p) \<noteq> JS_NULL then w
                else xh_upd p (\<lambda>x. x\<lparr>xh_response_text := JS_Str (xh_bbuf x)\<rparr>) w);
           v = xh_response_text (xhrs w p)
       in Inr (v, JS_DupValue v w))"

fun rtype_name :: "xhr_rtype \<Rightarrow> string" where
  "rtype_name XHR_RTYPE_DEFAULT = []"
| "rtype_name XHR_RTYPE_TEXT = ''text''"
| "rtype_name XHR_RTYPE_ARRAY_BUFFER = ''arraybuffer''"
| "rtype_name XHR_RTYPE_JSON = ''json''"

definition ijXhrResponsetypeGet :: "jsval \<Rightarrow> 'z xhr_rt_scheme \<Rightarrow> (jsval \<times> 'z xhr_rt_scheme) res" where
  "ijXhrResponsetypeGet this = with_xhr this (\<lambda>p w. Inr (JS_Str (rtype_name (xh_rtype (xhrs w p))), w))"

definition set_rtype :: "string \<Rightarrow> xhr_rtype \<Rightarrow> xhr_rtype" where
  "set_rtype v old =
     (if is_prefix ''arraybuffer'' v then XHR_RTYPE_ARRAY_BUFFER
      else if is_prefix ''json'' v then XHR_RTYPE_JSON
      else if is_prefix ''text'' v then XHR_RTYPE_TEXT
      else if v = [] then XHR_RTYPE_DEFAULT else old)"

text \<open>A late change throws, and is made all the same.\<close>

definition ijXhrResponsetypeSet ::
    "jsenv \<Rightarrow> jsval \<Rightarrow> jsval \<Rightarrow> 'z xhr_rt_scheme \<Rightarrow> (jsval \<times> 'z xhr_rt_scheme) res" where
  "ijXhrResponsetypeSet E this value = with_xhr this (\<lambda>p w.
     let w = (if XHR_RSTATE_LOADING \<le> xh_ready_state (xhrs w p)
              then snd (JS_Throw (JS_Str ''InvalidStateError'') w) else w) in
     case JS_ToCString E value w of (q, v, w) \<Rightarrow>
     if q = 0 then Inr (JS_UNDEFINED, w)
     else bindE (JS_FreeCString (q, 0) (xh_upd p (\<lambda>x. x\<lparr>xh_rtype := set_rtype v (xh_rtype x)\<rparr>) w))
            (\<lambda>w. Inr (JS_UNDEFINED, w)))"

definition xhr_field ::
    "(IJJSXhr \<Rightarrow> jsval) \<Rightarrow> jsval \<Rightarrow> 'z xhr_rt_scheme \<Rightarrow> (jsval \<times> 'z xhr_rt_scheme) res" where
  "xhr_field f this = with_xhr this (\<lambda>p w. let v = f (xhrs w p) in Inr (v, JS_DupValue v w))"

definition ijXhrResponseurlGet :: "jsval \<Rightarrow> 'z xhr_rt_scheme \<Rightarrow> (jsval \<times> 'z xhr_rt_scheme) res" where
  "ijXhrResponseurlGet = xhr_field xh_url"

definition ijXhrStatusGet :: "jsval \<Rightarrow> 'z xhr_rt_scheme \<Rightarrow> (jsval \<times> 'z xhr_rt_scheme) res" where
  "ijXhrStatusGet = xhr_field xh_status"

definition ijXhrStatustextGet :: "jsval \<Rightarrow> 'z xhr_rt_scheme \<Rightarrow> (jsval \<times> 'z xhr_rt_scheme) res" where
  "ijXhrStatustextGet = xhr_field xh_status_text"

definition ijXhrTimeoutGet :: "jsval \<Rightarrow> 'z xhr_rt_scheme \<Rightarrow> (jsval \<times> 'z xhr_rt_scheme) res" where
  "ijXhrTimeoutGet this = with_xhr this (\<lambda>p w. Inr (JS_NewInt32 (xh_timeout (xhrs w p)), w))"

definition ijXhrTimeoutSet ::
    "jsenv \<Rightarrow> jsval \<Rightarrow> jsval \<Rightarrow> 'z xhr_rt_scheme \<Rightarrow> (jsval \<times> 'z xhr_rt_scheme) res" where
  "ijXhrTimeoutSet E this value = with_xhr this (\<lambda>p w. case JS_ToInt32 E value w of
     (None, w) \<Rightarrow> Inr (JS_EXCEPTION, w)
   | (Some timeout, w) \<Rightarrow>
       (let w = xh_upd p (\<lambda>x. x\<lparr>xh_timeout := wrap64 timeout\<rparr>) w in
        Inr (JS_UNDEFINED, if xh_sent (xhrs w p) then w
          else curl_easy_setopt (xh_curl_h (xhrs w p)) (OptTimeout timeout) w)))"

definition ijXhrAbort :: "jsenv \<Rightarrow> jsval \<Rightarrow> 'z xhr_rt_scheme \<Rightarrow> (jsval \<times> 'z xhr_rt_scheme) res" where
  "ijXhrAbort E this = with_xhr this (\<lambda>p w.
     let x = xhrs w p; h = xh_curl_h x in
     if h = 0 then Inr (JS_UNDEFINED, w)
     else
       bindE (curl_easy_cleanup h (w\<lparr>easies := removeAll h (easies w)\<rparr>)) (\<lambda>w.
       let w = xh_upd p (\<lambda>x. x\<lparr>xh_curl_h := 0, xh_ready_state := XHR_RSTATE_UNSENT\<rparr>) w in
       bindE (JS_FreeValue (xh_status x) w) (\<lambda>w.
       bindE (JS_FreeValue (xh_status_text x) (xh_upd p (\<lambda>x. x\<lparr>xh_status := JS_NewInt32 0\<rparr>) w)) (\<lambda>w.
       bindE (xhrMaybeEmitEvent E p XHR_EVENT_ABORT JS_UNDEFINED
         (xh_upd p (\<lambda>x. x\<lparr>xh_status_text := JS_Str []\<rparr>) w)) (\<lambda>w. Inr (JS_UNDEFINED, w))))))"

section \<open>Response headers\<close>

definition ijXhrGetAllResponseHeaders :: "jsval \<Rightarrow> 'z xhr_rt_scheme \<Rightarrow> (jsval \<times> 'z xhr_rt_scheme) res" where
  "ijXhrGetAllResponseHeaders this = with_xhr this (\<lambda>p w.
     if xh_hbuf (xhrs w p) = [] then Inr (JS_NULL, w)
     else
       let w = (if xh_headers (xhrs w p) \<noteq> JS_NULL then w
                else xh_upd p (\<lambda>x. x\<lparr>xh_headers := JS_Str (butlast (xh_hbuf x))\<rparr>) w);
           v = xh_headers (xhrs w p)
       in Inr (v, JS_DupValue v w))"

text \<open>strstr, from the first match on.\<close>

fun strstr :: "string \<Rightarrow> string \<Rightarrow> string option" where
  "strstr [] needle = (if needle = [] then Some [] else None)"
| "strstr (c # cs) needle = (if is_prefix needle (c # cs) then Some (c # cs) else strstr cs needle)"

text \<open>The value on a line: what follows the first colon before the line end, without leading
  blanks, and the separator.\<close>

definition line_value :: "string \<Rightarrow> nat \<Rightarrow> string" where
  "line_value tmp p = (case strchr_idx (take p tmp) CHR '':'' of
     None \<Rightarrow> []
   | Some i \<Rightarrow>
       (let v = dropWhile (\<lambda>c. c = CHR '' '') (drop (Suc i) (take p tmp))
        in if v = [] then [] else v @ '', ''))"

partial_function (option) header_loop :: "string \<Rightarrow> string \<Rightarrow> string \<Rightarrow> string option" where
  "header_loop name ptr r = (case strstr ptr name of
     None \<Rightarrow> Some r
   | Some tmp \<Rightarrow>
       (case strchr_idx tmp CHR 0x0D of
          None \<Rightarrow> Some r
        | Some p \<Rightarrow> header_loop name (drop p tmp) (r @ line_value tmp p)))"

text \<open>None is a call that does not return. The search reads up to a NUL byte.\<close>

definition ijXhrGetResponseHeader ::
    "jsenv \<Rightarrow> jsval \<Rightarrow> jsval list \<Rightarrow> 'z xhr_rt_scheme \<Rightarrow> (jsval \<times> 'z xhr_rt_scheme) res option" where
  "ijXhrGetResponseHeader E this argv w = (case ijXhrGet this w of (p, w) \<Rightarrow>
     if p = 0 then Some (Inr (JS_EXCEPTION, w))
     else case deref p w of Inl c \<Rightarrow> Some (Inl c)
     | Inr w \<Rightarrow>
       let hbuf = xh_hbuf (xhrs w p) in
       if hbuf = [] then Some (Inr (JS_NULL, w))
       else case JS_ToCString E (argn 0 argv) w of (q, name, w) \<Rightarrow>
         if q = 0 then Some (Inr (JS_EXCEPTION, w))
         else if CHR 0x00 \<notin> set hbuf then Some (Inl UninitRead)
         else map_option (\<lambda>r. bindE (JS_FreeCString (q, 0) w) (\<lambda>w.
                Inr (if r = [] then JS_NULL else JS_Str (take (length r - 2) r), w)))
              (header_loop (map tolower name) (c_str hbuf) []))"

section \<open>Requests\<close>

definition reset_xhr :: "IJJSXhr \<Rightarrow> IJJSXhr" where
  "reset_xhr x = x\<lparr>xh_hbuf := [], xh_bbuf := [], xh_url := JS_NULL, xh_headers := JS_NULL,
     xh_response := JS_NULL, xh_response_text := JS_NULL, xh_ready_state := XHR_RSTATE_UNSENT, xh_raw := 0,
     xh_status := JS_UNDEFINED, xh_status_text := JS_UNDEFINED, xh_slist := [], xh_sent := False,
     xh_async := True, xh_events := replicate XHR_EVENT_MAX JS_UNDEFINED\<rparr>"

definition ijXhrOpen ::
    "jsenv \<Rightarrow> jsval \<Rightarrow> jsval list \<Rightarrow> 'z xhr_rt_scheme \<Rightarrow> (jsval \<times> 'z xhr_rt_scheme) res" where
  "ijXhrOpen E this argv = with_xhr this (\<lambda>p w.
     bindE (if xh_ready_state (xhrs w p) = XHR_RSTATE_DONE
            then bindE (js_free (xh_raw (xhrs w p)) w) (\<lambda>w.
                 bindE (forE JS_FreeValue (xhr_values (xhrs w p)) w) (\<lambda>w. Inr (xh_upd p reset_xhr w)))
            else Inr w) (\<lambda>w.
     if xh_ready_state (xhrs w p) < XHR_RSTATE_OPENED then
       (case JS_ToCString E (argn 0 argv) w of (m, method_str, w) \<Rightarrow>
        case JS_ToCString E (argn 1 argv) w of (u, url_str, w) \<Rightarrow>
        let w = (if length argv = 3 then xh_upd p (\<lambda>x. x\<lparr>xh_async := JS_ToBool E (argn 2 argv)\<rparr>) w else w);
            h = xh_curl_h (xhrs w p) in
        if m = 0 then Inl NullDeref
        else
          let w = curl_easy_setopt h (if is_prefix ''head'' (map tolower method_str) then OptNobody
                    else OptMethod method_str) w;
              w = (if u = 0 then w else curl_easy_setopt h (OptUrl url_str) w) in
          bindE (JS_FreeCString (m, 0) w) (\<lambda>w.
          bindE (JS_FreeCString (u, 0) w) (\<lambda>w.
          bindE (xhrMaybeEmitEvent E p XHR_EVENT_READY_STATE_CHANGED JS_UNDEFINED
                   (xh_upd p (\<lambda>x. x\<lparr>xh_ready_state := XHR_RSTATE_OPENED\<rparr>) w))
            (\<lambda>w. Inr (JS_UNDEFINED, w)))))
     else Inr (JS_UNDEFINED, w)))"

definition ijXhrOverridemimetype :: "'z xhr_rt_scheme \<Rightarrow> jsval \<times> 'z xhr_rt_scheme" where
  "ijXhrOverridemimetype w = JS_ThrowTypeError ''unsupported'' w"

text \<open>A blocking transfer makes the callbacks one after the other; a callback that does not take
  what it is given ends it with CURLE\_WRITE\_ERROR.\<close>

fun xhr_event ::
    "jsenv \<Rightarrow> vmenv \<Rightarrow> xhrenv \<Rightarrow> nat \<Rightarrow> xhr_ev \<Rightarrow> 'z xhr_rt_scheme \<Rightarrow> (bool \<times> 'z xhr_rt_scheme) res" where
  "xhr_event E V X p (Header s) w = bindE (curlmHeaderCb E V X s p w) (\<lambda>(n, w). Inr (n = int (length s), w))"
| "xhr_event E V X p (Data s) w = bindE (curlmDataCb E V s p w) (\<lambda>(n, w). Inr (n = int (length s), w))"
| "xhr_event E V X p (Progress t n) w = bindE (curlmProcessCb E X t n p w) (\<lambda>w. Inr (True, w))"

fun xhr_transfer ::
    "jsenv \<Rightarrow> vmenv \<Rightarrow> xhrenv \<Rightarrow> nat \<Rightarrow> xhr_ev list \<Rightarrow> int \<Rightarrow> 'z xhr_rt_scheme \<Rightarrow> (int \<times> 'z xhr_rt_scheme) res" where
  "xhr_transfer E V X p [] res w = Inr (res, w)"
| "xhr_transfer E V X p (e # es) res w = bindE (xhr_event E V X p e w) (\<lambda>(ok, w).
     if ok then xhr_transfer E V X p es res w else Inr (23, w))"

definition ijXhrSend ::
    "jsenv \<Rightarrow> vmenv \<Rightarrow> xhrenv \<Rightarrow> jsval \<Rightarrow> jsval list \<Rightarrow> 'z xhr_rt_scheme \<Rightarrow> (jsval \<times> 'z xhr_rt_scheme) res" where
  "ijXhrSend E V X this argv = with_xhr this (\<lambda>p w.
     if xh_sent (xhrs w p) then Inr (JS_UNDEFINED, w)
     else
       let h = xh_curl_h (xhrs w p) in
       bindE (if JS_IsString (argn 0 argv)
              then (case JS_ToCString E (argn 0 argv) w of (b, body, w) \<Rightarrow>
                if b = 0 then Inr w else JS_FreeCString (b, 0) (curl_easy_setopt h (OptBody body) w))
              else Inr w) (\<lambda>w.
       let w = (if xh_slist (xhrs w p) = [] then w
                else curl_easy_setopt h (OptHeaders (xh_slist (xhrs w p))) w) in
       bindE (if xh_async (xhrs w p)
              then Inr (if h = 0 then w else w\<lparr>easies := easies w @ [h]\<rparr>)
              else bindE (if h = 0 then Inr (CURLE_BAD_FUNCTION_ARGUMENT, w)
                     else case perform X h of (es, res) \<Rightarrow> xhr_transfer E V X p es res w)
                   (\<lambda>(result, w). curlDoneCb E X result p w)) (\<lambda>w.
       Inr (JS_UNDEFINED, xh_upd p (\<lambda>x. x\<lparr>xh_sent := True\<rparr>) w))))"

definition ijXhrSetRequestHeader ::
    "jsenv \<Rightarrow> xhrenv \<Rightarrow> jsval \<Rightarrow> jsval list \<Rightarrow> 'z xhr_rt_scheme \<Rightarrow> (jsval \<times> 'z xhr_rt_scheme) res" where
  "ijXhrSetRequestHeader E X this argv = with_xhr this (\<lambda>p w.
     if \<not> JS_IsString (argn 0 argv) then Inr (JS_UNDEFINED, w)
     else case JS_ToCString E (argn 0 argv) w of (n, h_name, w) \<Rightarrow>
       case (if JS_IsUndefined (argn 1 argv) then (0, [], w) else JS_ToCString E (argn 1 argv) w) of (v, h_value, w) \<Rightarrow>
       if n = 0 then Inl NullDeref
       else
         let buf = take (CURL_MAX_HTTP_HEADER - 1) (if v \<noteq> 0 then h_name @ '': '' @ h_value else h_name @ '';'') in
         bindE (JS_FreeCString (n, 0) w) (\<lambda>w.
         bindE (JS_FreeCString (v, 0) w) (\<lambda>w.
         Inr (JS_UNDEFINED,
           if slist_append_ok X then xh_upd p (\<lambda>x. x\<lparr>xh_slist := xh_slist x @ [buf]\<rparr>) w else w))))"

section \<open>Searching a header\<close>

lemma strstr_suffix: "strstr s n = Some t \<Longrightarrow> (\<exists>pre. s = pre @ t) \<and> is_prefix n t"
proof (induction s)
  case (Cons c cs)
  show ?case
  proof (cases "is_prefix n (c # cs)")
    case True
    then show ?thesis using Cons.prems by (auto intro: exI [of _ "[]"])
  next
    case False
    then obtain pre where "cs = pre @ t" "is_prefix n t" using Cons by auto
    then show ?thesis by (auto intro: exI [of _ "c # pre"])
  qed
qed (auto split: if_splits)

lemma header_loop_ends:
  assumes "name \<noteq> []" "hd name \<noteq> CHR 0x0D"
  shows "\<exists>r'. header_loop name ptr r = Some r'"
proof (induction ptr arbitrary: r rule: length_induct)
  case (1 ptr)
  show ?case
  proof (cases "strstr ptr name")
    case (Some tmp)
    then obtain pre where t: "ptr = pre @ tmp" "is_prefix name tmp" using strstr_suffix by blast
    show ?thesis
    proof (cases "strchr_idx tmp CHR 0x0D")
      case p: (Some p)
      have "tmp \<noteq> [] \<and> hd tmp = hd name" using t(2) assms(1) by (auto simp: is_prefix_iff)
      then have "p \<noteq> 0" using strchr_idx_Some [OF p] assms(2) by (cases tmp; cases p) auto
      moreover have "p < length tmp" using strchr_idx_Some [OF p] by simp
      ultimately have "length (drop p tmp) < length ptr" using t(1) by simp
      then obtain r' where "header_loop name (drop p tmp) (r @ line_value tmp p) = Some r'" using 1 by blast
      then show ?thesis using Some p by (subst header_loop.simps) simp
    qed (use Some in \<open>subst header_loop.simps, simp\<close>)
  qed (subst header_loop.simps, simp)
qed

lemma header_loop_empty:
  assumes "header_loop name ptr r = Some r'" shows "name = [] \<longrightarrow> CHR 0x0D \<notin> set ptr"
proof (rule header_loop.raw_induct [OF _ assms], goal_cases)
  case (1 loop name ptr r r')
  show ?case
  proof (intro impI notI)
    assume n: "name = []" and c: "CHR 0x0D \<in> set ptr"
    then have "strstr ptr name = Some ptr" by (cases ptr) auto
    moreover obtain p where p: "strchr_idx ptr CHR 0x0D = Some p"
      using c strchr_idx_None [of ptr "CHR 0x0D"] by (cases "strchr_idx ptr CHR 0x0D") auto
    ultimately have "loop name (drop p ptr) (r @ line_value ptr p) = Some r'" using 1(2) by simp
    from 1(1) [OF this] have "CHR 0x0D \<notin> set (drop p ptr)" using n by simp
    moreover have "drop p ptr = CHR 0x0D # drop (Suc p) ptr"
      using strchr_idx_Some [OF p] by (metis Cons_nth_drop_Suc)
    ultimately show False by simp
  qed
qed

lemma tolower_CR: "tolower c = CHR 0x0D \<longleftrightarrow> c = CHR 0x0D"
proof (cases "65 \<le> (of_char c :: nat) \<and> (of_char c :: nat) \<le> 90")
  case True
  then have "(of_char (tolower c) :: nat) = of_char c + 32" by (simp add: tolower_def of_char_of)
  then have "(of_char (tolower c) :: nat) \<noteq> 13" "(of_char c :: nat) \<noteq> 13" using True by auto
  moreover have "(of_char (CHR 0x0D) :: nat) = 13" by simp
  ultimately show ?thesis by metis
qed (auto simp: tolower_def)

text \<open>C38. Looking a response header up returns for every name that is not empty and does not begin with a
  carriage return; for the empty name it never returns, once a header line has arrived: the search
  finds the line end it stands on again and again.\<close>

theorem header_search_ends:
  assumes "ijXhrGet this w = (p, w)" "p \<noteq> 0" "blk w p \<noteq> NoBlock" "CHR 0x00 \<in> set (xh_hbuf (xhrs w p))"
    and "to_cstr E a = Some name"
  shows "(name \<noteq> [] \<and> hd name \<noteq> CHR 0x0D \<longrightarrow> (\<exists>r. ijXhrGetResponseHeader E this [a] w = Some r)) \<and>
    (name = [] \<and> CHR 0x0D \<in> set (c_str (xh_hbuf (xhrs w p))) \<longrightarrow> ijXhrGetResponseHeader E this [a] w = None)"
proof -
  obtain w1 where c: "JS_ToCString E a w = (Suc (tick w), name, w1)"
    using assms(5) by (simp add: JS_ToCString_def)
  have g: "ijXhrGetResponseHeader E this [a] w = map_option (\<lambda>r. bindE (JS_FreeCString (Suc (tick w), 0) w1) (\<lambda>w.
      Inr (if r = [] then JS_NULL else JS_Str (take (length r - 2) r), w)))
      (header_loop (map tolower name) (c_str (xh_hbuf (xhrs w p))) [])"
    using assms(1-4) c by (auto simp: ijXhrGetResponseHeader_def deref_def argn_def Let_def)
  have "\<exists>r. header_loop (map tolower name) b [] = Some r" if "name \<noteq> []" "hd name \<noteq> CHR 0x0D" for b
    using that header_loop_ends [of "map tolower name" b "[]"] tolower_CR by (simp add: hd_map)
  moreover have "header_loop [] b [] = None" if "CHR 0x0D \<in> set b" for b
    using that header_loop_empty [of "[]" b "[]"] by (cases "header_loop [] b []") auto
  ultimately show ?thesis using g by (auto simp del: bindE_simps)
qed

section \<open>Events\<close>

text \<open>A request object in use: its structure is live, and its handlers are user functions or no
  functions.\<close>

definition xhr_live :: "nat \<Rightarrow> 'z xhr_rt_scheme \<Rightarrow> bool" where
  "xhr_live p w \<longleftrightarrow> p \<noteq> 0 \<and> blk w p = JeBlock \<and> fresh_blk w \<and> length (xh_events (xhrs w p)) = XHR_EVENT_MAX \<and>
     (\<forall>n. JS_Ref n \<in> set (xh_events (xhrs w p)) \<longrightarrow> funs w n \<in> {NotFun, UserFun})"

definition emitted :: "jsval list \<Rightarrow> (nat \<Rightarrow> jsfun) \<Rightarrow> nat list \<Rightarrow> (jsval \<times> jsval list) list" where
  "emitted hs fs evs = concat (map (\<lambda>ev. case hs ! ev of
     JS_Ref n \<Rightarrow> if fs n \<noteq> NotFun then [(JS_Ref n, [JS_UNDEFINED])] else [] | _ \<Rightarrow> []) evs)"

text \<open>One step of a request: its structure becomes \<open>x\<close>, and exactly the given events are emitted.\<close>

definition xstep :: "nat \<Rightarrow> IJJSXhr \<Rightarrow> nat list \<Rightarrow> 'z xhr_rt_scheme \<Rightarrow> 'z xhr_rt_scheme \<Rightarrow> bool" where
  "xstep p x evs w w' \<longleftrightarrow> xhr_live p w' \<and> xhrs w' p = x \<and> xh_events x = xh_events (xhrs w p) \<and>
     funs w' = funs w \<and> oom w' = oom w \<and>
     calls w' = calls w @ emitted (xh_events (xhrs w p)) (funs w) evs"

lemma xstep_trans:
  "xstep p x evs w w1 \<Longrightarrow> xstep p y evs' w1 w2 \<Longrightarrow> xstep p y (evs @ evs') w w2"
  by (auto simp: xstep_def emitted_def)

lemma xstep_live: "xstep p x evs w w' \<Longrightarrow> xhr_live p w'"
  by (simp add: xstep_def)

lemma xstep_upd:
  assumes "xhr_live p w" "xh_events (f (xhrs w p)) = xh_events (xhrs w p)"
  shows "xstep p (f (xhrs w p)) [] w (xh_upd p f w)"
  using assms by (auto simp: xstep_def xhr_live_def xh_upd_def emitted_def fresh_blk_def)

lemma xhrs_more: "rt.more w' = rt.more w \<Longrightarrow> xhrs w' = xhrs w"
  by (cases w; cases w') simp

lemma unobs_xstep:
  assumes "xhr_live p w" "unobs (w\<lparr>calls := calls w @ emitted (xh_events (xhrs w p)) (funs w) evs\<rparr>) w'"
  shows "xstep p (xhrs w p) evs w w'"
proof -
  have "xhrs w' = xhrs w" using assms(2) xhrs_more [of w' "w\<lparr>calls := calls w @ c\<rparr>" for c] by (auto simp: unobs_def)
  moreover have "fresh_blk w'" using unobs_fresh [OF assms(2)] assms(1) by (simp add: xhr_live_def fresh_blk_def)
  ultimately show ?thesis using assms by (auto simp: xstep_def xhr_live_def unobs_def)
qed

lemma call_then_free:
  assumes "fresh_blk w" "jsenv_ok E" "funs w f = UserFun"
  shows "\<exists>w'. bindE (JS_Call E (JS_Ref f) vs (JS_DupValue (JS_Ref f) w)) (\<lambda>(ret, w).
      bindE (if JS_IsException ret then ijDumpError E w else Inr w) (\<lambda>w.
      bindE (JS_FreeValue ret w) (JS_FreeValue (JS_Ref f)))) = Inr w' \<and>
    unobs (w\<lparr>calls := calls w @ [(JS_Ref f, vs)]\<rparr>) w'"
proof (cases "user_call E (JS_Ref f) vs")
  case (Inl e)
  let ?c = "w\<lparr>calls := calls w @ [(JS_Ref f, vs)]\<rparr>"
  let ?w = "w\<lparr>refs := inc_ref (JS_Ref f) (refs w), calls := calls w @ [(JS_Ref f, vs)], exn := Some e\<rparr>"
  have "e \<noteq> JS_JUNK" using Inl assms(2) by (auto simp: jsenv_ok_def)
  then obtain w1 where w1: "ijDumpError E ?w = Inr w1" "unobs ?w w1"
    using ijDumpError_unobs [of ?w E] assms(1,2) by (auto simp: fresh_blk_def)
  then have "unobs (?c\<lparr>refs := inc_ref (JS_Ref f) (refs ?c)\<rparr>) w1" by (simp add: unobs_def)
  from unobs_free [OF this] obtain w2 where "JS_FreeValue (JS_Ref f) w1 = Inr w2" "unobs ?c w2" by blast
  then show ?thesis
    using assms(3) Inl w1(1) by (simp add: JS_Throw_def JS_DupValue_eq del: JS_FreeValue.simps) (simp add: JS_IsException_def)
next
  case (Inr r)
  have r: "r \<noteq> JS_JUNK" "r \<noteq> JS_EXCEPTION" using Inr assms(2) by (auto simp: jsenv_ok_def)
  let ?w = "w\<lparr>calls := calls w @ [(JS_Ref f, vs)]\<rparr>"
  let ?f = "inc_ref (JS_Ref f) (refs w)"
  have "JS_FreeValue r (?w\<lparr>refs := inc_ref r ?f\<rparr>) = Inr (?w\<lparr>refs := ?f\<rparr>)"
    using JS_FreeValue_eq [OF owned_inc [where v = r and w = ?w and rf = ?f, OF r(1)]] by simp
  moreover have "JS_FreeValue (JS_Ref f) (?w\<lparr>refs := ?f\<rparr>) = Inr ?w"
    using JS_FreeValue_eq [OF owned_inc [where v = "JS_Ref f" and w = ?w and rf = "refs w"]] by simp
  ultimately show ?thesis
    using assms(3) Inr r by (simp add: JS_DupValue_eq del: JS_FreeValue.simps)
qed

lemma free_undefined: "JS_FreeValue JS_UNDEFINED = Inr"
  by (rule ext) simp

lemma bindE_Inr: "bindE m Inr = m"
  by (cases m) auto

lemma xhr_emit:
  assumes "xhr_live p w" "jsenv_ok E" "ev < XHR_EVENT_MAX"
  shows "\<exists>w'. xhrMaybeEmitEvent E p ev JS_UNDEFINED w = Inr w' \<and> xstep p (xhrs w p) [ev] w w'"
proof (cases "JS_IsFunction (xh_events (xhrs w p) ! ev) w")
  case True
  then obtain n where n: "xh_events (xhrs w p) ! ev = JS_Ref n" "funs w n \<noteq> NotFun"
    by (cases "xh_events (xhrs w p) ! ev") auto
  moreover have "JS_Ref n \<in> set (xh_events (xhrs w p))" using n(1) assms(1,3) by (metis nth_mem xhr_live_def)
  ultimately have u: "funs w n = UserFun" using assms(1) by (auto simp: xhr_live_def)
  have fr: "fresh_blk w" using assms(1) by (simp add: xhr_live_def)
  obtain w' where w': "bindE (JS_Call E (JS_Ref n) [JS_UNDEFINED] (JS_DupValue (JS_Ref n) w)) (\<lambda>(ret, w).
      bindE (if JS_IsException ret then ijDumpError E w else Inr w) (\<lambda>w.
      bindE (JS_FreeValue ret w) (JS_FreeValue (JS_Ref n)))) = Inr w'"
    "unobs (w\<lparr>calls := calls w @ [(JS_Ref n, [JS_UNDEFINED])]\<rparr>) w'"
    using call_then_free [OF fr assms(2) u, of "[JS_UNDEFINED]"] by (elim exE conjE) (rule that)
  have "emitted (xh_events (xhrs w p)) (funs w) [ev] = [(JS_Ref n, [JS_UNDEFINED])]" using n by (simp add: emitted_def)
  then have "xstep p (xhrs w p) [ev] w w'" using unobs_xstep [OF assms(1), of "[ev]" w'] w'(2) by simp
  moreover have "xhrMaybeEmitEvent E p ev JS_UNDEFINED w = Inr w'"
    using w'(1) n u assms(1)
    by (simp add: xhrMaybeEmitEvent_def deref_def xhr_live_def Let_def free_undefined bindE_Inr
        del: JS_FreeValue.simps JS_DupValue.simps JS_Call.simps)
  ultimately show ?thesis by blast
next
  case False
  then have "emitted (xh_events (xhrs w p)) (funs w) [ev] = []" by (auto simp: emitted_def split: jsval.splits)
  then show ?thesis
    using False assms(1) by (auto simp: xhrMaybeEmitEvent_def deref_def xhr_live_def Let_def xstep_def)
qed

section \<open>A response\<close>

lemma strchr_idx_first: "c \<notin> set a \<Longrightarrow> strchr_idx (a @ c # b) c = Some (length a)"
  by (induction a) auto

lemma c_str_stop: "CHR 0x00 \<notin> set s \<Longrightarrow> c_str (s @ CHR 0x00 # t) = s"
  by (induction s) (auto simp: c_str_def)

lemma xhr_p_old: "xhr_live p w \<Longrightarrow> p \<le> tick w"
  by (metis bkind.distinct(1) fresh_blk_def not_le xhr_live_def)

lemma xstep_malloc:
  assumes "xhr_live p w" "\<not> oom w (tick w)"
  shows "\<exists>w'. js_malloc w = (Suc (tick w), w') \<and> xstep p (xhrs w p) [] w w'"
  using assms xhr_p_old [OF assms(1)]
  by (auto simp: js_malloc_def xstep_def xhr_live_def emitted_def fresh_blk_def)

lemma live_deref: "xhr_live p w \<Longrightarrow> p \<noteq> 0 \<and> deref p w = Inr w"
  by (simp add: xhr_live_def deref_def)

lemma status_line_step:
  assumes "xhr_live p w" "jsenv_ok E" "\<forall>n. \<not> oom w n" "xh_hbuf (xhrs w p) = []" "xh_raw (xhrs w p) = 0"
    and "CHR '' '' \<notin> set ver" "CHR 0x00 \<notin> set reason"
  shows "\<exists>q w'. curlmHeaderCb E V X (''HTTP/'' @ ver @ '' '' @ reason @ [CHR 0x0D, CHR 0x0A]) p w =
      Inr (int (length (''HTTP/'' @ ver @ '' '' @ reason @ [CHR 0x0D, CHR 0x0A])), w') \<and> q \<noteq> 0 \<and>
    xstep p ((xhrs w p)\<lparr>xh_raw := q, xh_raw_str := reason\<rparr>) [XHR_EVENT_LOAD_START] w w'"
proof -
  let ?l = "(''HTTP/'' @ ver) @ CHR '' '' # reason @ [CHR 0x0D, CHR 0x0A]"
  obtain w1 where e: "xhrMaybeEmitEvent E p XHR_EVENT_LOAD_START JS_UNDEFINED w = Inr w1"
    "xstep p (xhrs w p) [XHR_EVENT_LOAD_START] w w1"
    using xhr_emit [OF assms(1,2), of XHR_EVENT_LOAD_START] by (auto simp: xhr_consts)
  have x1: "xhrs w1 p = xhrs w p" "xhr_live p w1" "oom w1 = oom w" using e(2) by (simp_all add: xstep_def)
  let ?u = "xh_upd p (\<lambda>x. x\<lparr>xh_raw := 0\<rparr>) w1"
  have "(xhrs w p)\<lparr>xh_raw := 0\<rparr> = xhrs w p" using assms(5) by (cases "xhrs w p") simp
  then have u: "xstep p (xhrs w p) [] w1 ?u"
    using xstep_upd [OF x1(2), of "\<lambda>x. x\<lparr>xh_raw := 0\<rparr>"] x1(1) by simp
  then obtain w2 where m: "js_malloc ?u = (Suc (tick ?u), w2)" "xstep p (xhrs w p) [] ?u w2"
    using xstep_malloc [of p ?u] assms(3) x1(3) by (auto simp: xstep_def)
  let ?f = "\<lambda>x. x\<lparr>xh_raw := Suc (tick ?u), xh_raw_str := reason\<rparr>"
  have "xstep p (?f (xhrs w p)) [] w2 (xh_upd p ?f w2)"
    using xstep_upd [OF xstep_live [OF m(2)], of ?f] m(2) by (simp add: xstep_def)
  from xstep_trans [OF e(2) xstep_trans [OF u xstep_trans [OF m(2) this]]]
  have st: "xstep p (?f (xhrs w p)) [XHR_EVENT_LOAD_START] w (xh_upd p ?f w2)" by simp
  have i: "strchr_idx ?l CHR '' '' = Some (length (''HTTP/'' @ ver))"
    by (rule strchr_idx_first) (use assms(6) in auto)
  have "drop (Suc (length (''HTTP/'' @ ver))) (?l[length ?l - 2 := CHR 0x00]) = reason @ [CHR 0x00, CHR 0x0A]"
    by (simp add: list_update_append)
  then have c: "c_str (drop (Suc (length (''HTTP/'' @ ver))) (?l[length ?l - 2 := CHR 0x00])) = reason"
    using c_str_stop [OF assms(7), of "[CHR 0x0A]"] by simp
  have "status_line E ?l p w = Inr (xh_upd p ?f w2)"
    unfolding status_line_def i option.case c using e(1) assms(4,5) x1(1) m(1)
    by (simp add: js_free_def free_block_def Let_def)
  then have "curlmHeaderCb E V X ?l p w = Inr (int (length ?l), xh_upd p ?f w2)"
    using live_deref [OF assms(1)] by (simp add: curlmHeaderCb_def)
  then show ?thesis using st by (intro exI [of _ "Suc (tick ?u)"] exI [of _ "xh_upd p ?f w2"]) simp
qed

text \<open>What the header buffer keeps of a line: its name in lower case.\<close>

definition header_ok :: "string \<Rightarrow> bool" where
  "header_ok h \<longleftrightarrow> CHR '':'' \<in> set h \<and> \<not> is_prefix ''HTTP/'' h \<and> \<not> is_prefix [CHR 0x0D, CHR 0x0A] h"

definition kept_line :: "string \<Rightarrow> string" where
  "kept_line h = map tolower (takeWhile (\<lambda>c. c \<noteq> CHR '':'') h) @ dropWhile (\<lambda>c. c \<noteq> CHR '':'') h"

lemma strchr_split:
  "c \<in> set s \<Longrightarrow> \<exists>i. strchr_idx s c = Some i \<and> take i s = takeWhile (\<lambda>d. d \<noteq> c) s \<and> drop i s = dropWhile (\<lambda>d. d \<noteq> c) s"
  by (induction s) auto

lemma header_step:
  assumes "xhr_live p w" "\<forall>n. room V n" "header_ok h"
  shows "\<exists>w'. curlmHeaderCb E V X h p w = Inr (int (length h), w') \<and>
    xstep p ((xhrs w p)\<lparr>xh_hbuf := xh_hbuf (xhrs w p) @ kept_line h\<rparr>) [] w w'"
proof -
  let ?f = "\<lambda>x. x\<lparr>xh_hbuf := xh_hbuf (xhrs w p) @ kept_line h\<rparr>"
  obtain i where "strchr_idx h CHR '':'' = Some i" "map tolower (take i h) @ drop i h = kept_line h"
    using strchr_split [of "CHR '':''" h] assms(3) by (auto simp: header_ok_def kept_line_def)
  then have "curlmHeaderCb E V X h p w = Inr (int (length h), xh_upd p ?f w)"
    using live_deref [OF assms(1)] assms(2,3)
    by (simp add: curlmHeaderCb_def header_line_def header_ok_def dbuf_put_def)
  then show ?thesis using xstep_upd [OF assms(1), of ?f] by auto
qed

lemma headers_run:
  assumes "xhr_live p w" "\<forall>n. room V n" "\<forall>h\<in>set hs. header_ok h"
  shows "\<exists>w'. xhr_transfer E V X p (map Header hs @ es) res w = xhr_transfer E V X p es res w' \<and>
    xstep p ((xhrs w p)\<lparr>xh_hbuf := xh_hbuf (xhrs w p) @ concat (map kept_line hs)\<rparr>) [] w w'"
  using assms(1,3)
proof (induction hs arbitrary: w)
  case Nil
  then show ?case by (auto simp: xstep_def emitted_def)
next
  case (Cons h hs)
  obtain w1 where 1: "curlmHeaderCb E V X h p w = Inr (int (length h), w1)"
    "xstep p ((xhrs w p)\<lparr>xh_hbuf := xh_hbuf (xhrs w p) @ kept_line h\<rparr>) [] w w1"
    using header_step [of p w V h E X, OF Cons.prems(1) assms(2)] Cons.prems(2) by auto
  obtain w2 where 2: "xhr_transfer E V X p (map Header hs @ es) res w1 = xhr_transfer E V X p es res w2"
    "xstep p ((xhrs w1 p)\<lparr>xh_hbuf := xh_hbuf (xhrs w1 p) @ concat (map kept_line hs)\<rparr>) [] w1 w2"
    using Cons.IH [OF xstep_live [OF 1(2)]] Cons.prems(2) by auto
  have "xhrs w1 p = (xhrs w p)\<lparr>xh_hbuf := xh_hbuf (xhrs w p) @ kept_line h\<rparr>" using 1(2) by (simp add: xstep_def)
  then show ?case using xstep_trans [OF 1(2) 2(2)] 1(1) 2(1) by auto
qed

lemma empty_line_step:
  assumes "xhr_live p w" "jsenv_ok E" "\<forall>n. room V n" "xh_raw (xhrs w p) \<noteq> 0"
    and "resp_code X (xh_curl_h (xhrs w p)) = code" "0 \<le> code" "code div 100 \<noteq> 3"
  shows "\<exists>w'. curlmHeaderCb E V X [CHR 0x0D, CHR 0x0A] p w = Inr (2, w') \<and>
    xstep p ((xhrs w p)\<lparr>xh_status_text := JS_Str (xh_raw_str (xhrs w p)), xh_status := JS_NewInt32 code,
      xh_ready_state := XHR_RSTATE_HEADERS_RECEIVED, xh_hbuf := xh_hbuf (xhrs w p) @ [CHR 0x00]\<rparr>)
      [XHR_EVENT_READY_STATE_CHANGED] w w'"
proof -
  let ?f = "\<lambda>x. x\<lparr>xh_status_text := JS_Str (xh_raw_str x), xh_status := JS_NewInt32 code,
    xh_ready_state := XHR_RSTATE_HEADERS_RECEIVED\<rparr>"
  let ?h = "headers_complete code p w"
  have h: "xstep p (?f (xhrs w p)) [] w ?h" using xstep_upd [OF assms(1), of ?f] by (simp add: headers_complete_def)
  obtain w1 where e: "xhrMaybeEmitEvent E p XHR_EVENT_READY_STATE_CHANGED JS_UNDEFINED ?h = Inr w1"
    "xstep p (xhrs ?h p) [XHR_EVENT_READY_STATE_CHANGED] ?h w1"
    using xhr_emit [OF xstep_live [OF h] assms(2), of XHR_EVENT_READY_STATE_CHANGED] by (auto simp: xhr_consts)
  let ?g = "\<lambda>x. x\<lparr>xh_hbuf := snd (dbuf_put V (xh_hbuf x) [CHR 0x00])\<rparr>"
  have g: "xstep p (?g (xhrs w1 p)) [] w1 (xh_upd p ?g w1)" using xstep_upd [OF xstep_live [OF e(2)], of ?g] by simp
  have x: "xhrs w1 p = ?f (xhrs w p)" using h e(2) by (simp add: xstep_def)
  from xstep_trans [OF h xstep_trans [OF e(2) g]]
  have "xstep p (?g (?f (xhrs w p))) [XHR_EVENT_READY_STATE_CHANGED] w (xh_upd p ?g w1)" by (simp add: x)
  moreover have "curlmHeaderCb E V X [CHR 0x0D, CHR 0x0A] p w = Inr (2, xh_upd p ?g w1)"
    using live_deref [OF assms(1)] assms(4-7) e(1) by (simp add: curlmHeaderCb_def empty_line_def Let_def)
  ultimately show ?thesis using assms(3) by (simp add: dbuf_put_def)
qed

lemma data_run:
  assumes "xhr_live p w" "\<forall>n. room V n" "xh_ready_state (xhrs w p) = XHR_RSTATE_LOADING"
  shows "\<exists>w'. xhr_transfer E V X p (map Data cs) res w = Inr (res, w') \<and>
    xstep p ((xhrs w p)\<lparr>xh_bbuf := xh_bbuf (xhrs w p) @ concat cs\<rparr>) [] w w'"
  using assms(1,3)
proof (induction cs arbitrary: w)
  case Nil
  then show ?case by (auto simp: xstep_def emitted_def)
next
  case (Cons c cs)
  let ?f = "\<lambda>x. x\<lparr>xh_bbuf := xh_bbuf (xhrs w p) @ c\<rparr>"
  have u: "xstep p (?f (xhrs w p)) [] w (xh_upd p ?f w)" using xstep_upd [OF Cons.prems(1), of ?f] by simp
  have x: "xhrs (xh_upd p ?f w) p = ?f (xhrs w p)" by (simp add: xh_upd_def)
  obtain w2 where 2: "xhr_transfer E V X p (map Data cs) res (xh_upd p ?f w) = Inr (res, w2)"
    "xstep p ((xhrs (xh_upd p ?f w) p)\<lparr>xh_bbuf := xh_bbuf (xhrs (xh_upd p ?f w) p) @ concat cs\<rparr>) [] (xh_upd p ?f w) w2"
    using Cons.IH [OF xstep_live [OF u]] Cons.prems(2) x by auto
  have "curlmDataCb E V c p w = Inr (int (length c), xh_upd p ?f w)"
    using live_deref [OF Cons.prems(1)] Cons.prems(2) assms(2)
    by (simp add: curlmDataCb_def dbuf_put_def xhr_consts)
  then show ?case using xstep_trans [OF u 2(2)] 2(1) by (simp add: x)
qed

lemma first_data_step:
  assumes "xhr_live p w" "jsenv_ok E" "\<forall>n. room V n" "xh_ready_state (xhrs w p) = XHR_RSTATE_HEADERS_RECEIVED"
  shows "\<exists>w'. curlmDataCb E V c p w = Inr (int (length c), w') \<and>
    xstep p ((xhrs w p)\<lparr>xh_ready_state := XHR_RSTATE_LOADING, xh_bbuf := xh_bbuf (xhrs w p) @ c\<rparr>)
      [XHR_EVENT_READY_STATE_CHANGED] w w'"
proof -
  let ?f = "\<lambda>x. x\<lparr>xh_ready_state := XHR_RSTATE_LOADING\<rparr>"
  have u: "xstep p (?f (xhrs w p)) [] w (xh_upd p ?f w)" using xstep_upd [OF assms(1), of ?f] by simp
  obtain w1 where e: "xhrMaybeEmitEvent E p XHR_EVENT_READY_STATE_CHANGED JS_UNDEFINED (xh_upd p ?f w) = Inr w1"
    "xstep p (xhrs (xh_upd p ?f w) p) [XHR_EVENT_READY_STATE_CHANGED] (xh_upd p ?f w) w1"
    using xhr_emit [OF xstep_live [OF u] assms(2), of XHR_EVENT_READY_STATE_CHANGED] by (auto simp: xhr_consts)
  have x: "xhrs w1 p = ?f (xhrs w p)" using e(2) u by (simp add: xstep_def)
  let ?g = "\<lambda>x. x\<lparr>xh_bbuf := xh_bbuf (xhrs w1 p) @ c\<rparr>"
  have g: "xstep p (?g (xhrs w1 p)) [] w1 (xh_upd p ?g w1)" using xstep_upd [OF xstep_live [OF e(2)], of ?g] by simp
  have "curlmDataCb E V c p w = Inr (int (length c), xh_upd p ?g w1)"
    using live_deref [OF assms(1)] assms(3,4) e(1) by (simp add: curlmDataCb_def dbuf_put_def)
  then show ?thesis using xstep_trans [OF u xstep_trans [OF e(2) g]] by (simp add: x)
qed

text \<open>The events of the end of a transfer.\<close>

definition done_events :: "int \<Rightarrow> nat list" where
  "done_events res =
     (if res = CURLE_OPERATION_TIMEDOUT
      then [XHR_EVENT_READY_STATE_CHANGED, XHR_EVENT_TIMEOUT, XHR_EVENT_LOAD_END]
      else [XHR_EVENT_READY_STATE_CHANGED, XHR_EVENT_LOAD_END, if res \<noteq> 0 then XHR_EVENT_ERROR else XHR_EVENT_LOAD])"

lemma emit_list:
  assumes "xhr_live p w" "jsenv_ok E" "a < XHR_EVENT_MAX" "b < XHR_EVENT_MAX" "c < XHR_EVENT_MAX"
  shows "\<exists>w1 w2 w3. xhrMaybeEmitEvent E p a JS_UNDEFINED w = Inr w1 \<and>
    xhrMaybeEmitEvent E p b JS_UNDEFINED w1 = Inr w2 \<and> xhrMaybeEmitEvent E p c JS_UNDEFINED w2 = Inr w3 \<and>
    xstep p (xhrs w p) [a, b, c] w w3"
proof -
  obtain w1 where 1: "xhrMaybeEmitEvent E p a JS_UNDEFINED w = Inr w1" "xstep p (xhrs w p) [a] w w1"
    using xhr_emit [OF assms(1-3)] by blast
  obtain w2 where 2: "xhrMaybeEmitEvent E p b JS_UNDEFINED w1 = Inr w2" "xstep p (xhrs w1 p) [b] w1 w2"
    using xhr_emit [OF xstep_live [OF 1(2)] assms(2,4)] by blast
  obtain w3 where 3: "xhrMaybeEmitEvent E p c JS_UNDEFINED w2 = Inr w3" "xstep p (xhrs w2 p) [c] w2 w3"
    using xhr_emit [OF xstep_live [OF 2(2)] assms(2,5)] by blast
  have "xhrs w2 p = xhrs w p" using 1(2) 2(2) by (simp add: xstep_def)
  then show ?thesis using xstep_trans [OF 1(2) xstep_trans [OF 2(2) 3(2)]] 1(1) 2(1) 3(1) by auto
qed

lemma done_step:
  assumes "xhr_live p w" "jsenv_ok E"
  shows "\<exists>u w'. curlDoneCb E X res p w = Inr w' \<and>
    xstep p ((xhrs w p)\<lparr>xh_url := u, xh_slist := [], xh_ready_state := XHR_RSTATE_DONE\<rparr>) (done_events res) w w'"
proof -
  define u where "u = (case effective_url X (xh_curl_h (xhrs w p)) of Some u \<Rightarrow> JS_Str u | None \<Rightarrow> xh_url (xhrs w p))"
  let ?f = "\<lambda>x. x\<lparr>xh_url := u, xh_slist := [], xh_ready_state := XHR_RSTATE_DONE\<rparr>"
  let ?v = "xh_upd p ?f w"
  have v: "xstep p (?f (xhrs w p)) [] w ?v" using xstep_upd [OF assms(1), of ?f] by simp
  have eq: "xh_upd p (\<lambda>x. x\<lparr>xh_slist := [], xh_ready_state := XHR_RSTATE_DONE\<rparr>)
      (case effective_url X (xh_curl_h (xhrs w p)) of
        Some u \<Rightarrow> xh_upd p (\<lambda>x. x\<lparr>xh_url := JS_Str u\<rparr>) w | None \<Rightarrow> w) = ?v"
    by (auto simp: xh_upd_def u_def split: option.splits intro!: arg_cong [of _ _ "\<lambda>z. w\<lparr>xhrs := z\<rparr>"])
  have d: "p \<noteq> 0" "deref p w = Inr w" using live_deref [OF assms(1)] by auto
  have ls: "list_all (\<lambda>e. e < XHR_EVENT_MAX) (done_events res)" by (simp add: done_events_def xhr_consts)
  obtain a b c where abc: "done_events res = [a, b, c]" by (cases "res = CURLE_OPERATION_TIMEDOUT") (simp_all add: done_events_def)
  obtain w1 w2 w3 where e: "xhrMaybeEmitEvent E p a JS_UNDEFINED ?v = Inr w1"
    "xhrMaybeEmitEvent E p b JS_UNDEFINED w1 = Inr w2" "xhrMaybeEmitEvent E p c JS_UNDEFINED w2 = Inr w3"
    "xstep p (xhrs ?v p) [a, b, c] ?v w3"
    using emit_list [OF xstep_live [OF v] assms(2), of a b c] ls abc by auto
  have "curlDoneCb E X res p w = Inr w3"
    using e(1-3) abc d
    by (cases "res = CURLE_OPERATION_TIMEDOUT") (auto simp: curlDoneCb_def Let_def eq done_events_def)
  moreover have "xstep p (?f (xhrs w p)) (done_events res) w w3"
    using xstep_trans [OF v e(4)] abc v by (simp add: xstep_def)
  ultimately show ?thesis by blast
qed

text \<open>C37. A complete response: libcurl delivers a status line, header lines, the empty line and pieces of
  the body, then the result. The object ends with the status and the text after the first blank of
  the status line, all header lines with their names in lower case, and the body as the pieces in
  their order; its state is DONE, and the handlers called are, in this order, loadstart,
  readystatechange for the headers, for the first data and for the end, and then those of the
  result.\<close>

theorem xhr_response_assembled:
  assumes "xhr_live p w" "jsenv_ok E" "\<forall>n. \<not> oom w n" "\<forall>n. room V n" "xh_hbuf (xhrs w p) = []"
    and "xh_bbuf (xhrs w p) = []" "xh_raw (xhrs w p) = 0"
    and "CHR '' '' \<notin> set ver" "CHR 0x00 \<notin> set reason" "\<forall>h\<in>set hs. header_ok h"
    and "resp_code X (xh_curl_h (xhrs w p)) = code" "0 \<le> code" "code div 100 \<noteq> 3"
  shows "\<exists>w'. bindE (xhr_transfer E V X p
        (Header (''HTTP/'' @ ver @ '' '' @ reason @ [CHR 0x0D, CHR 0x0A]) #
         map Header hs @ Header [CHR 0x0D, CHR 0x0A] # map Data (c # cs)) res w)
        (\<lambda>(result, w). curlDoneCb E X result p w) = Inr w' \<and>
    xh_ready_state (xhrs w' p) = XHR_RSTATE_DONE \<and> xh_status (xhrs w' p) = JS_NewInt32 code \<and>
    xh_status_text (xhrs w' p) = JS_Str reason \<and>
    xh_hbuf (xhrs w' p) = concat (map kept_line hs) @ [CHR 0x00] \<and> xh_bbuf (xhrs w' p) = concat (c # cs) \<and>
    calls w' = calls w @ emitted (xh_events (xhrs w p)) (funs w)
      ([XHR_EVENT_LOAD_START, XHR_EVENT_READY_STATE_CHANGED, XHR_EVENT_READY_STATE_CHANGED] @ done_events res)"
proof -
  let ?st = "''HTTP/'' @ ver @ '' '' @ reason @ [CHR 0x0D, CHR 0x0A]"
  obtain q w1 where 1: "curlmHeaderCb E V X ?st p w = Inr (int (length ?st), w1)" "q \<noteq> 0"
    "xstep p ((xhrs w p)\<lparr>xh_raw := q, xh_raw_str := reason\<rparr>) [XHR_EVENT_LOAD_START] w w1"
    using status_line_step [OF assms(1-3,5,7-9), of V X] by (elim exE conjE) (rule that)
  have x1: "xhrs w1 p = (xhrs w p)\<lparr>xh_raw := q, xh_raw_str := reason\<rparr>" using 1(3) by (simp add: xstep_def)
  let ?es = "Header [CHR 0x0D, CHR 0x0A] # map Data (c # cs)"
  obtain w2 where 2: "xhr_transfer E V X p (map Header hs @ ?es) res w1 = xhr_transfer E V X p ?es res w2"
    "xstep p ((xhrs w1 p)\<lparr>xh_hbuf := xh_hbuf (xhrs w1 p) @ concat (map kept_line hs)\<rparr>) [] w1 w2"
    using headers_run [OF xstep_live [OF 1(3)] assms(4,10)] by blast
  have x2: "xhrs w2 p = (xhrs w1 p)\<lparr>xh_hbuf := xh_hbuf (xhrs w1 p) @ concat (map kept_line hs)\<rparr>"
    using 2(2) by (simp add: xstep_def)
  let ?x3 = "(xhrs w2 p)\<lparr>xh_status_text := JS_Str (xh_raw_str (xhrs w2 p)), xh_status := JS_NewInt32 code,
      xh_ready_state := XHR_RSTATE_HEADERS_RECEIVED, xh_hbuf := xh_hbuf (xhrs w2 p) @ [CHR 0x00]\<rparr>"
  obtain w3 where 3: "curlmHeaderCb E V X [CHR 0x0D, CHR 0x0A] p w2 = Inr (2, w3)"
    "xstep p ?x3 [XHR_EVENT_READY_STATE_CHANGED] w2 w3"
    using empty_line_step [OF xstep_live [OF 2(2)] assms(2,4), of X code] assms(11-13) 1(2) x1 x2 by auto
  have x3: "xhrs w3 p = ?x3" using 3(2) by (simp add: xstep_def)
  let ?x4 = "(xhrs w3 p)\<lparr>xh_ready_state := XHR_RSTATE_LOADING, xh_bbuf := xh_bbuf (xhrs w3 p) @ c\<rparr>"
  obtain w4 where 4: "curlmDataCb E V c p w3 = Inr (int (length c), w4)"
    "xstep p ?x4 [XHR_EVENT_READY_STATE_CHANGED] w3 w4"
    using first_data_step [OF xstep_live [OF 3(2)] assms(2,4)] x3 by auto
  have x4: "xhrs w4 p = ?x4" using 4(2) by (simp add: xstep_def)
  obtain w5 where 5: "xhr_transfer E V X p (map Data cs) res w4 = Inr (res, w5)"
    "xstep p ((xhrs w4 p)\<lparr>xh_bbuf := xh_bbuf (xhrs w4 p) @ concat cs\<rparr>) [] w4 w5"
    using data_run [OF xstep_live [OF 4(2)] assms(4), of E X cs res] x4 by auto
  have x5: "xhrs w5 p = (xhrs w4 p)\<lparr>xh_bbuf := xh_bbuf (xhrs w4 p) @ concat cs\<rparr>" using 5(2) by (simp add: xstep_def)
  obtain u w6 where 6: "curlDoneCb E X res p w5 = Inr w6"
    "xstep p ((xhrs w5 p)\<lparr>xh_url := u, xh_slist := [], xh_ready_state := XHR_RSTATE_DONE\<rparr>) (done_events res) w5 w6"
    using done_step [OF xstep_live [OF 5(2)] assms(2)] by blast
  have "xhr_transfer E V X p (Header ?st # map Header hs @ ?es) res w = Inr (res, w5)"
    using 1(1) 2(1) 3(1) 4(1) 5(1) by simp
  moreover note xstep_trans [OF 1(3) xstep_trans [OF 2(2) xstep_trans [OF 3(2) xstep_trans [OF 4(2) xstep_trans [OF 5(2) 6(2)]]]]]
  ultimately show ?thesis using 6(1) x1 x2 x3 x4 x5 assms(5,6) by (simp add: xstep_def)
qed

text \<open>The handlers for the headers run before the headers get their terminator: a handler that asks
  for a header then reads past the buffer.\<close>

lemma header_lookup_in_handler:
  assumes "ijXhrGet this w = (p, w)" "xhr_live p w" "xh_hbuf (xhrs w p) \<noteq> []"
    and "CHR 0x00 \<notin> set (xh_hbuf (xhrs w p))" "to_cstr E a = Some name"
  shows "ijXhrGetResponseHeader E this [a] (headers_complete code p w) = Some (Inl UninitRead)"
proof -
  have "ijXhrGet this (headers_complete code p w) = (p, headers_complete code p w)"
    using assms(1,2) by (cases this) (auto simp: ijXhrGet_def JS_GetOpaque2_def headers_complete_def xh_upd_def
        xhr_live_def Let_def split: if_splits)
  then show ?thesis
    using assms(2-5) by (simp add: ijXhrGetResponseHeader_def deref_def xhr_live_def headers_complete_def
        xh_upd_def argn_def JS_ToCString_def)
qed

definition xhr_world :: xhr_rt where
  "xhr_world = curl_rt.extend curl_world (xhr_rt.fields (\<lambda>_. new_xhr 5) (\<lambda>_. []))"

definition plain_xhr :: xhrenv where
  "plain_xhr = \<lparr>curl_easy_init = 5, effective_url = (\<lambda>_. None), resp_code = (\<lambda>_. 200), length_known = (\<lambda>_. False),
     parse_json = (\<lambda>_. Inl JS_NULL), perform = (\<lambda>_. ([], 0)), slist_append_ok = True\<rparr>"

definition xhr_demo :: xhr_rt where
  "xhr_demo = xhr_world\<lparr>tick := 9, blk := (\<lambda>_. NoBlock)(4 := JeBlock), opaque := (\<lambda>_. (0, 0))(3 := (ijjs_xhr_class_id, 4)),
     xhrs := (\<lambda>_. (new_xhr 5)\<lparr>xh_hbuf := ''a: 1'' @ [CHR 0x0D, CHR 0x0A, CHR 0x00]\<rparr>)\<rparr>"

lemmas xhr_demo_defs = xhr_demo_def xhr_world_def curl_world_defs xhr_rt.defs

theorem header_search_ends_witness:
  "(\<exists>r. ijXhrGetResponseHeader plain_env (JS_Ref 3) [JS_Str ''a''] xhr_demo = Some r) \<and>
   ijXhrGetResponseHeader plain_env (JS_Ref 3) [JS_Str []] xhr_demo = None"
proof -
  have x: "ijXhrGet (JS_Ref 3) xhr_demo = (4, xhr_demo)" "blk xhr_demo 4 \<noteq> NoBlock"
    "CHR 0x00 \<in> set (xh_hbuf (xhrs xhr_demo 4))" "CHR 0x0D \<in> set (c_str (xh_hbuf (xhrs xhr_demo 4)))"
    by (simp_all add: xhr_demo_defs ijXhrGet_def JS_GetOpaque2_def c_str_def)
  have c: "to_cstr plain_env (JS_Str s) = Some s" for s by (simp add: plain_env_def)
  have "hd ''a'' \<noteq> CHR 0x0D" by simp
  with header_search_ends [OF x(1) _ x(2,3) c [of "''a''"]] header_search_ends [OF x(1) _ x(2,3) c [of "[]"]] x(4)
  show ?thesis by simp
qed

theorem xhr_response_assembled_witness:
  "\<exists>w'. bindE (xhr_transfer plain_env plain_vm plain_xhr 4
        (Header (''HTTP/'' @ ''1.1'' @ '' '' @ ''200 OK'' @ [CHR 0x0D, CHR 0x0A]) # map Header [''A: 1''] @
         Header [CHR 0x0D, CHR 0x0A] # map Data (''ab'' # [''cd''])) 0
        (xhr_demo\<lparr>xhrs := (\<lambda>_. new_xhr 5)\<rparr>))
        (\<lambda>(result, w). curlDoneCb plain_env plain_xhr result 4 w) = Inr w' \<and>
    xh_bbuf (xhrs w' 4) = ''abcd'' \<and> xh_status (xhrs w' 4) = JS_NewInt32 200 \<and> xh_status_text (xhrs w' 4) = JS_Str ''200 OK''"
proof -
  let ?w = "xhr_demo\<lparr>xhrs := (\<lambda>_. new_xhr 5)\<rparr>"
  have l: "xhr_live 4 ?w" "\<forall>n. \<not> oom ?w n" "\<forall>n. room plain_vm n" "xh_hbuf (xhrs ?w 4) = []"
    "xh_bbuf (xhrs ?w 4) = []" "xh_raw (xhrs ?w 4) = 0"
    by (simp_all add: xhr_live_def xhr_demo_defs new_xhr_def xhr_consts fresh_blk_def plain_vm_def)
  have h: "CHR '' '' \<notin> set ''1.1''" "CHR 0x00 \<notin> set ''200 OK''" "\<forall>h\<in>set [''A: 1'']. header_ok h"
    "resp_code plain_xhr (xh_curl_h (xhrs ?w 4)) = 200" "(0::int) \<le> 200" "(200::int) div 100 \<noteq> 3"
    by (simp_all add: header_ok_def plain_xhr_def)
  from xhr_response_assembled [OF l(1) plain_env_ok l(2-6) h, of "''ab''" "[''cd'']" 0]
  obtain w' where w': "bindE (xhr_transfer plain_env plain_vm plain_xhr 4
        (Header (''HTTP/'' @ ''1.1'' @ '' '' @ ''200 OK'' @ [CHR 0x0D, CHR 0x0A]) # map Header [''A: 1''] @
         Header [CHR 0x0D, CHR 0x0A] # map Data (''ab'' # [''cd''])) 0 ?w)
        (\<lambda>(result, w). curlDoneCb plain_env plain_xhr result 4 w) = Inr w'"
    "xh_bbuf (xhrs w' 4) = concat (''ab'' # [''cd''])" "xh_status (xhrs w' 4) = JS_NewInt32 200"
    "xh_status_text (xhrs w' 4) = JS_Str ''200 OK''" by (elim exE conjE) (rule that)
  show ?thesis by (rule exI [of _ w'], intro conjI, rule w'(1)) (simp_all add: w'(2-4))
qed

end
