(* ===== verification/Kcp.thy ===== *)
theory Kcp
  imports Vm Slots
begin

text \<open>
  ijkcp.c: reliable datagrams. A KCP object is a UDP handle, a control block of the KCP library that
  turns messages into datagrams, and an idle handle that drives the library. The library and libuv
  are parameters.
\<close>

section \<open>Data\<close>

text \<open>
  Handle 0 of the structure is the UDP handle and handle 1 the idle handle. \<open>kc_kcp\<close> is the control
  block, \<open>kc_write\<close> the one send request (0 for NULL). \<open>kc_opts\<close> and \<open>kc_queued\<close> record what the
  library was told, \<open>kc_wire\<close> the datagrams given to libuv.
\<close>

datatype kcp_opt = KcpMtu int | KcpWnd int int | KcpNodelay int int int int

record IJJSKcpSendReq =
  kw_result :: IJJSPromise

record IJJSKcp =
  kc_closed :: bool
  kc_finalized :: bool
  kc_kcp :: nat
  kc_sa :: "sockaddr option"
  kc_conv :: int
  kc_read_size :: int
  kc_read :: IJJSPromise
  kc_receiving :: bool
  kc_write :: nat
  kc_nextupdate :: int
  kc_opts :: "kcp_opt list"
  kc_queued :: "string list"
  kc_wire :: "string list"

record kcp_rt = vm_rt +
  kcps :: "nat \<Rightarrow> IJJSKcp"
  kwreqs :: "nat \<Rightarrow> IJJSKcpSendReq"
  kcb_live :: "nat \<Rightarrow> bool"

text \<open>
  \<open>kcp_new\<close> is the control block ikcp\_create returns, \<open>kcp_packets\<close> the datagrams ikcp\_update hands
  to the output function, \<open>kcp_message\<close> the message that is complete after the input of a datagram.
\<close>

record kcpenv =
  k_EBUSY :: int
  k_udp_init :: "int \<Rightarrow> int"
  k_idle_start :: int
  k_try_send :: "string \<Rightarrow> int"
  k_send :: "string \<Rightarrow> int"
  k_recv_start :: int
  k_fileno :: "int \<times> int"
  k_sockname :: "int \<times> sockaddr"
  k_peername :: "int \<times> sockaddr"
  k_connect :: "sockaddr option \<Rightarrow> int"
  k_bind :: "sockaddr option \<Rightarrow> int \<Rightarrow> int"
  k_now :: int
  kcp_new :: nat
  kcp_check :: "nat \<Rightarrow> int"
  kcp_packets :: "nat \<Rightarrow> string list"
  kcp_message :: "nat \<Rightarrow> string \<Rightarrow> string option"

definition ijjs_kcp_class_id :: nat where "ijjs_kcp_class_id = 63"

definition kc_upd :: "nat \<Rightarrow> (IJJSKcp \<Rightarrow> IJJSKcp) \<Rightarrow> 'z kcp_rt_scheme \<Rightarrow> 'z kcp_rt_scheme" where
  "kc_upd k f w = w\<lparr>kcps := (kcps w)(k := f (kcps w k))\<rparr>"

text \<open>A control block is released once and not used afterwards.\<close>

definition ikcp_use :: "nat \<Rightarrow> 'z kcp_rt_scheme \<Rightarrow> 'z kcp_rt_scheme res" where
  "ikcp_use c w = (if kcb_live w c then Inr w else Inl UseAfterFree)"

definition ikcp_release :: "nat \<Rightarrow> 'z kcp_rt_scheme \<Rightarrow> 'z kcp_rt_scheme res" where
  "ikcp_release c w = (if kcb_live w c then Inr (w\<lparr>kcb_live := (kcb_live w)(c := False)\<rparr>) else Inl DoubleFree)"

section \<open>Output\<close>

definition kcpOutput ::
    "jsenv \<Rightarrow> kcpenv \<Rightarrow> nat \<Rightarrow> string \<Rightarrow> 'z kcp_rt_scheme \<Rightarrow> 'z kcp_rt_scheme res" where
  "kcpOutput E K k buf w =
     bindE (deref k w) (\<lambda>w.
     let r = k_try_send K buf; wr = kc_write (kcps w k) in
     if r = int (length buf) then
       bindE (deref wr w) (\<lambda>w.
       bindE (ijSettlePromise E (kw_result (kwreqs w wr)) False [JS_UNDEFINED] w) (\<lambda>(pr, w).
       Inr (kc_upd k (\<lambda>t. t\<lparr>kc_wire := kc_wire t @ [buf]\<rparr>)
         (w\<lparr>kwreqs := (kwreqs w)(wr := (kwreqs w wr)\<lparr>kw_result := pr\<rparr>)\<rparr>))))
     else
       let rest = (if 0 \<le> r then drop (nat r) buf else buf) in
       bindE (deref wr w) (\<lambda>w.
       Inr (if k_send K rest \<noteq> 0 then w else kc_upd k (\<lambda>t. t\<lparr>kc_wire := kc_wire t @ [rest]\<rparr>) w)))"

definition uvKcpUpdateCb ::
    "jsenv \<Rightarrow> kcpenv \<Rightarrow> nat \<Rightarrow> 'z kcp_rt_scheme \<Rightarrow> 'z kcp_rt_scheme res" where
  "uvKcpUpdateCb E K k w =
     bindE (deref k w) (\<lambda>w.
     if k_now K < kc_nextupdate (kcps w k) then Inr w
     else
       let c = kc_kcp (kcps w k) in
       bindE (ikcp_use c w) (\<lambda>w.
       bindE (forE (kcpOutput E K k) (kcp_packets K c) w) (\<lambda>w.
       Inr (kc_upd k (\<lambda>t. t\<lparr>kc_nextupdate := wrap32 (kcp_check K c)\<rparr>) w))))"

definition uvKcpSendCb :: "jsenv \<Rightarrow> nat \<Rightarrow> int \<Rightarrow> 'z kcp_rt_scheme \<Rightarrow> 'z kcp_rt_scheme res" where
  "uvKcpSendCb E k status w =
     bindE (CHECK (k \<noteq> 0) w) (\<lambda>w.
     bindE (deref k w) (\<lambda>w.
     case (if status < 0 then (case ijNewError E status w of (arg, w) \<Rightarrow> (arg, True, w))
           else (JS_UNDEFINED, False, w)) of (arg, is_reject, w) \<Rightarrow>
     let wr = kc_write (kcps w k) in
     bindE (deref wr w) (\<lambda>w.
     bindE (ijSettlePromise E (kw_result (kwreqs w wr)) is_reject [arg] w) (\<lambda>(pr, w).
     Inr (w\<lparr>kwreqs := (kwreqs w)(wr := (kwreqs w wr)\<lparr>kw_result := pr\<rparr>)\<rparr>)))))"

section \<open>Input\<close>

definition uvKcpAllocCb :: "nat \<Rightarrow> 'z kcp_rt_scheme \<Rightarrow> (nat \<times> int \<times> 'z kcp_rt_scheme) res" where
  "uvKcpAllocCb k w =
     bindE (CHECK (k \<noteq> 0) w) (\<lambda>w.
     bindE (deref k w) (\<lambda>w.
     case js_malloc w of (base, w) \<Rightarrow> Inr (base, kc_read_size (kcps w k), w)))"

text \<open>The message replaces the datagram in the buffer, which has the size the caller of recv chose. A
  datagram that completes no message leaves the buffer behind.\<close>

definition uvKcpRecvCb ::
    "jsenv \<Rightarrow> netenv \<Rightarrow> kcpenv \<Rightarrow> nat \<Rightarrow> int \<Rightarrow> nat \<Rightarrow> string \<Rightarrow> sockaddr option \<Rightarrow> int
       \<Rightarrow> 'z kcp_rt_scheme \<Rightarrow> 'z kcp_rt_scheme res" where
  "uvKcpRecvCb E N K k nread base data addr flags w =
     bindE (CHECK (k \<noteq> 0) w) (\<lambda>w.
     bindE (deref k w) (\<lambda>w.
     let finish = (\<lambda>arg is_reject w.
           bindE (ijSettlePromise E (kc_read (kcps w k)) is_reject [arg] w) (\<lambda>(pr, w).
           Inr (kc_upd k (\<lambda>t. t\<lparr>kc_read := ijClearPromise pr\<rparr>) w)));
         stop = kc_upd k (\<lambda>t. t\<lparr>kc_receiving := False\<rparr>) in
     if nread = 0 \<and> addr = None then js_free base w
     else if nread < 0 then
       (case ijNewError E nread (stop w) of (arg, w) \<Rightarrow> bindE (js_free base w) (finish arg True))
     else
       bindE (ikcp_use (kc_kcp (kcps w k)) w) (\<lambda>w.
       case kcp_message K (kc_kcp (kcps w k)) (take (nat nread) data) of
         None \<Rightarrow> Inr w
       | Some msg \<Rightarrow>
         if msg = [] then Inr w
         else if int (length msg) > kc_read_size (kcps w k) then Inl BufferOverflow
         else bindE (ijNewUint8Array base msg (stop w)) (\<lambda>(buf, w).
              case addr of None \<Rightarrow> Inl NullDeref
              | Some sa \<Rightarrow> finish (JS_Object [(''data'', buf), (''flags'', JS_NewInt32 flags),
                  (''addr'', ijAddr2Obj N sa)]) False w))))"

section \<open>Closing\<close>

definition uvKcpCloseCb :: "nat \<Rightarrow> 'z kcp_rt_scheme \<Rightarrow> 'z kcp_rt_scheme res" where
  "uvKcpCloseCb k w =
     bindE (CHECK (k \<noteq> 0) w) (\<lambda>w.
     bindE (deref k w) (\<lambda>w.
     bindE (ikcp_release (kc_kcp (kcps w k)) w) (\<lambda>w.
     let w = kc_upd k (\<lambda>t. t\<lparr>kc_closed := True\<rparr>) w
     in if kc_finalized (kcps w k) then je_free k w else Inr w)))"

definition uvKcpMaybeClose :: "nat \<Rightarrow> 'z kcp_rt_scheme \<Rightarrow> 'z kcp_rt_scheme res" where
  "uvKcpMaybeClose k w =
     bindE (deref k w) (\<lambda>w.
     if \<not> uv_is_closing k 0 w then uv_close k 0 (kc_upd k (\<lambda>t. t\<lparr>kc_receiving := False\<rparr>) w) else Inr w)"

definition ijKcpGet :: "jsval \<Rightarrow> 'z kcp_rt_scheme \<Rightarrow> nat \<times> 'z kcp_rt_scheme" where
  "ijKcpGet obj w = JS_GetOpaque2 obj ijjs_kcp_class_id w"

definition ijKcpFinalizer :: "jsval \<Rightarrow> 'z kcp_rt_scheme \<Rightarrow> 'z kcp_rt_scheme res" where
  "ijKcpFinalizer val w =
     (let k = JS_GetOpaque val ijjs_kcp_class_id w in
      if k \<noteq> 0 then
        bindE (deref k w) (\<lambda>w.
        bindE (uv_close k 1 w) (\<lambda>w.
        bindE (ikcp_release (kc_kcp (kcps w k)) w) (\<lambda>w.
        bindE (ijFreePromiseRT (kc_read (kcps w k)) w) (\<lambda>(pr, w).
        let w = kc_upd k (\<lambda>t. t\<lparr>kc_read := pr, kc_finalized := True\<rparr>) w
        in if kc_closed (kcps w k) then je_free k w else uvKcpMaybeClose k w))))
      else Inr w)"

definition ijKcpMark :: "jsval \<Rightarrow> 'z kcp_rt_scheme \<Rightarrow> jsval list" where
  "ijKcpMark val w =
     (let k = JS_GetOpaque val ijjs_kcp_class_id w
      in if k \<noteq> 0 then ijMarkPromise (kc_read (kcps w k)) else [])"

definition ijKcpClose ::
    "jsenv \<Rightarrow> jsval \<Rightarrow> 'z kcp_rt_scheme \<Rightarrow> (jsval \<times> 'z kcp_rt_scheme) res" where
  "ijKcpClose E this w = (case ijKcpGet this w of (k, w) \<Rightarrow>
     if k = 0 then Inr (JS_EXCEPTION, w)
     else bindE (deref k w) (\<lambda>w.
       bindE (if ijIsPromisePending (kc_read (kcps w k))
              then bindE (ijSettlePromise E (kc_read (kcps w k)) False [JS_Object [(''data'', JS_UNDEFINED)]] w) (\<lambda>(pr, w).
                Inr (kc_upd k (\<lambda>t. t\<lparr>kc_read := ijClearPromise pr\<rparr>) w))
              else Inr w) (\<lambda>w.
       bindE (uvKcpMaybeClose k w) (\<lambda>w. Inr (JS_UNDEFINED, w)))))"

section \<open>Construction and options\<close>

definition ijNewKcp :: "kcpenv \<Rightarrow> int \<Rightarrow> int \<Rightarrow> 'z kcp_rt_scheme \<Rightarrow> (jsval \<times> 'z kcp_rt_scheme) res" where
  "ijNewKcp K af conv w = (case JS_NewObjectClass ijjs_kcp_class_id w of (obj, w) \<Rightarrow>
     if JS_IsException obj then Inr (obj, w)
     else case je_calloc w of (k, w) \<Rightarrow>
       if k = 0 then bindE (JS_FreeValue obj w) (\<lambda>w. Inr (JS_EXCEPTION, w))
       else bindE (CHECK (k_idle_start K = 0) (uv_handle_init k 1 w)) (\<lambda>w.
         if k_udp_init K af \<noteq> 0 then
           bindE (JS_FreeValue obj w) (\<lambda>w.
           bindE (je_free k w) (\<lambda>w.
           Inr (JS_ThrowInternalError ''couldn't initialize KCP handle'' w)))
         else if kcp_new K = 0 then Inl NullDeref
         else (let w = uv_handle_init k 0 w;
                   w = kc_upd k (\<lambda>_. \<lparr>kc_closed = False, kc_finalized = False, kc_kcp = kcp_new K, kc_sa = None,
                     kc_conv = conv, kc_read_size = 0, kc_read = clear_promise, kc_receiving = False, kc_write = 0,
                     kc_nextupdate = wrap32 (kcp_check K (kcp_new K)), kc_opts = [], kc_queued = [], kc_wire = []\<rparr>)
                     (w\<lparr>kcb_live := (kcb_live w)(kcp_new K := True)\<rparr>)
               in Inr (obj, JS_SetOpaque obj k w))))"

text \<open>An optional integer argument, with its default.\<close>

definition opt_i32 ::
    "jsenv \<Rightarrow> int \<Rightarrow> jsval \<Rightarrow> 'z rt_scheme \<Rightarrow> int option \<times> 'z rt_scheme" where
  "opt_i32 E dflt v w = (if JS_IsUndefined v then (Some dflt, w) else JS_ToInt32 E v w)"

definition ijKcpConstructor ::
    "jsenv \<Rightarrow> kcpenv \<Rightarrow> jsval list \<Rightarrow> 'z kcp_rt_scheme \<Rightarrow> (jsval \<times> 'z kcp_rt_scheme) res" where
  "ijKcpConstructor E K argv w = (case opt_i32 E AF_UNSPEC (argn 0 argv) w of
     (None, w) \<Rightarrow> Inr (JS_EXCEPTION, w)
   | (Some af, w) \<Rightarrow>
       (case (if JS_IsUndefined (argn 1 argv) then (Some 0, w) else JS_ToUint32 E (argn 1 argv) w) of
          (None, w) \<Rightarrow> Inr (JS_EXCEPTION, w)
        | (Some conv, w) \<Rightarrow> ijNewKcp K af conv w))"

definition with_kcp ::
    "jsval \<Rightarrow> (nat \<Rightarrow> 'z kcp_rt_scheme \<Rightarrow> (jsval \<times> 'z kcp_rt_scheme) res) \<Rightarrow> 'z kcp_rt_scheme
       \<Rightarrow> (jsval \<times> 'z kcp_rt_scheme) res" where
  "with_kcp this f w = (case ijKcpGet this w of (k, w) \<Rightarrow>
     if k = 0 then Inr (JS_EXCEPTION, w) else bindE (deref k w) (f k))"

definition ijKcpFileno ::
    "jsenv \<Rightarrow> kcpenv \<Rightarrow> jsval \<Rightarrow> 'z kcp_rt_scheme \<Rightarrow> (jsval \<times> 'z kcp_rt_scheme) res" where
  "ijKcpFileno E K this = with_kcp this (\<lambda>k w. case k_fileno K of (r, fd) \<Rightarrow>
     if r \<noteq> 0 then Inr (ijThrowErrno E r w) else Inr (JS_NewInt32 fd, w))"

definition ijKcpGetSockPeerName ::
    "jsenv \<Rightarrow> kcpenv \<Rightarrow> netenv \<Rightarrow> int \<Rightarrow> jsval \<Rightarrow> 'z kcp_rt_scheme \<Rightarrow> (jsval \<times> 'z kcp_rt_scheme) res" where
  "ijKcpGetSockPeerName E K N magic this = with_kcp this (\<lambda>k w.
     case (if magic = 0 then k_sockname K else k_peername K) of (r, addr) \<Rightarrow>
     if r \<noteq> 0 then Inr (ijThrowErrno E r w) else Inr (ijAddr2Obj N addr, w))"

definition ijKcpConnect ::
    "jsenv \<Rightarrow> kcpenv \<Rightarrow> netenv \<Rightarrow> jsval \<Rightarrow> jsval list \<Rightarrow> 'z kcp_rt_scheme \<Rightarrow> (jsval \<times> 'z kcp_rt_scheme) res" where
  "ijKcpConnect E K N this argv = with_kcp this (\<lambda>k w.
     bindE (ijObj2Addr E N (argn 0 argv) w) (\<lambda>(r, ss, w).
     if r \<noteq> 0 then Inr (JS_EXCEPTION, w)
     else if k_connect K ss \<noteq> 0 then Inr (ijThrowErrno E (k_connect K ss) w) else Inr (JS_UNDEFINED, w)))"

definition ijKcpBind ::
    "jsenv \<Rightarrow> kcpenv \<Rightarrow> netenv \<Rightarrow> jsval \<Rightarrow> jsval list \<Rightarrow> 'z kcp_rt_scheme \<Rightarrow> (jsval \<times> 'z kcp_rt_scheme) res" where
  "ijKcpBind E K N this argv = with_kcp this (\<lambda>k w.
     bindE (ijObj2Addr E N (argn 0 argv) w) (\<lambda>(r, ss, w).
     if r \<noteq> 0 then Inr (JS_EXCEPTION, w)
     else case opt_i32 E 0 (argn 1 argv) w of
       (None, w) \<Rightarrow> Inr (JS_EXCEPTION, w)
     | (Some flags, w) \<Rightarrow>
         if k_bind K ss flags \<noteq> 0 then Inr (ijThrowErrno E (k_bind K ss flags) w) else Inr (JS_UNDEFINED, w)))"

text \<open>Telling the library about an option.\<close>

definition kcp_setopt :: "nat \<Rightarrow> kcp_opt \<Rightarrow> 'z kcp_rt_scheme \<Rightarrow> (jsval \<times> 'z kcp_rt_scheme) res" where
  "kcp_setopt k opt w = bindE (ikcp_use (kc_kcp (kcps w k)) w) (\<lambda>w.
     Inr (JS_UNDEFINED, kc_upd k (\<lambda>t. t\<lparr>kc_opts := kc_opts t @ [opt]\<rparr>) w))"

definition ijKcpSetMtu ::
    "jsenv \<Rightarrow> jsval \<Rightarrow> jsval list \<Rightarrow> 'z kcp_rt_scheme \<Rightarrow> (jsval \<times> 'z kcp_rt_scheme) res" where
  "ijKcpSetMtu E this argv = with_kcp this (\<lambda>k w. case opt_i32 E 1400 (argn 0 argv) w of
     (None, w) \<Rightarrow> Inr (JS_EXCEPTION, w)
   | (Some mtu, w) \<Rightarrow> kcp_setopt k (KcpMtu mtu) w)"

definition ijKcpSetWndSize ::
    "jsenv \<Rightarrow> jsval \<Rightarrow> jsval list \<Rightarrow> 'z kcp_rt_scheme \<Rightarrow> (jsval \<times> 'z kcp_rt_scheme) res" where
  "ijKcpSetWndSize E this argv = with_kcp this (\<lambda>k w. case opt_i32 E 32 (argn 0 argv) w of
     (None, w) \<Rightarrow> Inr (JS_EXCEPTION, w)
   | (Some sndwnd, w) \<Rightarrow> (case opt_i32 E 32 (argn 1 argv) w of
       (None, w) \<Rightarrow> Inr (JS_EXCEPTION, w)
     | (Some rcvwnd, w) \<Rightarrow> kcp_setopt k (KcpWnd sndwnd rcvwnd) w))"

definition ijKcpSetNodelay ::
    "jsenv \<Rightarrow> jsval \<Rightarrow> jsval list \<Rightarrow> 'z kcp_rt_scheme \<Rightarrow> (jsval \<times> 'z kcp_rt_scheme) res" where
  "ijKcpSetNodelay E this argv = with_kcp this (\<lambda>k w. case opt_i32 E 1 (argn 0 argv) w of
     (None, w) \<Rightarrow> Inr (JS_EXCEPTION, w)
   | (Some nodelay, w) \<Rightarrow> (case opt_i32 E 20 (argn 1 argv) w of
       (None, w) \<Rightarrow> Inr (JS_EXCEPTION, w)
     | (Some interval, w) \<Rightarrow> (case opt_i32 E 2 (argn 2 argv) w of
         (None, w) \<Rightarrow> Inr (JS_EXCEPTION, w)
       | (Some resend, w) \<Rightarrow> (case opt_i32 E 1 (argn 3 argv) w of
           (None, w) \<Rightarrow> Inr (JS_EXCEPTION, w)
         | (Some nc, w) \<Rightarrow> kcp_setopt k (KcpNodelay nodelay interval resend nc) w))))"

definition ijKcpGetConv :: "jsval \<Rightarrow> 'z kcp_rt_scheme \<Rightarrow> (jsval \<times> 'z kcp_rt_scheme) res" where
  "ijKcpGetConv this = with_kcp this (\<lambda>k w. Inr (JS_Int (wrap32 (kc_conv (kcps w k))), w))"

section \<open>Receiving and sending\<close>

definition ijKcpRecv ::
    "jsenv \<Rightarrow> kcpenv \<Rightarrow> jsval \<Rightarrow> jsval list \<Rightarrow> 'z kcp_rt_scheme \<Rightarrow> (jsval \<times> 'z kcp_rt_scheme) res" where
  "ijKcpRecv E K this argv = with_kcp this (\<lambda>k w.
     if ijIsPromisePending (kc_read (kcps w k)) then Inr (ijThrowErrno E (k_EBUSY K) w)
     else case (if JS_IsUndefined (argn 0 argv) then (Some IJJS_DEFAULt_READ_SIZE, w)
                else JS_ToIndex E (argn 0 argv) w) of
       (None, w) \<Rightarrow> Inr (JS_EXCEPTION, w)
     | (Some sz, w) \<Rightarrow>
       (let w = kc_upd k (\<lambda>t. t\<lparr>kc_read_size := sz\<rparr>) w in
        if k_recv_start K \<noteq> 0 then Inr (ijThrowErrno E (k_recv_start K) w)
        else (let w = kc_upd k (\<lambda>t. t\<lparr>kc_receiving := True\<rparr>) w in
          case ijInitPromise (kc_read (kcps w k)) w of (v, pr, w) \<Rightarrow>
          Inr (v, kc_upd k (\<lambda>t. t\<lparr>kc_read := pr\<rparr>) w))))"

text \<open>The address is copied even when none was passed, and a string is given back before the library
  copies it.\<close>

definition ijKcpSend ::
    "jsenv \<Rightarrow> netenv \<Rightarrow> jsval \<Rightarrow> jsval list \<Rightarrow> 'z kcp_rt_scheme \<Rightarrow> (jsval \<times> 'z kcp_rt_scheme) res" where
  "ijKcpSend E N this argv = with_kcp this (\<lambda>k w. case js_data E (argn 0 argv) w of
     (None, w) \<Rightarrow> Inr (JS_EXCEPTION, w)
   | (Some (is_string, buf, data), w) \<Rightarrow>
     bindE (if JS_IsUndefined (argn 1 argv) then Inr (0, None, w)
            else ijObj2Addr E N (argn 1 argv) w) (\<lambda>(r, sa, w).
     if r \<noteq> 0 then Inr (JS_EXCEPTION, w)
     else bindE (js_free (kc_write (kcps w k)) w) (\<lambda>w.
     case js_malloc w of (wr, w) \<Rightarrow>
     let w = kc_upd k (\<lambda>t. t\<lparr>kc_write := wr\<rparr>) w in
     if wr = 0 then Inr (JS_EXCEPTION, w)
     else case sa of
       None \<Rightarrow> Inl NullDeref
     | Some a \<Rightarrow>
       (let w = kc_upd k (\<lambda>t. t\<lparr>kc_sa := sa\<rparr>) (w\<lparr>kwreqs := (kwreqs w)(wr := \<lparr>kw_result = uninit_promise E\<rparr>)\<rparr>) in
        bindE (if is_string then JS_FreeCString (buf, 0) w else Inr w) (\<lambda>w.
        bindE (ikcp_use (kc_kcp (kcps w k)) w) (\<lambda>w.
        bindE (if is_string then deref buf w else Inr w) (\<lambda>w.
        let w = kc_upd k (\<lambda>t. t\<lparr>kc_queued := kc_queued t @ [data]\<rparr>) w in
        case ijInitPromise (kw_result (kwreqs w wr)) w of (v, pr, w) \<Rightarrow>
        Inr (v, w\<lparr>kwreqs := (kwreqs w)(wr := (kwreqs w wr)\<lparr>kw_result := pr\<rparr>)\<rparr>))))))))"

definition ijjs_kcp_proto_funcs :: "(string \<times> nat) list" where
  "ijjs_kcp_proto_funcs = [(''recv'', 1), (''send'', 2), (''getconv'', 0), (''nodelay'', 4), (''setwndsize'', 2),
     (''setmtu'', 1), (''close'', 0), (''fileno'', 0), (''getsockname'', 0), (''getpeername'', 0),
     (''connect'', 1), (''bind'', 2)]"

section \<open>Receiving a message\<close>

lemma kcps_more: "rt.more w' = rt.more w \<Longrightarrow> kcps w' = kcps w \<and> kcb_live w' = kcb_live w"
  by (cases w; cases w') simp

lemma kc_upd_frame [simp]:
  "refs (kc_upd k f w) = refs w" "proms (kc_upd k f w) = proms w" "blk (kc_upd k f w) = blk w"
  "tick (kc_upd k f w) = tick w" "oom (kc_upd k f w) = oom w" "hnd (kc_upd k f w) = hnd w" "funs (kc_upd k f w) = funs w"
  "opaque (kc_upd k f w) = opaque w" "kcb_live (kc_upd k f w) = kcb_live w" "kwreqs (kc_upd k f w) = kwreqs w"
  "kcps (kc_upd k f w) = (kcps w)(k := f (kcps w k))"
  by (simp_all add: kc_upd_def)

text \<open>C39. A message arrives: a datagram that completes a message of at most the size asked for fulfils the
  pending receive with the message, its flags and the sender, gives all references of the receive
  back and leaves the object ready for the next one; a longer message is written past the end of
  the buffer.\<close>

theorem kcp_recv_delivers:
  assumes "k \<noteq> 0" "blk w k \<noteq> NoBlock" "kcb_live w (kc_kcp (kcps w k))" "blk w base = JsBlock"
    and "promise_live p r0 r1 (kc_read (kcps w k)) w" "\<forall>n. \<not> oom w n" "0 \<le> nread" "msg \<noteq> []"
    and "kcp_message K (kc_kcp (kcps w k)) (take (nat nread) data) = Some msg"
  shows "(int (length msg) \<le> kc_read_size (kcps w k) \<longrightarrow>
      (\<exists>w'. uvKcpRecvCb E N K k nread base data (Some sa) flags w = Inr w' \<and>
        proms w' p = Fulfilled (JS_Object [(''data'', JS_Uint8Array msg 0 (length msg)),
          (''flags'', JS_NewInt32 flags), (''addr'', ijAddr2Obj N sa)]) \<and>
        refs w' = (refs w)(p := refs w p - 1, r0 := refs w r0 - 2, r1 := refs w r1 - 2) \<and>
        \<not> ijIsPromisePending (kc_read (kcps w' k)) \<and> \<not> kc_receiving (kcps w' k))) \<and>
    (kc_read_size (kcps w k) < int (length msg) \<longrightarrow>
      uvKcpRecvCb E N K k nread base data (Some sa) flags w = Inl BufferOverflow)"
proof -
  let ?arg = "JS_Object [(''data'', JS_Uint8Array msg 0 (length msg)), (''flags'', JS_NewInt32 flags),
    (''addr'', ijAddr2Obj N sa)]"
  let ?s = "kc_upd k (\<lambda>t. t\<lparr>kc_receiving := False\<rparr>) w"
  obtain u where u: "ijNewUint8Array base msg ?s = Inr (JS_Uint8Array msg 0 (length msg), u)"
    "refs u = refs w" "proms u = proms w" "funs u = funs w" "rt.more u = rt.more ?s"
    using assms(4,6) by (auto simp: buffer_defs kc_upd_def)
  have l: "promise_live p r0 r1 (kc_read (kcps u k)) u"
    using assms(5) u(2-4) kcps_more [OF u(5)] by (simp add: promise_live_def)
  have o: "owned ?arg 1 u" by (simp add: owned_def)
  have s: "ijSettlePromise E (kc_read (kcps u k)) False [?arg] u = Inr ((kc_read (kcps u k))\<lparr>pr_valid := False\<rparr>,
      u\<lparr>refs := settled_refs p r0 r1 ?arg (refs u), proms := (proms u)(p := settled_state False ?arg)\<rparr>)"
    by (rule ijSettlePromise_live [OF l o]) simp
  have "distinct [p, r0, r1]" using assms(5) by (simp add: promise_live_def)
  then have r: "settled_refs p r0 r1 ?arg (refs w) = (refs w)(p := refs w p - 1, r0 := refs w r0 - 2, r1 := refs w r1 - 2)"
    by (auto simp: settled_refs_def fun_eq_iff)
  have m: "kcps u = kcps ?s" using kcps_more [OF u(5)] by simp
  have "uvKcpRecvCb E N K k nread base data (Some sa) flags w =
      (if int (length msg) > kc_read_size (kcps w k) then Inl BufferOverflow
       else Inr (kc_upd k (\<lambda>t. t\<lparr>kc_read := ijClearPromise ((kc_read (kcps u k))\<lparr>pr_valid := False\<rparr>)\<rparr>)
        (u\<lparr>refs := settled_refs p r0 r1 ?arg (refs u), proms := (proms u)(p := settled_state False ?arg)\<rparr>)))"
    using assms(1-3,7-9) u(1) s by (simp add: uvKcpRecvCb_def deref_def ikcp_use_def Let_def)
  then show ?thesis
    using u(2,3) r m by (auto simp: settled_state_def ijIsPromisePending_def ijClearPromise_def JS_IsUndefined_def)
qed

section \<open>The end of an object\<close>

lemma new_kcp:
  assumes "ijNewKcp K af conv w0 = Inr (JS_Ref ob, w)"
  shows "\<exists>k. k \<noteq> 0 \<and> opaque w ob = (ijjs_kcp_class_id, k) \<and> blk w k = JeBlock \<and> hnd w k 0 = HOpen \<and>
    hnd w k 1 = HOpen \<and> kcb_live w (kc_kcp (kcps w k)) \<and> kc_read (kcps w k) = clear_promise \<and>
    \<not> kc_closed (kcps w k) \<and> \<not> kc_finalized (kcps w k) \<and> kc_write (kcps w k) = 0 \<and> kc_kcp (kcps w k) = kcp_new K \<and>
    kc_nextupdate (kcps w k) = wrap32 (kcp_check K (kcp_new K))"
  using assms
  by (auto simp: ijNewKcp_def JS_NewObjectClass_def je_calloc_def throw_defs JS_IsException_def uv_handle_init_def
      Let_def split: if_splits)

text \<open>Both ways of ending an object release its control block twice. Dropping it: the finalizer
  releases it and requests the close, whose callback releases it again. Closing it first: the close
  callback releases it, the idle handle, which close does not stop, uses it when the next update is
  due, and the finalizer releases it again.\<close>

theorem kcp_released_twice:
  assumes "ijNewKcp K af conv w0 = Inr (JS_Ref ob, w)" "wrap32 (kcp_check K (kcp_new K)) \<le> k_now K"
  shows "\<exists>k. (\<exists>w1. ijKcpFinalizer (JS_Ref ob) w = Inr w1 \<and> hnd w1 k 0 = HClosing \<and>
      uvKcpCloseCb k (uv_finish_close k 0 w1) = Inl DoubleFree) \<and>
    (\<exists>w1 w2. ijKcpClose E (JS_Ref ob) w = Inr (JS_UNDEFINED, w1) \<and> hnd w1 k 0 = HClosing \<and>
      uvKcpCloseCb k (uv_finish_close k 0 w1) = Inr w2 \<and>
      uvKcpUpdateCb E K k w2 = Inl UseAfterFree \<and> ijKcpFinalizer (JS_Ref ob) w2 = Inl DoubleFree)"
proof -
  obtain k where k: "k \<noteq> 0" "opaque w ob = (ijjs_kcp_class_id, k)" "blk w k = JeBlock" "hnd w k 0 = HOpen"
    "hnd w k 1 = HOpen" "kcb_live w (kc_kcp (kcps w k))" "kc_read (kcps w k) = clear_promise"
    "\<not> kc_closed (kcps w k)" "\<not> kc_finalized (kcps w k)" "kc_kcp (kcps w k) = kcp_new K"
    "kc_nextupdate (kcps w k) = wrap32 (kcp_check K (kcp_new K))"
    using new_kcp [OF assms(1)] by (elim exE conjE) (rule that)
  note d = deref_def uv_close_def uv_is_closing_def uv_finish_close_def ikcp_release_def Let_def
  have "\<exists>w1. ijKcpFinalizer (JS_Ref ob) w = Inr w1 \<and> hnd w1 k 0 = HClosing \<and>
      uvKcpCloseCb k (uv_finish_close k 0 w1) = Inl DoubleFree"
    using k by (simp add: ijKcpFinalizer_def ijFreePromiseRT_def clear_promise_def uvKcpMaybeClose_def uvKcpCloseCb_def d)
  moreover have "\<exists>w1 w2. ijKcpClose E (JS_Ref ob) w = Inr (JS_UNDEFINED, w1) \<and> hnd w1 k 0 = HClosing \<and>
      uvKcpCloseCb k (uv_finish_close k 0 w1) = Inr w2 \<and>
      uvKcpUpdateCb E K k w2 = Inl UseAfterFree \<and> ijKcpFinalizer (JS_Ref ob) w2 = Inl DoubleFree"
    using k assms(2)
    by (simp add: ijKcpClose_def ijKcpGet_def JS_GetOpaque2_def ijIsPromisePending_def clear_promise_def JS_IsUndefined_def
        uvKcpMaybeClose_def uvKcpCloseCb_def uvKcpUpdateCb_def ijKcpFinalizer_def ikcp_use_def d)
  ultimately show ?thesis by blast
qed

text \<open>An object that only receives: the library acknowledges what it received through the output
  function, which takes the send request for granted.\<close>

lemma kcp_acknowledge_without_send:
  assumes "ijNewKcp K af conv w0 = Inr (JS_Ref ob, w)" "wrap32 (kcp_check K (kcp_new K)) \<le> k_now K"
    and "kcp_packets K (kcp_new K) \<noteq> []"
  shows "\<exists>k. opaque w ob = (ijjs_kcp_class_id, k) \<and> uvKcpUpdateCb E K k w = Inl NullDeref"
proof -
  obtain b bs where b: "kcp_packets K (kcp_new K) = b # bs" using assms(3) by (cases "kcp_packets K (kcp_new K)") auto
  obtain k where k: "k \<noteq> 0" "opaque w ob = (ijjs_kcp_class_id, k)" "blk w k = JeBlock"
    "kcb_live w (kc_kcp (kcps w k))" "kc_write (kcps w k) = 0" "kc_kcp (kcps w k) = kcp_new K"
    "kc_nextupdate (kcps w k) = wrap32 (kcp_check K (kcp_new K))"
    using new_kcp [OF assms(1)] by (elim exE conjE) (rule that)
  have "kcpOutput E K k b w = Inl NullDeref"
    using k by (simp add: kcpOutput_def deref_def Let_def)
  then have "uvKcpUpdateCb E K k w = Inl NullDeref"
    using k assms(2) b by (simp add: uvKcpUpdateCb_def deref_def ikcp_use_def Let_def)
  then show ?thesis using k(2) by blast
qed

definition kcp_world :: kcp_rt where
  "kcp_world = vm_rt.extend vm_world (kcp_rt.fields
     (\<lambda>_. \<lparr>kc_closed = False, kc_finalized = False, kc_kcp = 7, kc_sa = None, kc_conv = 0, kc_read_size = 8,
       kc_read = \<lparr>pr_p = JS_Ref 1, pr_rfuncs0 = JS_Ref 2, pr_rfuncs1 = JS_Ref 3, pr_valid = True\<rparr>,
       kc_receiving = True, kc_write = 0, kc_nextupdate = 0, kc_opts = [], kc_queued = [], kc_wire = []\<rparr>)
     (\<lambda>_. \<lparr>kw_result = clear_promise\<rparr>) (\<lambda>c. c = 7))"

definition plain_kcp :: kcpenv where
  "plain_kcp = \<lparr>k_EBUSY = - 16, k_udp_init = (\<lambda>_. 0), k_idle_start = 0, k_try_send = (\<lambda>s. int (length s)),
     k_send = (\<lambda>_. 0), k_recv_start = 0, k_fileno = (0, 3), k_sockname = (0, SockOther 0),
     k_peername = (0, SockOther 0), k_connect = (\<lambda>_. 0), k_bind = (\<lambda>_ _. 0), k_now = 10, kcp_new = 7,
     kcp_check = (\<lambda>_. 0), kcp_packets = (\<lambda>_. []), kcp_message = (\<lambda>_ s. Some s)\<rparr>"

definition kcp_demo :: kcp_rt where
  "kcp_demo = kcp_world\<lparr>tick := 9, refs := (\<lambda>_. 2), proms := (\<lambda>_. Pending),
     funs := (\<lambda>_. NotFun)(2 := ResolveFun 1, 3 := RejectFun 1), blk := (\<lambda>_. NoBlock)(4 := JeBlock, 5 := JsBlock)\<rparr>"

lemmas kcp_demo_defs = kcp_demo_def kcp_world_def vm_world_defs kcp_rt.defs

theorem kcp_recv_delivers_witness:
  "\<forall>N. \<exists>w'. uvKcpRecvCb plain_env N plain_kcp 4 2 5 ''hi'' (Some (SockOther 0)) 0 kcp_demo = Inr w' \<and>
    \<not> ijIsPromisePending (kc_read (kcps w' 4))"
proof (rule allI)
  fix N
  have "(4::nat) \<noteq> 0" "blk kcp_demo 4 \<noteq> NoBlock" "kcb_live kcp_demo (kc_kcp (kcps kcp_demo 4))"
    "blk kcp_demo 5 = JsBlock" "promise_live 1 2 3 (kc_read (kcps kcp_demo 4)) kcp_demo" "\<forall>n. \<not> oom kcp_demo n"
    "(0::int) \<le> 2" "''hi'' \<noteq> []"
    "kcp_message plain_kcp (kc_kcp (kcps kcp_demo 4)) (take (nat 2) ''hi'') = Some ''hi''"
    by (simp_all add: kcp_demo_defs promise_live_def plain_kcp_def)
  from kcp_recv_delivers [OF this, of plain_env N "SockOther 0" 0]
  have "int (length ''hi'') \<le> kc_read_size (kcps kcp_demo 4) \<longrightarrow>
    (\<exists>w'. uvKcpRecvCb plain_env N plain_kcp 4 2 5 ''hi'' (Some (SockOther 0)) 0 kcp_demo = Inr w' \<and>
      \<not> ijIsPromisePending (kc_read (kcps w' 4)))" by blast
  moreover have "int (length ''hi'') \<le> kc_read_size (kcps kcp_demo 4)" by (simp add: kcp_demo_defs)
  ultimately show "\<exists>w'. uvKcpRecvCb plain_env N plain_kcp 4 2 5 ''hi'' (Some (SockOther 0)) 0 kcp_demo = Inr w' \<and>
    \<not> ijIsPromisePending (kc_read (kcps w' 4))" by blast
qed

theorem kcp_released_twice_witness:
  "\<exists>ob w k w1. ijNewKcp plain_kcp 2 0 kcp_demo = Inr (JS_Ref ob, w) \<and> ijKcpFinalizer (JS_Ref ob) w = Inr w1 \<and>
    uvKcpCloseCb k (uv_finish_close k 0 w1) = Inl DoubleFree"
proof -
  obtain w where n: "ijNewKcp plain_kcp 2 0 kcp_demo = Inr (JS_Ref 9, w)"
    by (simp add: ijNewKcp_def JS_NewObjectClass_def je_calloc_def JS_IsException_def plain_kcp_def kcp_demo_defs Let_def)
  have "wrap32 (kcp_check plain_kcp (kcp_new plain_kcp)) \<le> k_now plain_kcp" by (simp add: plain_kcp_def wrap32_def)
  from kcp_released_twice [OF n this, of plain_env] n show ?thesis by blast
qed

end
