(* ===== verification/Wasm.thy ===== *)
theory Wasm
  imports Vm
begin

text \<open>
  ijwasm.c: WebAssembly modules and instances over the wasm3 interpreter. wasm3 is a parameter; of it
  the code relies on that a parsed module refers to the bytes it was parsed from, which are read
  when a function is looked up and compiled.
\<close>

section \<open>Data\<close>

text \<open>\<open>wm_bytes\<close> is the block of the copied bytes and \<open>wm_data\<close> its contents; an instance remembers
  in \<open>wi_bytes\<close> which block its module was parsed from, as wasm3 does,
  and in \<open>wi_compiled\<close> the functions already compiled.\<close>

record IJJSWasmModule =
  wm_module :: bool
  wm_bytes :: nat
  wm_data :: string

record IJJSWasmInstance =
  wi_runtime :: bool
  wi_module :: bool
  wi_loaded :: bool
  wi_bytes :: nat
  wi_data :: string
  wi_compiled :: "string list"

record wasm_rt = vm_rt +
  wmods :: "nat \<Rightarrow> IJJSWasmModule"
  winsts :: "nat \<Rightarrow> IJJSWasmInstance"

datatype wasm_result = WNone | WI32 "32 word" | WI64 "64 word" | WF32 "32 word" | WF64 "64 word"

text \<open>wasm3: errors are messages. \<open>m3_run\<close> is the outcome of a call, with its arguments as strings
  (None for one that could not be converted).\<close>

record wasmenv =
  m3_parse :: "string \<Rightarrow> string option"
  m3_names :: "string \<Rightarrow> string option list"
  m3_new_runtime :: bool
  m3_load :: "string \<Rightarrow> string option"
  m3_find :: "string \<Rightarrow> string \<Rightarrow> string option"
  m3_run :: "string \<Rightarrow> string \<Rightarrow> string option list \<Rightarrow> string + wasm_result"
  m3_link_wasi :: "string \<Rightarrow> string option"
  f32_double :: "32 word \<Rightarrow> 64 word"

definition ijjs_wasm_module_class_id :: nat where "ijjs_wasm_module_class_id = 64"
definition ijjs_wasm_instance_class_id :: nat where "ijjs_wasm_instance_class_id = 65"

section \<open>Objects\<close>

definition ijWasmModuleFinalizer :: "jsval \<Rightarrow> 'z wasm_rt_scheme \<Rightarrow> 'z wasm_rt_scheme res" where
  "ijWasmModuleFinalizer val w =
     (let m = JS_GetOpaque val ijjs_wasm_module_class_id w in
      if m = 0 then Inr w
      else bindE (deref m w) (\<lambda>w. bindE (js_free (wm_bytes (wmods w m)) w) (js_free m)))"

definition ijWasmInstanceFinalizer :: "jsval \<Rightarrow> 'z wasm_rt_scheme \<Rightarrow> 'z wasm_rt_scheme res" where
  "ijWasmInstanceFinalizer val w =
     (let i = JS_GetOpaque val ijjs_wasm_instance_class_id w in
      if i = 0 then Inr w else bindE (deref i w) (js_free i))"

definition ijNewWasmModule :: "'z wasm_rt_scheme \<Rightarrow> (jsval \<times> 'z wasm_rt_scheme) res" where
  "ijNewWasmModule w = (case JS_NewObjectClass ijjs_wasm_module_class_id w of (obj, w) \<Rightarrow>
     if JS_IsException obj then Inr (obj, w)
     else case js_malloc w of (m, w) \<Rightarrow>
       if m = 0 then bindE (JS_FreeValue obj w) (\<lambda>w. Inr (JS_EXCEPTION, w))
       else Inr (obj, JS_SetOpaque obj m
              (w\<lparr>wmods := (wmods w)(m := \<lparr>wm_module = False, wm_bytes = 0, wm_data = []\<rparr>)\<rparr>)))"

definition ijWasmModuleGet :: "jsval \<Rightarrow> 'z wasm_rt_scheme \<Rightarrow> nat \<times> 'z wasm_rt_scheme" where
  "ijWasmModuleGet obj w = JS_GetOpaque2 obj ijjs_wasm_module_class_id w"

definition ijNewWasmInstance :: "'z wasm_rt_scheme \<Rightarrow> (jsval \<times> 'z wasm_rt_scheme) res" where
  "ijNewWasmInstance w = (case JS_NewObjectClass ijjs_wasm_instance_class_id w of (obj, w) \<Rightarrow>
     if JS_IsException obj then Inr (obj, w)
     else case js_malloc w of (i, w) \<Rightarrow>
       if i = 0 then bindE (JS_FreeValue obj w) (\<lambda>w. Inr (JS_EXCEPTION, w))
       else Inr (obj, JS_SetOpaque obj i
              (w\<lparr>winsts := (winsts w)(i := \<lparr>wi_runtime = False, wi_module = False, wi_loaded = False,
                wi_bytes = 0, wi_data = [], wi_compiled = []\<rparr>)\<rparr>)))"

definition ijWasmInstanceGet :: "jsval \<Rightarrow> 'z wasm_rt_scheme \<Rightarrow> nat \<times> 'z wasm_rt_scheme" where
  "ijWasmInstanceGet obj w = JS_GetOpaque2 obj ijjs_wasm_instance_class_id w"

text \<open>The error object carries the message and the kind of error; null is thrown when it cannot be
  allocated.\<close>

definition ijThrowWasmError :: "string \<Rightarrow> string \<Rightarrow> 'z wasm_rt_scheme \<Rightarrow> jsval \<times> 'z wasm_rt_scheme" where
  "ijThrowWasmError name r w = (case JS_NewError w of (obj, w) \<Rightarrow>
     JS_Throw (if JS_IsException obj then JS_NULL
       else JS_ErrorObj ''Error'' [(''message'', JS_Str r), (''wasmError'', JS_Str name)]) w)"

section \<open>Calls\<close>

text \<open>The strings of the arguments after the name, with their pointers.\<close>

fun conv_args :: "jsenv \<Rightarrow> jsval list \<Rightarrow> 'z rt_scheme \<Rightarrow> (nat \<times> string) list \<times> 'z rt_scheme" where
  "conv_args E [] w = ([], w)"
| "conv_args E (v # vs) w = (case JS_ToCString E v w of (p, s, w) \<Rightarrow>
     case conv_args E vs w of (cs, w) \<Rightarrow> ((p, s) # cs, w))"

definition JS_NewBigInt64 :: "int \<Rightarrow> jsval" where
  "JS_NewBigInt64 i = JS_BigUint i"

fun wasm_value :: "wasmenv \<Rightarrow> wasm_result \<Rightarrow> jsval" where
  "wasm_value A (WI32 val) = JS_NewInt32 (sint val)"
| "wasm_value A (WI64 val) =
     (if sint val = to_s32 (sint val) then JS_NewInt32 (to_s32 (sint val)) else JS_NewBigInt64 (sint val))"
| "wasm_value A (WF32 val) = JS_Float64 (f32_double A val)"
| "wasm_value A (WF64 val) = JS_Float64 val"
| "wasm_value A WNone = JS_UNDEFINED"

text \<open>Looking a function up compiles it the first time, from the bytes of the module.\<close>

definition m3_FindFunction ::
    "wasmenv \<Rightarrow> nat \<Rightarrow> string \<Rightarrow> 'z wasm_rt_scheme \<Rightarrow> (string option \<times> 'z wasm_rt_scheme) res" where
  "m3_FindFunction A i fname w =
     (let t = winsts w i in
      if \<not> wi_runtime t then Inl NullDeref
      else case m3_find A (wi_data t) fname of
        Some r \<Rightarrow> Inr (Some r, w)
      | None \<Rightarrow>
          if fname \<in> set (wi_compiled t) then Inr (None, w)
          else bindE (deref (wi_bytes t) w) (\<lambda>w.
            Inr (None, w\<lparr>winsts := (winsts w)(i := t\<lparr>wi_compiled := wi_compiled t @ [fname]\<rparr>)\<rparr>)))"

definition ijWasmCallFunction ::
    "jsenv \<Rightarrow> wasmenv \<Rightarrow> nat \<Rightarrow> jsval \<Rightarrow> jsval list \<Rightarrow> 'z wasm_rt_scheme \<Rightarrow> (jsval \<times> 'z wasm_rt_scheme) res" where
  "ijWasmCallFunction E A qrt this argv w = (case ijWasmInstanceGet this w of (i, w) \<Rightarrow>
     if i = 0 then Inr (JS_EXCEPTION, w)
     else case JS_ToCString E (argn 0 argv) w of (f, fname, w) \<Rightarrow>
       if f = 0 then Inr (JS_EXCEPTION, w)
       else bindE (CHECK (qrt \<noteq> 0) w) (\<lambda>w.
         bindE (deref i w) (\<lambda>w.
         bindE (m3_FindFunction A i fname w) (\<lambda>(r, w).
         bindE (JS_FreeCString (f, 0) w) (\<lambda>w.
         case r of Some e \<Rightarrow> Inr (ijThrowWasmError ''RuntimeError'' e w)
         | None \<Rightarrow>
           if argv = [] then Inl BufferOverflow
           else case conv_args E (tl argv) w of (cs, w) \<Rightarrow>
             let r = m3_run A (wi_data (winsts w i)) fname (map (\<lambda>(p, s). if p = 0 then None else Some s) cs) in
             bindE (forE (\<lambda>(p, _). JS_FreeCString (p, 0)) cs w) (\<lambda>w.
             case r of Inl e \<Rightarrow> Inr (ijThrowWasmError ''RuntimeError'' e w)
             | Inr v \<Rightarrow> Inr (wasm_value A v, w)))))))"

definition ijWasmLinkWasi ::
    "wasmenv \<Rightarrow> jsval \<Rightarrow> 'z wasm_rt_scheme \<Rightarrow> (jsval \<times> 'z wasm_rt_scheme) res" where
  "ijWasmLinkWasi A this w = (case ijWasmInstanceGet this w of (i, w) \<Rightarrow>
     if i = 0 then Inr (JS_EXCEPTION, w)
     else bindE (deref i w) (\<lambda>w. case m3_link_wasi A (wi_data (winsts w i)) of
         Some r \<Rightarrow> Inr (ijThrowWasmError ''LinkError'' r w)
       | None \<Rightarrow> Inr (JS_UNDEFINED, w)))"

section \<open>Modules and instances\<close>

definition ijWasmBuildInstance ::
    "wasmenv \<Rightarrow> nat \<Rightarrow> jsval list \<Rightarrow> 'z wasm_rt_scheme \<Rightarrow> (jsval \<times> 'z wasm_rt_scheme) res" where
  "ijWasmBuildInstance A qrt argv w = (case ijWasmModuleGet (argn 0 argv) w of (m, w) \<Rightarrow>
     if m = 0 then Inr (JS_EXCEPTION, w)
     else bindE (ijNewWasmInstance w) (\<lambda>(obj, w).
       if JS_IsException obj then Inr (obj, w)
       else case ijWasmInstanceGet obj w of (i, w) \<Rightarrow>
         bindE (CHECK (qrt \<noteq> 0) w) (\<lambda>w.
         bindE (deref m w) (\<lambda>w.
         bindE (deref (wm_bytes (wmods w m)) w) (\<lambda>w.
         bindE (CHECK (m3_parse A (wm_data (wmods w m)) = None) w) (\<lambda>w.
         let t = \<lparr>wi_runtime = m3_new_runtime A, wi_module = True, wi_loaded = False,
               wi_bytes = wm_bytes (wmods w m), wi_data = wm_data (wmods w m), wi_compiled = []\<rparr>;
             w = w\<lparr>winsts := (winsts w)(i := t)\<rparr> in
         if \<not> wi_runtime t then bindE (JS_FreeValue obj w) (\<lambda>w. Inr (JS_ThrowOutOfMemory w))
         else case m3_load A (wi_data t) of
           Some r \<Rightarrow> bindE (JS_FreeValue obj w) (\<lambda>w. Inr (ijThrowWasmError ''LinkError'' r w))
         | None \<Rightarrow> Inr (obj, w\<lparr>winsts := (winsts w)(i := t\<lparr>wi_loaded := True\<rparr>)\<rparr>)))))))"

definition export_item :: "string \<Rightarrow> jsval" where
  "export_item name = JS_Object [(''name'', JS_Str name), (''kind'', JS_Str ''function'')]"

definition ijWasmModuleExports ::
    "wasmenv \<Rightarrow> jsval list \<Rightarrow> 'z wasm_rt_scheme \<Rightarrow> (jsval \<times> 'z wasm_rt_scheme) res" where
  "ijWasmModuleExports A argv w = (case ijWasmModuleGet (argn 0 argv) w of (m, w) \<Rightarrow>
     if m = 0 then Inr (JS_EXCEPTION, w)
     else bindE (deref m w) (\<lambda>w.
       if \<not> wm_module (wmods w m) then Inl NullDeref
       else Inr (JS_Array (map export_item (map the (filter (\<lambda>n. n \<noteq> None) (m3_names A (wm_data (wmods w m)))))), w)))"

text \<open>The bytes of an array buffer or of a typed array; the failed first attempt leaves its exception
  pending when the second succeeds.\<close>

definition module_bytes :: "jsval \<Rightarrow> 'z rt_scheme \<Rightarrow> string option \<times> 'z rt_scheme" where
  "module_bytes v w = (case v of
     JS_ArrayBuffer buf \<Rightarrow> (Some buf, w)
   | _ \<Rightarrow> (let w = snd (JS_ThrowTypeError ''not an ArrayBuffer'' w) in
       case typed_array_bytes v of
         None \<Rightarrow> (None, snd (JS_ThrowTypeError ''not a TypedArray'' w))
       | Some bytes \<Rightarrow> (Some bytes, w)))"

definition ijWasmParseModule ::
    "wasmenv \<Rightarrow> nat \<Rightarrow> jsval list \<Rightarrow> 'z wasm_rt_scheme \<Rightarrow> (jsval \<times> 'z wasm_rt_scheme) res" where
  "ijWasmParseModule A qrt argv w = bindE (CHECK (qrt \<noteq> 0) w) (\<lambda>w.
     case module_bytes (argn 0 argv) w of
       (None, w) \<Rightarrow> Inr (JS_EXCEPTION, w)
     | (Some buf, w) \<Rightarrow>
       bindE (ijNewWasmModule w) (\<lambda>(obj, w).
       case ijWasmModuleGet obj w of (m, w) \<Rightarrow>
       bindE (deref m w) (\<lambda>w.
       case js_malloc w of (b, w) \<Rightarrow>
       if b = 0 then bindE (JS_FreeValue obj w) (\<lambda>w. Inr (JS_EXCEPTION, w))
       else
         let w = w\<lparr>wmods := (wmods w)(m := \<lparr>wm_module = False, wm_bytes = b, wm_data = buf\<rparr>)\<rparr> in
         case m3_parse A buf of
           Some r \<Rightarrow> bindE (JS_FreeValue obj w) (\<lambda>w. Inr (ijThrowWasmError ''CompileError'' r w))
         | None \<Rightarrow> Inr (obj, w\<lparr>wmods := (wmods w)(m := (wmods w m)\<lparr>wm_module := True\<rparr>)\<rparr>))))"

definition ijjs_wasm_funcs :: "(string \<times> nat) list" where
  "ijjs_wasm_funcs = [(''buildInstance'', 1), (''moduleExports'', 1), (''parseModule'', 1)]"

definition ijjs_wasm_instance_funcs :: "(string \<times> nat) list" where
  "ijjs_wasm_instance_funcs = [(''callFunction'', 1), (''linkWasi'', 0)]"

section \<open>What a call returns\<close>

lemma wasms_more: "rt.more w' = rt.more w \<Longrightarrow> winsts w' = winsts w \<and> wmods w' = wmods w"
  by (cases w; cases w') simp

lemma conv_args_strings:
  assumes "\<forall>v\<in>set vs. to_cstr E v \<noteq> None" "fresh_blk w"
  shows "\<exists>cs w'. conv_args E vs w = (cs, w') \<and> map snd cs = map (\<lambda>v. the (to_cstr E v)) vs \<and>
    distinct (map fst cs) \<and> (\<forall>p\<in>set (map fst cs). tick w < p \<and> p \<le> tick w' \<and> blk w' p = CString \<and> handles_quiet p w') \<and>
    (\<forall>q. q \<notin> set (map fst cs) \<longrightarrow> blk w' q = blk w q) \<and> rt.more w' = rt.more w \<and> refs w' = refs w \<and>
    tick w \<le> tick w' \<and> (\<forall>q\<le>tick w. hnd w' q = hnd w q)"
  using assms
proof (induction vs arbitrary: w)
  case (Cons v vs)
  obtain s where s: "to_cstr E v = Some s" using Cons.prems(1) by auto
  let ?w = "w\<lparr>tick := Suc (tick w), blk := (blk w)(Suc (tick w) := CString),
    hnd := (hnd w)(Suc (tick w) := (\<lambda>_. HNone))\<rparr>"
  have j: "JS_ToCString E v w = (Suc (tick w), s, ?w)" by (simp add: JS_ToCString_def s)
  have "fresh_blk ?w" using Cons.prems(2) by (auto simp: fresh_blk_def)
  then obtain cs w' where i: "conv_args E vs ?w = (cs, w')" "map snd cs = map (\<lambda>v. the (to_cstr E v)) vs"
    "distinct (map fst cs)" "\<forall>p\<in>set (map fst cs). tick ?w < p \<and> p \<le> tick w' \<and> blk w' p = CString \<and> handles_quiet p w'"
    "\<forall>q. q \<notin> set (map fst cs) \<longrightarrow> blk w' q = blk ?w q" "rt.more w' = rt.more ?w" "refs w' = refs ?w"
    "tick ?w \<le> tick w'" "\<forall>q\<le>tick ?w. hnd w' q = hnd ?w q"
    using Cons.IH [of ?w] Cons.prems(1) by auto
  have n: "Suc (tick w) \<notin> set (map fst cs)" using i(4) by auto
  have "blk w' (Suc (tick w)) = CString" "handles_quiet (Suc (tick w)) w'"
    using i(5,9) n by (auto simp: handles_quiet_def)
  then show ?case
    using i n s by (intro exI [of _ "(Suc (tick w), s) # cs"] exI [of _ w']) (auto simp: j)
qed simp

lemma free_strings:
  assumes "distinct (map fst cs)" "\<forall>p\<in>set (map fst cs). p \<noteq> 0 \<and> blk w p = CString \<and> handles_quiet p w"
  shows "forE (\<lambda>(p, _). JS_FreeCString (p, 0)) cs w =
    Inr (w\<lparr>blk := (\<lambda>q. if q \<in> set (map fst cs) then NoBlock else blk w q)\<rparr>)"
  using assms
proof (induction cs arbitrary: w)
  case (Cons c cs)
  let ?w = "w\<lparr>blk := (blk w)(fst c := NoBlock)\<rparr>"
  have "JS_FreeCString (fst c, 0) w = Inr ?w" using Cons.prems(2) by (simp add: JS_FreeCString_def free_block_def)
  moreover have "forE (\<lambda>(p, _). JS_FreeCString (p, 0)) cs ?w =
      Inr (?w\<lparr>blk := (\<lambda>q. if q \<in> set (map fst cs) then NoBlock else blk ?w q)\<rparr>)"
  proof (rule Cons.IH)
    have "fst c \<notin> set (map fst cs)" using Cons.prems(1) by simp
    then show "\<forall>p\<in>set (map fst cs). p \<noteq> 0 \<and> blk ?w p = CString \<and> handles_quiet p ?w"
      using Cons.prems(2) by (simp add: handles_quiet_def) (metis image_eqI)
  qed (use Cons.prems(1) in simp)
  ultimately show ?case by (cases c) (auto simp: fun_eq_iff intro!: arg_cong [of _ _ "\<lambda>b. w\<lparr>blk := b\<rparr>"])
qed simp

text \<open>The integer a JS value denotes.\<close>

fun js_integer :: "jsval \<Rightarrow> int option" where
  "js_integer (JS_Int i) = Some i"
| "js_integer (JS_BigUint i) = Some i"
| "js_integer _ = None"

lemma wasm_value_exact:
  "js_integer (wasm_value A (WI32 a)) = Some (sint a)" "js_integer (wasm_value A (WI64 b)) = Some (sint b)"
proof -
  have "- (2 ^ 31) \<le> sint a" "sint a < 2 ^ 31" using sint_range_size [of a] by (simp_all add: word_size)
  then show "js_integer (wasm_value A (WI32 a)) = Some (sint a)" by (simp add: JS_NewInt32_def to_s32_id)
  show "js_integer (wasm_value A (WI64 b)) = Some (sint b)"
    using to_s32_range [of "sint b"] by (auto simp: JS_NewInt32_def JS_NewBigInt64_def to_s32_id)
qed

lemma find_live:
  assumes "wi_runtime (winsts w i)" "m3_find A (wi_data (winsts w i)) fname = None"
    and "wi_bytes (winsts w i) \<noteq> 0" "blk w (wi_bytes (winsts w i)) \<noteq> NoBlock"
  shows "\<exists>w'. m3_FindFunction A i fname w = Inr (None, w') \<and> blk w' = blk w \<and> refs w' = refs w \<and>
    tick w' = tick w \<and> hnd w' = hnd w \<and> wi_data (winsts w' i) = wi_data (winsts w i)"
  using assms by (cases "fname \<in> set (wi_compiled (winsts w i))") (simp_all add: m3_FindFunction_def deref_def Let_def)

text \<open>C40. Calling a function of an instance whose module is alive: the arguments are passed as their
  strings in order, the result comes back as the JS value of its type, with 32 and 64-bit integers
  exact, and every string that was borrowed is given back.\<close>

theorem wasm_call_exact:
  assumes "ijWasmInstanceGet this w = (i, w)" "i \<noteq> 0" "blk w i \<noteq> NoBlock" "qrt \<noteq> 0" "fresh_blk w"
    and "wi_runtime (winsts w i)" "wi_bytes (winsts w i) \<noteq> 0" "blk w (wi_bytes (winsts w i)) \<noteq> NoBlock"
    and "to_cstr E a = Some fname" "\<forall>v\<in>set args. to_cstr E v \<noteq> None"
    and "m3_find A (wi_data (winsts w i)) fname = None"
    and "m3_run A (wi_data (winsts w i)) fname (map (to_cstr E) args) = Inr v"
  shows "\<exists>w'. ijWasmCallFunction E A qrt this (a # args) w = Inr (wasm_value A v, w') \<and> blk w' = blk w \<and>
    refs w' = refs w \<and> (\<forall>x. v = WI32 x \<longrightarrow> js_integer (wasm_value A v) = Some (sint x)) \<and>
    (\<forall>x. v = WI64 x \<longrightarrow> js_integer (wasm_value A v) = Some (sint x))"
proof -
  let ?f = "Suc (tick w)" and ?t = "winsts w i"
  obtain w1 where w1: "JS_ToCString E a w = (?f, fname, w1)" "blk w1 = (blk w)(?f := CString)" "refs w1 = refs w"
    "tick w1 = ?f" "winsts w1 = winsts w" "hnd w1 ?f = (\<lambda>_. HNone)"
    using assms(9) by (simp add: JS_ToCString_def)
  have old: "i \<le> tick w" "wi_bytes ?t \<le> tick w" "blk w ?f = NoBlock"
    using assms(3,5,8) by (metis fresh_blk_def not_le, metis fresh_blk_def not_le, simp add: fresh_blk_def)
  have "blk w1 (wi_bytes (winsts w1 i)) \<noteq> NoBlock" using assms(8) w1(2,5) by simp
  then obtain w2 where w2: "m3_FindFunction A i fname w1 = Inr (None, w2)" "blk w2 = blk w1" "refs w2 = refs w1"
    "tick w2 = tick w1" "hnd w2 = hnd w1" "wi_data (winsts w2 i) = wi_data ?t"
    using find_live [of w1 i A fname] assms(6-8,11) w1(2,5) by auto
  let ?w3 = "w2\<lparr>blk := (blk w2)(?f := NoBlock)\<rparr>"
  have b3: "blk ?w3 = blk w" using w1(2) w2(2) old(3) by (auto simp: fun_eq_iff)
  have f3: "JS_FreeCString (?f, 0) w2 = Inr ?w3"
    using w1(2,6) w2(2,5) by (simp add: JS_FreeCString_def free_block_def handles_quiet_def)
  have fr3: "fresh_blk ?w3" using assms(5) b3 w1(4) w2(4) unfolding fresh_blk_def by simp
  obtain cs w4 where c: "conv_args E args ?w3 = (cs, w4)" "map snd cs = map (\<lambda>v. the (to_cstr E v)) args"
    "distinct (map fst cs)" "\<forall>p\<in>set (map fst cs). tick ?w3 < p \<and> p \<le> tick w4 \<and> blk w4 p = CString \<and> handles_quiet p w4"
    "\<forall>q. q \<notin> set (map fst cs) \<longrightarrow> blk w4 q = blk ?w3 q" "rt.more w4 = rt.more ?w3" "refs w4 = refs ?w3"
    using conv_args_strings [OF assms(10) fr3] by (elim exE conjE) (rule that)
  have nz: "\<forall>p\<in>set (map fst cs). p \<noteq> 0" using c(4) by auto
  have args: "map (\<lambda>(p, s). if p = 0 then None else Some s) cs = map (to_cstr E) args"
  proof -
    have "map (\<lambda>(p, s). if p = 0 then None else Some s) cs = map Some (map snd cs)"
      unfolding map_map by (rule map_cong) (use nz in \<open>auto split: prod.splits\<close>)
    then show ?thesis using c(2) assms(10) by auto
  qed
  let ?w5 = "w4\<lparr>blk := (\<lambda>q. if q \<in> set (map fst cs) then NoBlock else blk w4 q)\<rparr>"
  have f5: "forE (\<lambda>(p, _). JS_FreeCString (p, 0)) cs w4 = Inr ?w5"
    by (rule free_strings [OF c(3)]) (use c(4) in auto)
  have b5: "blk ?w5 = blk w"
  proof
    fix q
    show "blk ?w5 q = blk w q"
      using c(4,5) b3 assms(5) w1(4) w2(4) by (cases "q \<in> set (map fst cs)") (auto simp: fresh_blk_def)
  qed
  have "wi_data (winsts w4 i) = wi_data ?t" using wasms_more [OF c(6)] w2(6) by simp
  then have "ijWasmCallFunction E A qrt this (a # args) w = Inr (wasm_value A v, ?w5)"
    using assms(1-4,12) old(1) w1(1,2) w2(1) f3 c(1) args f5
    by (simp add: ijWasmCallFunction_def argn_def deref_def Let_def)
  moreover have "refs ?w5 = refs w" using c(7) w2(3) w1(3) by simp
  ultimately show ?thesis using b5 wasm_value_exact(1) wasm_value_exact(2) by (intro exI [of _ ?w5]) simp
qed

text \<open>An instance needs the bytes of its module: once the module object was finalized, looking up a
  function that is not compiled yet reads freed memory. wasm.js keeps the module with every
  instance it makes.\<close>

lemma instance_needs_module:
  assumes "JS_GetOpaque mobj ijjs_wasm_module_class_id w = m" "m \<noteq> 0" "ijWasmModuleFinalizer mobj w = Inr w'"
    and "wi_bytes (winsts w i) = wm_bytes (wmods w m)" "wi_bytes (winsts w i) \<noteq> 0" "wi_runtime (winsts w i)"
    and "m3_find A (wi_data (winsts w i)) fname = None" "fname \<notin> set (wi_compiled (winsts w i))"
  shows "m3_FindFunction A i fname w' = Inl UseAfterFree"
proof -
  have "winsts w' = winsts w" "blk w' (wm_bytes (wmods w m)) = NoBlock"
    using assms(1-5) by (auto simp: ijWasmModuleFinalizer_def Let_def deref_def js_free_def free_block_def split: if_splits)
  then show ?thesis using assms(4-8) by (simp add: m3_FindFunction_def deref_def Let_def)
qed

definition wasm_world :: wasm_rt where
  "wasm_world = (vm_rt.extend vm_world (wasm_rt.fields (\<lambda>_. \<lparr>wm_module = True, wm_bytes = 5, wm_data = ''m''\<rparr>)
     (\<lambda>_. \<lparr>wi_runtime = True, wi_module = True, wi_loaded = True, wi_bytes = 5, wi_data = ''m'', wi_compiled = []\<rparr>)))
     \<lparr>tick := 9, blk := (\<lambda>_. NoBlock)(4 := JsBlock, 5 := JsBlock),
      opaque := (\<lambda>_. (0, 0))(3 := (ijjs_wasm_instance_class_id, 4))\<rparr>"

definition plain_wasm :: wasmenv where
  "plain_wasm = \<lparr>m3_parse = (\<lambda>_. None), m3_names = (\<lambda>_. [Some ''neg'']), m3_new_runtime = True, m3_load = (\<lambda>_. None),
     m3_find = (\<lambda>_ _. None), m3_run = (\<lambda>_ _ _. Inr (WI64 (- 5000000000))), m3_link_wasi = (\<lambda>_. None), f32_double = ucast\<rparr>"

theorem wasm_call_exact_witness:
  "\<exists>v w'. ijWasmCallFunction plain_env plain_wasm 9 (JS_Ref 3) [JS_Str ''neg'', JS_Str ''5''] wasm_world = Inr (v, w') \<and>
    blk w' = blk wasm_world \<and> js_integer v = Some (sint (- 5000000000 :: 64 word))"
proof -
  have "ijWasmInstanceGet (JS_Ref 3) wasm_world = (4, wasm_world)" "(4::nat) \<noteq> 0" "blk wasm_world 4 \<noteq> NoBlock" "(9::nat) \<noteq> 0"
    "fresh_blk wasm_world" "wi_runtime (winsts wasm_world 4)" "wi_bytes (winsts wasm_world 4) \<noteq> 0"
    "blk wasm_world (wi_bytes (winsts wasm_world 4)) \<noteq> NoBlock" "to_cstr plain_env (JS_Str ''neg'') = Some ''neg''"
    "\<forall>v\<in>set [JS_Str ''5'']. to_cstr plain_env v \<noteq> None" "m3_find plain_wasm (wi_data (winsts wasm_world 4)) ''neg'' = None"
    "m3_run plain_wasm (wi_data (winsts wasm_world 4)) ''neg'' (map (to_cstr plain_env) [JS_Str ''5'']) = Inr (WI64 (- 5000000000))"
    by (simp_all add: wasm_world_def vm_world_defs wasm_rt.defs ijWasmInstanceGet_def JS_GetOpaque2_def fresh_blk_def
        plain_env_def plain_wasm_def)
  from wasm_call_exact [OF this] show ?thesis by (elim exE conjE) (intro exI conjI, assumption, assumption, simp)
qed

end
