(* ===== verification/Core.thy ===== *)
theory Core
  imports Timers Signals StreamClasses Udp Process Worker Fs Misc Dns Log Xhr Kcp Wasm
begin

text \<open>
  The native module \<open>@ijjs/core\<close>: the property tables of every component, the classes they
  register, and the two passes of ijvm.c that declare (\<open>ijInitModuleUV\<close>) and later set
  (\<open>ijInit\<close>) the exports. The built-in scripts reach all native code through this module.

  The property says that the two passes agree: what is declared is set, to a value of the kind its
  table gives, and every class has its prototype.
\<close>

section \<open>Tables, classes and exports\<close>

text \<open>Entries of a JSCFunctionListEntry table: a function with its declared argument count, an
  accessor (is there a setter), an integer and a string constant.\<close>

datatype entry = CFUNC string nat | CGETSET string bool | PROP_INT32 string int | PROP_STRING string string

fun entry_name :: "entry \<Rightarrow> string" where
  "entry_name (CFUNC n l) = n"
| "entry_name (CGETSET n s) = n"
| "entry_name (PROP_INT32 n i) = n"
| "entry_name (PROP_STRING n s) = n"

record JSClassDef =
  class_name :: string
  has_mark :: bool

datatype export_value =
    EFunction nat | EInt int | EString string | EValue jsval
  | EObject "entry list" | EConstructor nat nat "entry list"

text \<open>Classes and prototypes by class id; exports in the order of their declaration, unset at first;
  \<open>rejected\<close> are declarations of a name that exists, \<open>lost\<close> values set under no declared name.\<close>

record core =
  class_defs :: "(nat \<times> JSClassDef) list"
  class_protos :: "(nat \<times> entry list option) list"
  exports :: "(string \<times> export_value option) list"
  rejected :: "string list"
  lost :: "string list"

definition JS_AddModuleExport :: "string \<Rightarrow> core \<Rightarrow> core" where
  "JS_AddModuleExport n m = (if n \<in> set (map fst (exports m)) then m\<lparr>rejected := rejected m @ [n]\<rparr>
     else m\<lparr>exports := exports m @ [(n, None)]\<rparr>)"

fun JS_AddModuleExportList :: "entry list \<Rightarrow> core \<Rightarrow> core" where
  "JS_AddModuleExportList [] m = m"
| "JS_AddModuleExportList (e # es) m =
     (let m' = JS_AddModuleExport (entry_name e) m
      in if rejected m' \<noteq> rejected m then m' else JS_AddModuleExportList es m')"

definition JS_SetModuleExport :: "string \<Rightarrow> export_value \<Rightarrow> core \<Rightarrow> core" where
  "JS_SetModuleExport n v m = (if n \<in> set (map fst (exports m))
     then m\<lparr>exports := map (\<lambda>(k, x). if k = n then (k, Some v) else (k, x)) (exports m)\<rparr>
     else m\<lparr>lost := lost m @ [n]\<rparr>)"

fun entry_value :: "entry \<Rightarrow> export_value res" where
  "entry_value (CFUNC n l) = Inr (EFunction l)"
| "entry_value (CGETSET n s) = Inl AbortCalled"
| "entry_value (PROP_INT32 n i) = Inr (EInt i)"
| "entry_value (PROP_STRING n s) = Inr (EString s)"

fun JS_SetModuleExportList :: "entry list \<Rightarrow> core \<Rightarrow> core res" where
  "JS_SetModuleExportList [] m = Inr m"
| "JS_SetModuleExportList (e # es) m = bindE (entry_value e) (\<lambda>v.
     let m' = JS_SetModuleExport (entry_name e) v m
     in if lost m' \<noteq> lost m then Inr m' else JS_SetModuleExportList es m')"

definition JS_NewClass :: "nat \<Rightarrow> JSClassDef \<Rightarrow> core \<Rightarrow> core" where
  "JS_NewClass i d m = (if i \<in> set (map fst (class_defs m)) then m else m\<lparr>class_defs := class_defs m @ [(i, d)]\<rparr>)"

definition JS_SetClassProto :: "nat \<Rightarrow> entry list option \<Rightarrow> core \<Rightarrow> core" where
  "JS_SetClassProto i p m = m\<lparr>class_protos := filter (\<lambda>(j, _). j \<noteq> i) (class_protos m) @ [(i, p)]\<rparr>"

section \<open>The tables\<close>

text \<open>\<open>defined\<close> and \<open>sys\<close> are the preprocessor's knowledge: which optional constants the platform
  has, and the value of each constant. \<open>uv_errnos\<close> is the error map of libuv.\<close>

record platform =
  defined :: "string \<Rightarrow> bool"
  sys :: "string \<Rightarrow> int"
  uv_errnos :: "string list"
  misc_env :: miscenv

definition IJJS_CONST :: "platform \<Rightarrow> string \<Rightarrow> entry" where
  "IJJS_CONST P n = PROP_INT32 n (to_s32 (sys P n))"

definition optional :: "platform \<Rightarrow> string list \<Rightarrow> entry list" where
  "optional P ns = map (IJJS_CONST P) (filter (defined P) ns)"

definition cfuncs :: "(string \<times> nat) list \<Rightarrow> entry list" where
  "cfuncs fs = map (\<lambda>(n, l). CFUNC n l) fs"

definition tag :: "string \<Rightarrow> entry" where
  "tag s = PROP_STRING ''[Symbol.toStringTag]'' s"

definition ijjs_dns_funcs :: "platform \<Rightarrow> entry list" where
  "ijjs_dns_funcs P = CFUNC ''getaddrinfo'' 2 # optional P [''AI_PASSIVE'', ''AI_CANONNAME'', ''AI_NUMERICHOST'',
     ''AI_V4MAPPED'', ''AI_ALL'', ''AI_ADDRCONFIG'', ''AI_NUMERICSERV'']"

definition ijjs_error_funcs :: "platform \<Rightarrow> entry list" where
  "ijjs_error_funcs P = CFUNC ''strerror'' 1 # map (\<lambda>e. PROP_INT32 (''UV_'' @ e) (to_s32 (sys P (''UV_'' @ e)))) (uv_errnos P)"

definition ijjs_file_proto_funcs :: "entry list" where
  "ijjs_file_proto_funcs = [CFUNC ''read'' 2, CFUNC ''write'' 2, CFUNC ''close'' 0, CFUNC ''fileno'' 0, CFUNC ''stat'' 0,
     CGETSET ''path'' False, tag ''File'']"

definition ijjs_dir_proto_funcs :: "entry list" where
  "ijjs_dir_proto_funcs = [CFUNC ''close'' 0, CGETSET ''path'' False, CFUNC ''next'' 0, tag ''Dir'',
     CFUNC ''[Symbol.asyncIterator]'' 0]"

definition ijjs_fs_funcs :: "platform \<Rightarrow> entry list" where
  "ijjs_fs_funcs P = map (IJJS_CONST P) [''UV_DIRENT_UNKNOWN'', ''UV_DIRENT_FILE'', ''UV_DIRENT_DIR'', ''UV_DIRENT_LINK'',
       ''UV_DIRENT_FIFO'', ''UV_DIRENT_SOCKET'', ''UV_DIRENT_CHAR'', ''UV_DIRENT_BLOCK'', ''UV_FS_COPYFILE_EXCL'',
       ''UV_FS_COPYFILE_FICLONE'', ''UV_FS_COPYFILE_FICLONE_FORCE'', ''S_IFMT'', ''S_IFIFO'', ''S_IFCHR'', ''S_IFDIR'',
       ''S_IFBLK'', ''S_IFREG''] @
     optional P [''S_IFSOCK''] @ [IJJS_CONST P ''S_IFLNK''] @ optional P [''S_ISGID'', ''S_ISUID''] @
     cfuncs [(''open'', 3), (''stat'', 1), (''lstat'', 1), (''realpath'', 1), (''unlink'', 1), (''rename'', 2),
       (''mkdtemp'', 1), (''mkstemp'', 1), (''rmdir'', 1), (''copyfile'', 3), (''readdir'', 1), (''readFile'', 1)]"

definition ijjs_process_proto_funcs :: "entry list" where
  "ijjs_process_proto_funcs = [CFUNC ''kill'' 1, CFUNC ''wait'' 0, CGETSET ''pid'' False, CGETSET ''stdin'' False,
     CGETSET ''stdout'' False, CGETSET ''stderr'' False, tag ''Process'']"

definition ijjs_process_funcs :: "entry list" where
  "ijjs_process_funcs = [CFUNC ''spawn'' 2]"

definition ijjs_signal_handler_proto_funcs :: "entry list" where
  "ijjs_signal_handler_proto_funcs = [CFUNC ''close'' 0, CGETSET ''signum'' False, tag ''Signal Handler'']"

definition signal_names :: "string list" where
  "signal_names = [''SIGHUP'', ''SIGINT'', ''SIGQUIT'', ''SIGILL'', ''SIGTRAP'', ''SIGABRT'', ''SIGIOT'', ''SIGBUS'',
     ''SIGFPE'', ''SIGKILL'', ''SIGUSR1'', ''SIGSEGV'', ''SIGUSR2'', ''SIGPIPE'', ''SIGALRM'', ''SIGTERM'', ''SIGCHLD'',
     ''SIGSTKFLT'', ''SIGCONT'', ''SIGSTOP'', ''SIGTSTP'', ''SIGBREAK'', ''SIGTTIN'', ''SIGTTOU'', ''SIGURG'', ''SIGXCPU'',
     ''SIGXFSZ'', ''SIGVTALRM'', ''SIGPROF'', ''SIGWINCH'', ''SIGIO'', ''SIGPOLL'', ''SIGLOST'', ''SIGPWR'', ''SIGINFO'',
     ''SIGSYS'', ''SIGUNUSED'']"

definition ijjs_signal_funcs :: "platform \<Rightarrow> entry list" where
  "ijjs_signal_funcs P = optional P signal_names @ [CFUNC ''signal'' 2]"

definition ijjs_std_funcs :: "entry list" where
  "ijjs_std_funcs = cfuncs [(''exit'', 1), (''gc'', 0), (''evalScript'', 1), (''loadScript'', 1)]"

definition ijjs_tcp_class_funcs :: "platform \<Rightarrow> entry list" where
  "ijjs_tcp_class_funcs P = [PROP_INT32 ''IPV6ONLY'' (to_s32 (sys P ''UV_TCP_IPV6ONLY''))]"

definition ijjs_tty_class_funcs :: "platform \<Rightarrow> entry list" where
  "ijjs_tty_class_funcs P = [PROP_INT32 ''MODE_NORMAL'' (to_s32 (sys P ''UV_TTY_MODE_NORMAL'')),
     PROP_INT32 ''MODE_RAW'' (to_s32 (sys P ''UV_TTY_MODE_RAW'')), PROP_INT32 ''MODE_IO'' (to_s32 (sys P ''UV_TTY_MODE_IO''))]"

definition ijjs_timer_funcs :: "entry list" where
  "ijjs_timer_funcs = cfuncs [(''setTimeout'', 2), (''clearTimeout'', 1), (''setInterval'', 2), (''clearInterval'', 1)] @
     [tag ''Timer'']"

definition udp_class_funcs :: "platform \<Rightarrow> entry list" where
  "udp_class_funcs P = [PROP_INT32 ''IPV6ONLY'' (to_s32 (sys P ''UV_UDP_IPV6ONLY'')),
     PROP_INT32 ''PARTIAL'' (to_s32 (sys P ''UV_UDP_PARTIAL'')), PROP_INT32 ''REUSEADDR'' (to_s32 (sys P ''UV_UDP_REUSEADDR''))]"

definition ijjs_worker_proto_funcs :: "entry list" where
  "ijjs_worker_proto_funcs = [CFUNC ''postMessage'' 1, CFUNC ''terminate'' 0, CGETSET ''onmessage'' True,
     CGETSET ''onmessageerror'' True, CGETSET ''onerror'' True, tag ''Worker'']"

definition ijjs_xhr_class_funcs :: "entry list" where
  "ijjs_xhr_class_funcs = [PROP_INT32 ''UNSENT'' (int XHR_RSTATE_UNSENT), PROP_INT32 ''OPENED'' (int XHR_RSTATE_OPENED),
     PROP_INT32 ''HEADERS_RECEIVED'' (int XHR_RSTATE_HEADERS_RECEIVED), PROP_INT32 ''LOADING'' (int XHR_RSTATE_LOADING),
     PROP_INT32 ''DONE'' (int XHR_RSTATE_DONE)]"

definition ijjs_xhr_proto_funcs :: "entry list" where
  "ijjs_xhr_proto_funcs = map (\<lambda>n. CGETSET n True) [''onabort'', ''onerror'', ''onload'', ''onloadend'', ''onloadstart'',
       ''onprogress'', ''onreadystatechange'', ''ontimeout''] @
     [CGETSET ''readyState'' False, CGETSET ''response'' False, CGETSET ''responseText'' False, CGETSET ''responseType'' True,
      CGETSET ''responseURL'' False, CGETSET ''status'' False, CGETSET ''statusText'' False, CGETSET ''timeout'' True,
      CGETSET ''upload'' False, CGETSET ''withCcredentials'' True] @
     cfuncs [(''abort'', 0), (''getAllResponseHeaders'', 0), (''getResponseHeader'', 1), (''open'', 5),
       (''overrideMimeType'', 1), (''send'', 1), (''setRequestHeader'', 2)]"

section \<open>Registering the components\<close>

definition ijjs_log_class_id :: nat where "ijjs_log_class_id = 71"

definition new_class :: "nat \<Rightarrow> string \<Rightarrow> bool \<Rightarrow> entry list \<Rightarrow> core \<Rightarrow> core" where
  "new_class i n mark proto m =
     JS_SetClassProto i (Some proto) (JS_NewClass i \<lparr>class_name = n, has_mark = mark\<rparr> m)"

definition ijModDNSInit :: "platform \<Rightarrow> core \<Rightarrow> core" where
  "ijModDNSInit P m = JS_SetModuleExport ''dns'' (EObject (ijjs_dns_funcs P)) m"

definition ijModDNSExport :: "core \<Rightarrow> core" where
  "ijModDNSExport m = JS_AddModuleExport ''dns'' m"

definition ijModErrorInit :: "platform \<Rightarrow> core \<Rightarrow> core" where
  "ijModErrorInit P m = JS_SetModuleExport ''Error'' (EConstructor 0 1 (ijjs_error_funcs P)) m"

definition ijModErrorExport :: "core \<Rightarrow> core" where
  "ijModErrorExport m = JS_AddModuleExport ''Error'' m"

definition ijModFSInit :: "platform \<Rightarrow> core \<Rightarrow> core" where
  "ijModFSInit P m =
     (let m = new_class ijjs_file_class_id ''File'' False ijjs_file_proto_funcs m;
          m = new_class ijjs_dir_class_id ''Directory'' False ijjs_dir_proto_funcs m
      in JS_SetModuleExport ''fs'' (EObject (ijjs_fs_funcs P)) m)"

definition ijModFSExport :: "core \<Rightarrow> core" where
  "ijModFSExport m = JS_AddModuleExport ''fs'' m"

fun misc_value :: "export \<Rightarrow> export_value" where
  "misc_value (Value v) = EValue v"
| "misc_value (CFunc n) = EFunction n"

definition misc_init :: "platform \<Rightarrow> core \<Rightarrow> core" where
  "misc_init P m = fold (\<lambda>(n, e). JS_SetModuleExport n (misc_value e)) (ijModMiscInit (misc_env P)) m"

definition misc_export :: "platform \<Rightarrow> core \<Rightarrow> core" where
  "misc_export P m = fold JS_AddModuleExport (ijModMiscExport (misc_env P)) m"

definition ijModProcessInit :: "core \<Rightarrow> core res" where
  "ijModProcessInit m = JS_SetModuleExportList ijjs_process_funcs
     (new_class ijjs_process_class_id ''Process'' True ijjs_process_proto_funcs m)"

definition ijModProcessExport :: "core \<Rightarrow> core" where
  "ijModProcessExport m = JS_AddModuleExportList ijjs_process_funcs m"

definition ijModSignalsInit :: "platform \<Rightarrow> core \<Rightarrow> core res" where
  "ijModSignalsInit P m = JS_SetModuleExportList (ijjs_signal_funcs P)
     (new_class ijjs_signal_handler_class_id ''SignalHandler'' True ijjs_signal_handler_proto_funcs m)"

definition ijModSignalsExport :: "platform \<Rightarrow> core \<Rightarrow> core" where
  "ijModSignalsExport P m = JS_AddModuleExportList (ijjs_signal_funcs P) m"

definition ijModStdInit :: "core \<Rightarrow> core res" where
  "ijModStdInit m = JS_SetModuleExportList ijjs_std_funcs m"

definition ijModStdExport :: "core \<Rightarrow> core" where
  "ijModStdExport m = JS_AddModuleExportList ijjs_std_funcs m"

definition ijModStreamsInit :: "platform \<Rightarrow> core \<Rightarrow> core" where
  "ijModStreamsInit P m =
     (let m = new_class ijjs_tcp_class_id ''TCP'' True (cfuncs ijjs_tcp_proto_funcs @ [tag ''TCP'']) m;
          m = JS_SetModuleExport ''TCP'' (EConstructor ijjs_tcp_class_id 1 (ijjs_tcp_class_funcs P)) m;
          m = new_class ijjs_tty_class_id ''TTY'' True (cfuncs ijjs_tty_proto_funcs @ [tag ''TTY'']) m;
          m = JS_SetModuleExport ''TTY'' (EConstructor ijjs_tty_class_id 1 (ijjs_tty_class_funcs P)) m;
          m = new_class ijjs_pipe_class_id ''Pipe'' True (cfuncs ijjs_pipe_proto_funcs @ [tag ''Pipe'']) m
      in JS_SetModuleExport ''Pipe'' (EConstructor ijjs_pipe_class_id 1 []) m)"

definition ijModStreamsExport :: "core \<Rightarrow> core" where
  "ijModStreamsExport m = JS_AddModuleExport ''Pipe'' (JS_AddModuleExport ''TTY'' (JS_AddModuleExport ''TCP'' m))"

definition ijModTimersInit :: "core \<Rightarrow> core res" where
  "ijModTimersInit m = JS_SetModuleExportList ijjs_timer_funcs
     (JS_NewClass ijjs_timer_class_id \<lparr>class_name = ''Timer'', has_mark = True\<rparr> m)"

definition ijModTimersExport :: "core \<Rightarrow> core" where
  "ijModTimersExport m = JS_AddModuleExportList ijjs_timer_funcs m"

definition ijModUdpInit :: "platform \<Rightarrow> core \<Rightarrow> core" where
  "ijModUdpInit P m =
     JS_SetModuleExport ''UDP'' (EConstructor ijjs_udp_class_id 1 (udp_class_funcs P))
       (new_class ijjs_udp_class_id ''UDP'' True (cfuncs ijjs_udp_proto_funcs @ [tag ''UDP'']) m)"

definition ijModUdpExport :: "core \<Rightarrow> core" where
  "ijModUdpExport m = JS_AddModuleExport ''UDP'' m"

definition ijModWasmInit :: "core \<Rightarrow> core" where
  "ijModWasmInit m =
     (let m = JS_SetClassProto ijjs_wasm_module_class_id None
            (JS_NewClass ijjs_wasm_module_class_id \<lparr>class_name = ''Module'', has_mark = False\<rparr> m);
          m = new_class ijjs_wasm_instance_class_id ''Instance'' False (cfuncs ijjs_wasm_instance_funcs) m
      in JS_SetModuleExport ''wasm'' (EObject (cfuncs ijjs_wasm_funcs)) m)"

definition ijModWasmExport :: "core \<Rightarrow> core" where
  "ijModWasmExport m = JS_AddModuleExport ''wasm'' m"

definition ijModWorkerInit :: "core \<Rightarrow> core" where
  "ijModWorkerInit m = JS_SetModuleExport ''Worker'' (EConstructor ijjs_worker_class_id 1 [])
     (new_class ijjs_worker_class_id ''Worker'' True ijjs_worker_proto_funcs m)"

definition ijModWorkerExport :: "core \<Rightarrow> core" where
  "ijModWorkerExport m = JS_AddModuleExport ''Worker'' m"

definition ijModXhrInit :: "core \<Rightarrow> core" where
  "ijModXhrInit m = JS_SetModuleExport ''XMLHttpRequest'' (EConstructor ijjs_xhr_class_id 1 ijjs_xhr_class_funcs)
     (new_class ijjs_xhr_class_id ''XMLHttpRequest'' True ijjs_xhr_proto_funcs m)"

definition ijModXhrExport :: "core \<Rightarrow> core" where
  "ijModXhrExport m = JS_AddModuleExport ''XMLHttpRequest'' m"

text \<open>The log object is made first and exported last; in between the log is opened (\<open>Log\<close>).\<close>

definition log_init :: "logenv \<Rightarrow> core \<times> 'z log_rt_scheme \<Rightarrow> (core \<times> 'z log_rt_scheme) res" where
  "log_init L s = (case s of (m, w) \<Rightarrow>
     bindE (ijModLogInit L w) (\<lambda>w.
     Inr (JS_SetModuleExport ''log'' (EObject (cfuncs ijjs_log_proto_funcs))
       (JS_NewClass ijjs_log_class_id \<lparr>class_name = ''log'', has_mark = False\<rparr> m), w)))"

definition ijModLogExport :: "core \<Rightarrow> core" where
  "ijModLogExport m = JS_AddModuleExport ''log'' m"

definition ijModKcpInit :: "platform \<Rightarrow> core \<Rightarrow> core" where
  "ijModKcpInit P m =
     JS_SetModuleExport ''KCP'' (EConstructor ijjs_kcp_class_id 2 (udp_class_funcs P))
       (new_class ijjs_kcp_class_id ''KCP'' True (cfuncs ijjs_kcp_proto_funcs @ [tag ''KCP'']) m)"

definition ijModKcpExport :: "core \<Rightarrow> core" where
  "ijModKcpExport m = JS_AddModuleExport ''KCP'' m"

section \<open>The two passes\<close>

definition ijInit :: "platform \<Rightarrow> logenv \<Rightarrow> core \<times> 'z log_rt_scheme \<Rightarrow> (core \<times> 'z log_rt_scheme) res" where
  "ijInit P L s = (case s of (m, w) \<Rightarrow>
     bindE (ijModProcessInit (misc_init P (ijModFSInit P (ijModErrorInit P (ijModDNSInit P m))))) (\<lambda>m.
     bindE (ijModSignalsInit P m) (\<lambda>m.
     bindE (ijModStdInit m) (\<lambda>m.
     bindE (ijModTimersInit (ijModStreamsInit P m)) (\<lambda>m.
     bindE (log_init L (ijModXhrInit (ijModWorkerInit (ijModWasmInit (ijModUdpInit P m))), w)) (\<lambda>(m, w).
     Inr (ijModKcpInit P m, w)))))))"

definition ijInitModuleUV :: "platform \<Rightarrow> core \<Rightarrow> core" where
  "ijInitModuleUV P m =
     (let m = ijModDNSExport m; m = ijModErrorExport m; m = ijModFSExport m; m = misc_export P m;
          m = ijModProcessExport m; m = ijModStdExport m; m = ijModStreamsExport m; m = ijModSignalsExport P m;
          m = ijModTimersExport m; m = ijModUdpExport m; m = ijModWasmExport m; m = ijModWorkerExport m;
          m = ijModXhrExport m; m = ijModLogExport m
      in ijModKcpExport m)"

definition new_core :: core where
  "new_core = \<lparr>class_defs = [], class_protos = [], exports = [], rejected = [], lost = []\<rparr>"

section \<open>What the passes do to the exports\<close>

definition set_in :: "string \<times> export_value \<Rightarrow> (string \<times> export_value option) list \<Rightarrow> (string \<times> export_value option) list" where
  "set_in b xs = map (\<lambda>(k, x). if k = fst b then (k, Some (snd b)) else (k, x)) xs"

lemma set_in_names [simp]: "map fst (set_in b xs) = map fst xs"
  by (induction xs) (auto simp: set_in_def)

lemma fold_set_in_names [simp]: "map fst (fold set_in bs xs) = map fst xs"
  by (induction bs arbitrary: xs) auto

lemma fold_set_in:
  "fold set_in bs (map (\<lambda>n. (n, g n)) D) = map (\<lambda>n. (n, case map_of (rev bs) n of Some v \<Rightarrow> Some v | None \<Rightarrow> g n)) D"
proof (induction bs arbitrary: g)
  case (Cons b bs)
  have "set_in b (map (\<lambda>n. (n, g n)) D) = map (\<lambda>n. (n, if n = fst b then Some (snd b) else g n)) D"
    by (auto simp: set_in_def)
  then show ?case using Cons [of "\<lambda>n. if n = fst b then Some (snd b) else g n"]
    by (cases b) (auto simp: map_add_def split: option.splits)
qed simp

definition declared :: "string list \<Rightarrow> core \<Rightarrow> bool" where
  "declared D m \<longleftrightarrow> map fst (exports m) = D \<and> rejected m = [] \<and> lost m = []"

text \<open>\<open>bound bs m m'\<close>: the step from \<open>m\<close> to \<open>m'\<close> gave the names of \<open>bs\<close> their values and nothing else.\<close>

definition bound :: "(string \<times> export_value) list \<Rightarrow> core \<Rightarrow> core \<Rightarrow> bool" where
  "bound bs m m' \<longleftrightarrow> exports m' = fold set_in bs (exports m) \<and> rejected m' = rejected m \<and> lost m' = lost m"

lemma bound_trans: "bound as l m \<Longrightarrow> bound bs m n \<Longrightarrow> bound (as @ bs) l n"
  by (simp add: bound_def)

lemma bound_declared: "bound bs m m' \<Longrightarrow> declared D m \<Longrightarrow> declared D m'"
  by (simp add: bound_def declared_def)

lemma set_bound: "declared D m \<Longrightarrow> n \<in> set D \<Longrightarrow> bound [(n, v)] m (JS_SetModuleExport n v m)"
  by (auto simp: declared_def bound_def JS_SetModuleExport_def set_in_def)

lemma class_bound: "bound [] m (JS_NewClass i d m)" "bound [] m (new_class i n k p m)" "bound [] m (JS_SetClassProto i q m)"
  by (simp_all add: bound_def JS_NewClass_def new_class_def JS_SetClassProto_def)

definition entry_binding :: "entry \<Rightarrow> string \<times> export_value" where
  "entry_binding e = (entry_name e, case entry_value e of Inr v \<Rightarrow> v | Inl _ \<Rightarrow> EInt 0)"

lemma set_list_bound:
  "declared D m \<Longrightarrow> entry_name ` set es \<subseteq> set D \<Longrightarrow> list_all (\<lambda>e. \<exists>v. entry_value e = Inr v) es \<Longrightarrow>
     \<exists>m'. JS_SetModuleExportList es m = Inr m' \<and> bound (map entry_binding es) m m'"
proof (induction es arbitrary: m)
  case Nil then show ?case by (simp add: bound_def)
next
  case (Cons e es)
  obtain v where v: "entry_value e = Inr v" using Cons.prems(3) by auto
  let ?m = "JS_SetModuleExport (entry_name e) v m"
  have b: "bound [(entry_name e, v)] m ?m" using Cons.prems by (intro set_bound) auto
  then obtain m' where m': "JS_SetModuleExportList es ?m = Inr m'" "bound (map entry_binding es) ?m m'"
    using Cons.IH [of ?m] Cons.prems bound_declared by auto
  then show ?case using v b bound_trans [OF b m'(2)] by (auto simp: bound_def entry_binding_def [of e] Let_def)
qed

lemma add_declared: "declared D m \<Longrightarrow> n \<notin> set D \<Longrightarrow> declared (D @ [n]) (JS_AddModuleExport n m)"
  by (auto simp: declared_def JS_AddModuleExport_def)

lemma add_list_declared:
  "declared D m \<Longrightarrow> distinct (D @ map entry_name es) \<Longrightarrow> declared (D @ map entry_name es) (JS_AddModuleExportList es m)"
proof (induction es arbitrary: D m)
  case (Cons e es)
  have "declared (D @ [entry_name e]) (JS_AddModuleExport (entry_name e) m)" using Cons.prems by (intro add_declared) auto
  then show ?case using Cons.IH [of "D @ [entry_name e]"] Cons.prems by (auto simp: declared_def Let_def)
qed simp

lemma fold_add_declared:
  "declared D m \<Longrightarrow> distinct (D @ ns) \<Longrightarrow> declared (D @ ns) (fold JS_AddModuleExport ns m)"
proof (induction ns arbitrary: D m)
  case (Cons n ns)
  have "declared (D @ [n]) (JS_AddModuleExport n m)" using Cons.prems by (intro add_declared) auto
  then show ?case using Cons.IH [of "D @ [n]"] Cons.prems by auto
qed simp

text \<open>The names the module declares, and the values it binds, in the order of the code.\<close>

definition core_names :: "platform \<Rightarrow> string list" where
  "core_names P = [''dns'', ''Error'', ''fs''] @ ijModMiscExport (misc_env P) @ map entry_name ijjs_process_funcs @
     map entry_name ijjs_std_funcs @ [''TCP'', ''TTY'', ''Pipe''] @ map entry_name (ijjs_signal_funcs P) @
     map entry_name ijjs_timer_funcs @ [''UDP'', ''wasm'', ''Worker'', ''XMLHttpRequest'', ''log'', ''KCP'']"

definition core_bindings :: "platform \<Rightarrow> (string \<times> export_value) list" where
  "core_bindings P = [(''dns'', EObject (ijjs_dns_funcs P)), (''Error'', EConstructor 0 1 (ijjs_error_funcs P)),
       (''fs'', EObject (ijjs_fs_funcs P))] @
     map (\<lambda>(n, e). (n, misc_value e)) (ijModMiscInit (misc_env P)) @
     map entry_binding ijjs_process_funcs @ map entry_binding (ijjs_signal_funcs P) @ map entry_binding ijjs_std_funcs @
     [(''TCP'', EConstructor ijjs_tcp_class_id 1 (ijjs_tcp_class_funcs P)),
      (''TTY'', EConstructor ijjs_tty_class_id 1 (ijjs_tty_class_funcs P)),
      (''Pipe'', EConstructor ijjs_pipe_class_id 1 [])] @
     map entry_binding ijjs_timer_funcs @
     [(''UDP'', EConstructor ijjs_udp_class_id 1 (udp_class_funcs P)), (''wasm'', EObject (cfuncs ijjs_wasm_funcs)),
      (''Worker'', EConstructor ijjs_worker_class_id 1 []),
      (''XMLHttpRequest'', EConstructor ijjs_xhr_class_id 1 ijjs_xhr_class_funcs),
      (''log'', EObject (cfuncs ijjs_log_proto_funcs)), (''KCP'', EConstructor ijjs_kcp_class_id 2 (udp_class_funcs P))]"

lemma signal_entry_names: "map entry_name (ijjs_signal_funcs P) = filter (defined P) signal_names @ [''signal'']"
  by (simp add: ijjs_signal_funcs_def optional_def IJJS_CONST_def comp_def)

definition fixed_names1 :: "string list" where
  "fixed_names1 = [''dns'', ''Error'', ''fs'', ''AF_INET'', ''AF_INET6'', ''AF_UNSPEC'', ''STDIN_FILENO'', ''STDOUT_FILENO'',
     ''STDERR_FILENO'', ''hrtime'', ''gettimeofday'', ''uname'', ''isatty'', ''environ'', ''getenv'', ''setenv'', ''unsetenv'',
     ''cwd'', ''homedir'', ''tmpdir'', ''exepath'', ''print'', ''printError'', ''alert'', ''random'', ''args'', ''platform'',
     ''version'', ''versions'', ''spawn'', ''exit'', ''gc'', ''evalScript'', ''loadScript'', ''TCP'', ''TTY'', ''Pipe'']"

definition fixed_names2 :: "string list" where
  "fixed_names2 = [''signal'', ''setTimeout'', ''clearTimeout'', ''setInterval'', ''clearInterval'', ''[Symbol.toStringTag]'',
     ''UDP'', ''wasm'', ''Worker'', ''XMLHttpRequest'', ''log'', ''KCP'']"

lemma core_names_split: "core_names P = fixed_names1 @ filter (defined P) signal_names @ fixed_names2"
  unfolding core_names_def signal_entry_names
  by (simp add: ijModMiscExport_def ijjs_misc_funcs_def ijjs_process_funcs_def ijjs_std_funcs_def ijjs_timer_funcs_def
      cfuncs_def tag_def fixed_names1_def fixed_names2_def)

lemma fixed_names_ok:
  "distinct (fixed_names1 @ fixed_names2)" "distinct signal_names"
  "list_all (\<lambda>n. take 3 n = ''SIG'') signal_names" "list_all (\<lambda>n. take 3 n \<noteq> ''SIG'') (fixed_names1 @ fixed_names2)"
  by code_simp+

lemma core_names_distinct: "distinct (core_names P)"
  using fixed_names_ok unfolding core_names_split by (auto simp: list_all_iff)

lemma entry_binding_names [simp]: "map fst (map entry_binding es) = map entry_name es"
  by (simp add: entry_binding_def comp_def)

lemma swap_middle:
  "set (x @ m @ p @ s @ d @ t @ r) = set (x @ m @ p @ d @ t @ s @ r)"
  "distinct (x @ m @ p @ s @ d @ t @ r) = distinct (x @ m @ p @ d @ t @ s @ r)"
  by auto

lemma core_bindings_order:
  "map fst (core_bindings P) = [''dns'', ''Error'', ''fs''] @ ijModMiscExport (misc_env P) @ map entry_name ijjs_process_funcs @
     map entry_name (ijjs_signal_funcs P) @ map entry_name ijjs_std_funcs @ [''TCP'', ''TTY'', ''Pipe''] @
     map entry_name ijjs_timer_funcs @ [''UDP'', ''wasm'', ''Worker'', ''XMLHttpRequest'', ''log'', ''KCP'']"
proof -
  have "map fst (map (\<lambda>(n, e). (n, misc_value e)) (ijModMiscInit (misc_env P))) = ijModMiscExport (misc_env P)"
    using misc_exports_set [of "misc_env P"] by (simp add: comp_def split_def)
  then show ?thesis unfolding core_bindings_def map_append entry_binding_names by simp
qed

lemma core_bindings_names: "set (map fst (core_bindings P)) = set (core_names P)"
  unfolding core_bindings_order core_names_def by (rule swap_middle)

lemma core_bindings_distinct: "distinct (map fst (core_bindings P))"
  using core_names_distinct [of P] unfolding core_bindings_order core_names_def by (subst swap_middle)

definition adds :: "(core \<Rightarrow> core) \<Rightarrow> string list \<Rightarrow> bool" where
  "adds f ns \<longleftrightarrow> (\<forall>D m. declared D m \<longrightarrow> distinct (D @ ns) \<longrightarrow> declared (D @ ns) (f m))"

lemma adds_one: "adds (JS_AddModuleExport n) [n]"
  by (auto simp: adds_def intro: add_declared)

lemma adds_list: "adds (JS_AddModuleExportList es) (map entry_name es)"
  by (auto simp: adds_def intro: add_list_declared [unfolded append_assoc])

lemma adds_fold: "adds (fold JS_AddModuleExport ns) ns"
  using fold_add_declared by (auto simp: adds_def)

lemma adds_comp:
  assumes "adds f ns" "adds g ms"
  shows "adds (\<lambda>m. g (f m)) (ns @ ms)"
  unfolding adds_def
proof (intro allI impI)
  fix D m assume d: "declared D m" "distinct (D @ ns @ ms)"
  then have "declared (D @ ns) (f m)" using assms(1) unfolding adds_def by (metis append_assoc distinct_append)
  then show "declared (D @ ns @ ms) (g (f m))" using assms(2) d(2) unfolding adds_def by (metis append_assoc)
qed

lemma declares: "declared (core_names P) (ijInitModuleUV P new_core)"
proof -
  note all = adds_comp [OF adds_comp [OF adds_comp [OF adds_comp [OF adds_comp [OF adds_comp [OF adds_comp [OF adds_comp
      [OF adds_comp [OF adds_comp [OF adds_comp [OF adds_comp [OF adds_comp [OF adds_comp [OF adds_comp [OF
      adds_comp [OF adds_one [of "''dns''"] adds_one [of "''Error''"]] adds_one [of "''fs''"]] adds_fold [of
      "ijModMiscExport (misc_env P)"]] adds_list [of ijjs_process_funcs]] adds_list [of ijjs_std_funcs]] adds_one
      [of "''TCP''"]] adds_one [of "''TTY''"]] adds_one [of "''Pipe''"]] adds_list [of "ijjs_signal_funcs P"]]
      adds_list [of ijjs_timer_funcs]] adds_one [of "''UDP''"]] adds_one [of "''wasm''"]] adds_one [of
      "''Worker''"]] adds_one [of "''XMLHttpRequest''"]] adds_one [of "''log''"]] adds_one [of "''KCP''"]]
  have "ijInitModuleUV P new_core = (\<lambda>m. JS_AddModuleExport ''KCP'' (JS_AddModuleExport ''log'' (JS_AddModuleExport ''XMLHttpRequest''
      (JS_AddModuleExport ''Worker'' (JS_AddModuleExport ''wasm'' (JS_AddModuleExport ''UDP'' (JS_AddModuleExportList ijjs_timer_funcs
      (JS_AddModuleExportList (ijjs_signal_funcs P) (JS_AddModuleExport ''Pipe'' (JS_AddModuleExport ''TTY'' (JS_AddModuleExport ''TCP''
      (JS_AddModuleExportList ijjs_std_funcs (JS_AddModuleExportList ijjs_process_funcs (fold JS_AddModuleExport
      (ijModMiscExport (misc_env P)) (JS_AddModuleExport ''fs'' (JS_AddModuleExport ''Error'' (JS_AddModuleExport ''dns'' m)))))))))))))))))
      new_core"
    unfolding ijInitModuleUV_def Let_def ijModDNSExport_def ijModErrorExport_def ijModFSExport_def misc_export_def
      ijModProcessExport_def ijModStdExport_def ijModStreamsExport_def ijModSignalsExport_def ijModTimersExport_def
      ijModUdpExport_def ijModWasmExport_def ijModWorkerExport_def ijModXhrExport_def ijModLogExport_def ijModKcpExport_def ..
  moreover have "declared [] new_core" by (simp add: declared_def new_core_def)
  ultimately show ?thesis
    using all [unfolded adds_def, rule_format, of "[]" new_core] core_names_distinct [of P] by (simp add: core_names_def)
qed

lemma class_set_bound:
  assumes "declared D m" "n \<in> set D"
  shows "bound [(n, v)] m (JS_SetModuleExport n v (new_class i c k p m))" "bound [(n, v)] m (JS_SetModuleExport n v (JS_NewClass i d m))"
  using bound_trans [OF class_bound(2) set_bound [OF bound_declared [OF class_bound(2) assms(1)] assms(2)]]
    bound_trans [OF class_bound(1) set_bound [OF bound_declared [OF class_bound(1) assms(1)] assms(2)]] by simp_all

lemma misc_fold_bound:
  "declared D m \<Longrightarrow> fst ` set kes \<subseteq> set D \<Longrightarrow>
     bound (map (\<lambda>(n, e). (n, misc_value e)) kes) m (fold (\<lambda>(n, e). JS_SetModuleExport n (misc_value e)) kes m)"
proof (induction kes arbitrary: m)
  case (Cons ke kes)
  obtain n e where ke: "ke = (n, e)" by (cases ke)
  have b: "bound [(n, misc_value e)] m (JS_SetModuleExport n (misc_value e) m)"
    using Cons.prems ke by (intro set_bound) auto
  have "bound (map (\<lambda>(n, e). (n, misc_value e)) kes) (JS_SetModuleExport n (misc_value e) m)
      (fold (\<lambda>(n, e). JS_SetModuleExport n (misc_value e)) kes (JS_SetModuleExport n (misc_value e) m))"
    using Cons.IH bound_declared [OF b] Cons.prems by simp
  from bound_trans [OF b this] show ?case using ke by simp
qed (simp add: bound_def)

lemma core_members:
  "{''dns'', ''Error'', ''fs'', ''TCP'', ''TTY'', ''Pipe'', ''UDP'', ''wasm'', ''Worker'', ''XMLHttpRequest'', ''log'', ''KCP''} \<subseteq> set (core_names P)"
  "fst ` set (ijModMiscInit (misc_env P)) \<subseteq> set (core_names P)"
  "entry_name ` set ijjs_process_funcs \<subseteq> set (core_names P)" "entry_name ` set (ijjs_signal_funcs P) \<subseteq> set (core_names P)"
  "entry_name ` set ijjs_std_funcs \<subseteq> set (core_names P)" "entry_name ` set ijjs_timer_funcs \<subseteq> set (core_names P)"
proof -
  have "fst ` set (ijModMiscInit (misc_env P)) = set (ijModMiscExport (misc_env P))"
    using misc_exports_set [of "misc_env P"] by (metis list.set_map)
  then show "fst ` set (ijModMiscInit (misc_env P)) \<subseteq> set (core_names P)" unfolding core_names_def set_append by blast
qed (simp_all only: core_names_def set_append set_map list.set insert_subset empty_subsetI insert_iff Un_iff simp_thms Un_upper1 Un_upper2 le_supI1 le_supI2 subset_refl)

lemma tables_plain:
  "list_all (\<lambda>e. \<exists>v. entry_value e = Inr v) ijjs_process_funcs" "list_all (\<lambda>e. \<exists>v. entry_value e = Inr v) (ijjs_signal_funcs P)"
  "list_all (\<lambda>e. \<exists>v. entry_value e = Inr v) ijjs_std_funcs" "list_all (\<lambda>e. \<exists>v. entry_value e = Inr v) ijjs_timer_funcs"
  by (simp_all add: ijjs_process_funcs_def ijjs_signal_funcs_def ijjs_std_funcs_def ijjs_timer_funcs_def cfuncs_def tag_def
      optional_def IJJS_CONST_def list_all_iff)

lemma set_list_class_bound:
  assumes "declared D m" "bound [] m k" "entry_name ` set es \<subseteq> set D" "list_all (\<lambda>e. \<exists>v. entry_value e = Inr v) es"
  shows "\<exists>m'. JS_SetModuleExportList es k = Inr m' \<and> bound (map entry_binding es) m m'"
proof -
  obtain m' where "JS_SetModuleExportList es k = Inr m'" "bound (map entry_binding es) k m'"
    using set_list_bound [OF bound_declared [OF assms(2,1)] assms(3,4)] by blast
  then show ?thesis using bound_trans [OF assms(2)] by fastforce
qed

lemma init_first_bound:
  assumes "declared (core_names P) m"
  shows "\<exists>m'. ijModProcessInit (misc_init P (ijModFSInit P (ijModErrorInit P (ijModDNSInit P m)))) = Inr m' \<and>
    bound ([(''dns'', EObject (ijjs_dns_funcs P)), (''Error'', EConstructor 0 1 (ijjs_error_funcs P)), (''fs'', EObject (ijjs_fs_funcs P))] @
      map (\<lambda>(n, e). (n, misc_value e)) (ijModMiscInit (misc_env P)) @ map entry_binding ijjs_process_funcs) m m'"
proof -
  let ?D = "core_names P"
  have n: "''dns'' \<in> set ?D" "''Error'' \<in> set ?D" "''fs'' \<in> set ?D" using core_members(1) [of P] by auto
  let ?m1 = "ijModDNSInit P m" let ?m2 = "ijModErrorInit P ?m1" let ?m3 = "ijModFSInit P ?m2" let ?m4 = "misc_init P ?m3"
  have b1: "bound [(''dns'', EObject (ijjs_dns_funcs P))] m ?m1" using set_bound [OF assms n(1)] by (simp add: ijModDNSInit_def)
  note d1 = bound_declared [OF b1 assms]
  have b2: "bound [(''Error'', EConstructor 0 1 (ijjs_error_funcs P))] ?m1 ?m2" using set_bound [OF d1 n(2)] by (simp add: ijModErrorInit_def)
  note d2 = bound_declared [OF b2 d1]
  have b3: "bound [(''fs'', EObject (ijjs_fs_funcs P))] ?m2 ?m3"
    using bound_trans [OF class_bound(2) class_set_bound(1) [OF bound_declared [OF class_bound(2) d2] n(3)]]
    by (simp add: ijModFSInit_def Let_def)
  note d3 = bound_declared [OF b3 d2]
  have b4: "bound (map (\<lambda>(n, e). (n, misc_value e)) (ijModMiscInit (misc_env P))) ?m3 ?m4"
    unfolding misc_init_def by (rule misc_fold_bound [OF d3 core_members(2)])
  obtain m' where m': "ijModProcessInit ?m4 = Inr m'" "bound (map entry_binding ijjs_process_funcs) ?m4 m'"
    using set_list_class_bound [OF bound_declared [OF b4 d3] class_bound(2) core_members(3) tables_plain(1)]
    unfolding ijModProcessInit_def by blast
  show ?thesis using m'(1) bound_trans [OF b1 bound_trans [OF b2 bound_trans [OF b3 bound_trans [OF b4 m'(2)]]]] by auto
qed

lemma streams_bound:
  assumes "declared (core_names P) m"
  shows "bound [(''TCP'', EConstructor ijjs_tcp_class_id 1 (ijjs_tcp_class_funcs P)),
      (''TTY'', EConstructor ijjs_tty_class_id 1 (ijjs_tty_class_funcs P)), (''Pipe'', EConstructor ijjs_pipe_class_id 1 [])]
    m (ijModStreamsInit P m)"
proof -
  let ?D = "core_names P"
  have n: "''TCP'' \<in> set ?D" "''TTY'' \<in> set ?D" "''Pipe'' \<in> set ?D" using core_members(1) [of P] by auto
  note b1 = class_set_bound(1) [OF assms n(1)]
  note b2 = class_set_bound(1) [OF bound_declared [OF b1 assms] n(2)]
  note b3 = class_set_bound(1) [OF bound_declared [OF b2 bound_declared [OF b1 assms]] n(3)]
  show ?thesis unfolding ijModStreamsInit_def Let_def using bound_trans [OF b1 bound_trans [OF b2 b3]] by simp
qed

lemma init_last_bound:
  assumes "declared (core_names P) m" "ijModLogInit L w = Inr w'"
  shows "\<exists>m'. bindE (log_init L (ijModXhrInit (ijModWorkerInit (ijModWasmInit (ijModUdpInit P m))), w)) (\<lambda>(m, w).
      Inr (ijModKcpInit P m, w)) = Inr (m', w') \<and>
    bound [(''UDP'', EConstructor ijjs_udp_class_id 1 (udp_class_funcs P)), (''wasm'', EObject (cfuncs ijjs_wasm_funcs)),
      (''Worker'', EConstructor ijjs_worker_class_id 1 []),
      (''XMLHttpRequest'', EConstructor ijjs_xhr_class_id 1 ijjs_xhr_class_funcs),
      (''log'', EObject (cfuncs ijjs_log_proto_funcs)), (''KCP'', EConstructor ijjs_kcp_class_id 2 (udp_class_funcs P))] m m'"
proof -
  let ?D = "core_names P"
  have n: "''UDP'' \<in> set ?D" "''wasm'' \<in> set ?D" "''Worker'' \<in> set ?D" "''XMLHttpRequest'' \<in> set ?D" "''log'' \<in> set ?D" "''KCP'' \<in> set ?D"
    using core_members(1) [of P] by auto
  let ?m1 = "ijModUdpInit P m" let ?m2 = "ijModWasmInit ?m1" let ?m3 = "ijModWorkerInit ?m2" let ?m4 = "ijModXhrInit ?m3"
  let ?m5 = "JS_SetModuleExport ''log'' (EObject (cfuncs ijjs_log_proto_funcs))
    (JS_NewClass ijjs_log_class_id \<lparr>class_name = ''log'', has_mark = False\<rparr> ?m4)"
  let ?m6 = "ijModKcpInit P ?m5"
  have b1: "bound [(''UDP'', EConstructor ijjs_udp_class_id 1 (udp_class_funcs P))] m ?m1"
    unfolding ijModUdpInit_def by (rule class_set_bound(1) [OF assms(1) n(1)])
  note d1 = bound_declared [OF b1 assms(1)]
  have b2: "bound [(''wasm'', EObject (cfuncs ijjs_wasm_funcs))] ?m1 ?m2"
  proof -
    have c: "bound [] ?m1 (JS_SetClassProto ijjs_wasm_module_class_id None
        (JS_NewClass ijjs_wasm_module_class_id \<lparr>class_name = ''Module'', has_mark = False\<rparr> ?m1))"
      using bound_trans [OF class_bound(1) class_bound(3)] by simp
    show ?thesis unfolding ijModWasmInit_def Let_def
      using bound_trans [OF c class_set_bound(1) [OF bound_declared [OF c d1] n(2)]] by simp
  qed
  note d2 = bound_declared [OF b2 d1]
  have b3: "bound [(''Worker'', EConstructor ijjs_worker_class_id 1 [])] ?m2 ?m3"
    unfolding ijModWorkerInit_def by (rule class_set_bound(1) [OF d2 n(3)])
  note d3 = bound_declared [OF b3 d2]
  have b4: "bound [(''XMLHttpRequest'', EConstructor ijjs_xhr_class_id 1 ijjs_xhr_class_funcs)] ?m3 ?m4"
    unfolding ijModXhrInit_def by (rule class_set_bound(1) [OF d3 n(4)])
  note d4 = bound_declared [OF b4 d3]
  have b5: "bound [(''log'', EObject (cfuncs ijjs_log_proto_funcs))] ?m4 ?m5" by (rule class_set_bound(2) [OF d4 n(5)])
  have b6: "bound [(''KCP'', EConstructor ijjs_kcp_class_id 2 (udp_class_funcs P))] ?m5 ?m6"
    unfolding ijModKcpInit_def by (rule class_set_bound(1) [OF bound_declared [OF b5 d4] n(6)])
  show ?thesis
    using bound_trans [OF b1 bound_trans [OF b2 bound_trans [OF b3 bound_trans [OF b4 bound_trans [OF b5 b6]]]]] assms(2)
    by (auto simp: log_init_def)
qed

lemma set_keeps_classes [simp]:
  "class_defs (JS_SetModuleExport n v m) = class_defs m" "class_protos (JS_SetModuleExport n v m) = class_protos m"
  by (simp_all add: JS_SetModuleExport_def)

lemma set_list_keeps_classes:
  "JS_SetModuleExportList es m = Inr m' \<Longrightarrow> class_defs m' = class_defs m \<and> class_protos m' = class_protos m"
proof (induction es arbitrary: m)
  case (Cons e es)
  then obtain v where v: "entry_value e = Inr v" by (cases "entry_value e") simp_all
  show ?case
  proof (cases "lost (JS_SetModuleExport (entry_name e) v m) \<noteq> lost m")
    case True
    then have "m' = JS_SetModuleExport (entry_name e) v m" using Cons.prems v by (simp add: Let_def)
    then show ?thesis by simp
  next
    case False
    then have "JS_SetModuleExportList es (JS_SetModuleExport (entry_name e) v m) = Inr m'" using Cons.prems v by (simp add: Let_def)
    from Cons.IH [OF this] show ?thesis by simp
  qed
qed simp

lemma misc_init_keeps_classes [simp]:
  "class_defs (misc_init P m) = class_defs m" "class_protos (misc_init P m) = class_protos m"
proof -
  have "class_defs (fold (\<lambda>(n, e). JS_SetModuleExport n (misc_value e)) kes m) = class_defs m \<and>
    class_protos (fold (\<lambda>(n, e). JS_SetModuleExport n (misc_value e)) kes m) = class_protos m" for kes
    by (induction kes arbitrary: m) (auto split: prod.splits)
  then show "class_defs (misc_init P m) = class_defs m" "class_protos (misc_init P m) = class_protos m"
    by (simp_all add: misc_init_def)
qed

lemma add_keeps_classes:
  "class_defs (JS_AddModuleExport n m) = class_defs m" "class_protos (JS_AddModuleExport n m) = class_protos m"
  by (simp_all add: JS_AddModuleExport_def)

lemma add_list_keeps_classes:
  "class_defs (JS_AddModuleExportList es m) = class_defs m" "class_protos (JS_AddModuleExportList es m) = class_protos m"
  by (induction es arbitrary: m) (simp_all add: Let_def add_keeps_classes)

lemma fold_add_keeps_classes:
  "class_defs (fold JS_AddModuleExport ns m) = class_defs m" "class_protos (fold JS_AddModuleExport ns m) = class_protos m"
  by (induction ns arbitrary: m) (simp_all add: add_keeps_classes)

lemma declaring_registers_nothing:
  "class_defs (ijInitModuleUV P new_core) = []" "class_protos (ijInitModuleUV P new_core) = []"
  by (simp_all add: ijInitModuleUV_def Let_def ijModDNSExport_def ijModErrorExport_def ijModFSExport_def misc_export_def
      ijModProcessExport_def ijModStdExport_def ijModStreamsExport_def ijModSignalsExport_def ijModTimersExport_def
      ijModUdpExport_def ijModWasmExport_def ijModWorkerExport_def ijModXhrExport_def ijModLogExport_def ijModKcpExport_def
      add_keeps_classes add_list_keeps_classes fold_add_keeps_classes new_core_def)

lemmas class_ids = ijjs_file_class_id_def ijjs_dir_class_id_def ijjs_process_class_id_def ijjs_signal_handler_class_id_def
  ijjs_tcp_class_id_def ijjs_tty_class_id_def ijjs_pipe_class_id_def ijjs_timer_class_id_def ijjs_udp_class_id_def
  ijjs_wasm_module_class_id_def ijjs_wasm_instance_class_id_def ijjs_worker_class_id_def ijjs_xhr_class_id_def
  ijjs_log_class_id_def ijjs_kcp_class_id_def

text \<open>The prototype of every class whose objects the exports construct.\<close>

definition core_protos :: "(nat \<times> entry list) list" where
  "core_protos = [(ijjs_file_class_id, ijjs_file_proto_funcs), (ijjs_dir_class_id, ijjs_dir_proto_funcs),
     (ijjs_process_class_id, ijjs_process_proto_funcs), (ijjs_signal_handler_class_id, ijjs_signal_handler_proto_funcs),
     (ijjs_tcp_class_id, cfuncs ijjs_tcp_proto_funcs @ [tag ''TCP'']), (ijjs_tty_class_id, cfuncs ijjs_tty_proto_funcs @ [tag ''TTY'']),
     (ijjs_pipe_class_id, cfuncs ijjs_pipe_proto_funcs @ [tag ''Pipe'']), (ijjs_udp_class_id, cfuncs ijjs_udp_proto_funcs @ [tag ''UDP'']),
     (ijjs_wasm_instance_class_id, cfuncs ijjs_wasm_instance_funcs), (ijjs_worker_class_id, ijjs_worker_proto_funcs),
     (ijjs_xhr_class_id, ijjs_xhr_proto_funcs), (ijjs_kcp_class_id, cfuncs ijjs_kcp_proto_funcs @ [tag ''KCP''])]"

definition classes_of :: "core \<Rightarrow> nat list" where
  "classes_of m = map fst (class_defs m)"

lemma new_class_classes:
  "i \<notin> set (classes_of m) \<Longrightarrow> classes_of (JS_NewClass i d m) = classes_of m @ [i]"
  "class_protos (JS_NewClass i d m) = class_protos m" "classes_of (JS_SetClassProto i q m) = classes_of m"
  "i \<notin> fst ` set (class_protos m) \<Longrightarrow> class_protos (JS_SetClassProto i q m) = class_protos m @ [(i, q)]"
  "classes_of (JS_SetModuleExport n v m) = classes_of m" "classes_of (misc_init P m) = classes_of m"
proof -
  show "class_protos (JS_SetClassProto i q m) = class_protos m @ [(i, q)]" if "i \<notin> fst ` set (class_protos m)"
    using that by (force simp: JS_SetClassProto_def filter_id_conv)
qed (simp_all add: JS_NewClass_def JS_SetClassProto_def classes_of_def)

lemma set_list_classes:
  "JS_SetModuleExportList es m = Inr m' \<Longrightarrow> classes_of m' = classes_of m"
  "JS_SetModuleExportList es m = Inr m' \<Longrightarrow> class_protos m' = class_protos m"
  by (simp_all add: classes_of_def set_list_keeps_classes)

lemma classes_registered:
  assumes "ijInit P L (m, w) = Inr (m', w')" "class_defs m = []" "class_protos m = []"
  shows "classes_of m' = [ijjs_file_class_id, ijjs_dir_class_id, ijjs_process_class_id, ijjs_signal_handler_class_id,
      ijjs_tcp_class_id, ijjs_tty_class_id, ijjs_pipe_class_id, ijjs_timer_class_id, ijjs_udp_class_id, ijjs_wasm_module_class_id,
      ijjs_wasm_instance_class_id, ijjs_worker_class_id, ijjs_xhr_class_id, ijjs_log_class_id, ijjs_kcp_class_id] \<and>
    filter (\<lambda>(i, p). p \<noteq> None) (class_protos m') = map (\<lambda>(i, p). (i, Some p)) core_protos"
proof -
  define m0 where "m0 = misc_init P (ijModFSInit P (ijModErrorInit P (ijModDNSInit P m)))"
  obtain m1 m2 m3 m4 x where m: "ijModProcessInit m0 = Inr m1" "ijModSignalsInit P m1 = Inr m2" "ijModStdInit m2 = Inr m3"
    "ijModTimersInit (ijModStreamsInit P m3) = Inr m4" and x: "log_init L (ijModXhrInit (ijModWorkerInit (ijModWasmInit (ijModUdpInit P m4))), w) = Inr x"
      "(case x of (m, w) \<Rightarrow> Inr (ijModKcpInit P m, w)) = (Inr (m', w') :: _ res)"
    using assms(1) unfolding ijInit_def m0_def [symmetric] prod.case bindE_Inr_iff by (elim exE conjE) (rule that)
  note simps = new_class_classes new_class_def class_ids
  have nil: "classes_of m = []" using assms(2) by (simp add: classes_of_def)
  have 0: "classes_of m0 = [51, 52]" "class_protos m0 = [(51, Some ijjs_file_proto_funcs), (52, Some ijjs_dir_proto_funcs)]"
    by (simp_all add: m0_def ijModFSInit_def ijModErrorInit_def ijModDNSInit_def Let_def simps nil assms(3))
  have 1: "classes_of m1 = [51, 52, 41]" "class_protos m1 = class_protos m0 @ [(41, Some ijjs_process_proto_funcs)]"
    using set_list_classes [OF m(1) [unfolded ijModProcessInit_def]] by (simp_all add: simps 0)
  have 2: "classes_of m2 = [51, 52, 41, 12]" "class_protos m2 = class_protos m1 @ [(12, Some ijjs_signal_handler_proto_funcs)]"
    using set_list_classes [OF m(2) [unfolded ijModSignalsInit_def]] by (simp_all add: simps 1 0(2))
  note 3 = set_list_classes [OF m(3) [unfolded ijModStdInit_def]]
  have 4: "classes_of m4 = classes_of m3 @ [21, 22, 23, 11]" "class_protos m4 = class_protos m3 @
      [(21, Some (cfuncs ijjs_tcp_proto_funcs @ [tag ''TCP''])), (22, Some (cfuncs ijjs_tty_proto_funcs @ [tag ''TTY''])),
       (23, Some (cfuncs ijjs_pipe_proto_funcs @ [tag ''Pipe'']))]"
    using set_list_classes [OF m(4) [unfolded ijModTimersInit_def]] by (simp_all add: ijModStreamsInit_def Let_def simps 0(2) 1(2) 2 3)
  have 5: "m' = ijModKcpInit P (JS_SetModuleExport ''log'' (EObject (cfuncs ijjs_log_proto_funcs)) (JS_NewClass ijjs_log_class_id
      \<lparr>class_name = ''log'', has_mark = False\<rparr> (ijModXhrInit (ijModWorkerInit (ijModWasmInit (ijModUdpInit P m4))))))"
    using x by (auto simp: log_init_def bindE_Inr_iff)
  show ?thesis unfolding 5
    by (simp add: ijModKcpInit_def ijModXhrInit_def ijModWorkerInit_def ijModWasmInit_def ijModUdpInit_def Let_def core_protos_def
        simps 0(2) 1(2) 2 3 4)
qed

fun is_constructor :: "export_value \<Rightarrow> bool" where
  "is_constructor (EConstructor i l t) = True"
| "is_constructor v = False"

lemma tables_no_constructor:
  "filter (\<lambda>b. is_constructor (snd b)) (map entry_binding es) = []"
  "filter (\<lambda>b. is_constructor (snd b)) (map (\<lambda>(n, e). (n, misc_value e)) kes) = []"
proof -
  have "\<not> is_constructor (snd (entry_binding e))" for e by (cases e) (simp_all add: entry_binding_def)
  then show "filter (\<lambda>b. is_constructor (snd b)) (map entry_binding es) = []" by simp
  have "\<not> is_constructor (misc_value e)" for e by (cases e) simp_all
  then show "filter (\<lambda>b. is_constructor (snd b)) (map (\<lambda>(n, e). (n, misc_value e)) kes) = []" by (simp add: filter_empty_conv split_def)
qed

lemma core_constructors:
  "filter (\<lambda>b. is_constructor (snd b)) (core_bindings P) =
     [(''Error'', EConstructor 0 1 (ijjs_error_funcs P)), (''TCP'', EConstructor ijjs_tcp_class_id 1 (ijjs_tcp_class_funcs P)),
      (''TTY'', EConstructor ijjs_tty_class_id 1 (ijjs_tty_class_funcs P)), (''Pipe'', EConstructor ijjs_pipe_class_id 1 []),
      (''UDP'', EConstructor ijjs_udp_class_id 1 (udp_class_funcs P)), (''Worker'', EConstructor ijjs_worker_class_id 1 []),
      (''XMLHttpRequest'', EConstructor ijjs_xhr_class_id 1 ijjs_xhr_class_funcs),
      (''KCP'', EConstructor ijjs_kcp_class_id 2 (udp_class_funcs P))]"
  unfolding core_bindings_def filter_append tables_no_constructor by simp

lemma constructor_has_proto:
  assumes "(n, EConstructor i l t) \<in> set (core_bindings P)" "n \<noteq> ''Error''"
  shows "i \<in> fst ` set core_protos"
proof -
  have "(n, EConstructor i l t) \<in> set (filter (\<lambda>b. is_constructor (snd b)) (core_bindings P))" using assms(1) by simp
  then have "i \<in> {ijjs_tcp_class_id, ijjs_tty_class_id, ijjs_pipe_class_id, ijjs_udp_class_id, ijjs_worker_class_id,
      ijjs_xhr_class_id, ijjs_kcp_class_id}"
    using assms(2) unfolding core_constructors by (simp only: list.set insert_iff prod.inject export_value.inject empty_iff) blast
  then show ?thesis by (simp add: core_protos_def) blast
qed

lemma option_case_id: "(case x of None \<Rightarrow> None | Some v \<Rightarrow> Some v) = x"
  by (cases x) simp_all

lemma set_all_exports:
  assumes "distinct (map fst bs)" "set (map fst bs) = set D"
  shows "set (fold set_in bs (map (\<lambda>n. (n, None)) D)) = (\<lambda>(n, v). (n, Some v)) ` set bs"
proof -
  have "map_of (rev bs) = map_of bs" using assms(1) by (intro map_of_inject_set [THEN iffD2]) (simp_all add: rev_map [symmetric])
  then have "set (fold set_in bs (map (\<lambda>n. (n, None)) D)) = (\<lambda>n. (n, map_of bs n)) ` fst ` set bs"
    using assms(2) unfolding fold_set_in by (simp add: option_case_id)
  also have "\<dots> = (\<lambda>(n, v). (n, Some v)) ` set bs"
    using assms(1) by (force simp: image_image)
  finally show ?thesis .
qed

definition unset :: "core \<Rightarrow> bool" where
  "unset m \<longleftrightarrow> list_all (\<lambda>x. snd x = None) (exports m)"

lemma unset_add: "unset m \<Longrightarrow> unset (JS_AddModuleExport n m)"
  by (simp add: unset_def JS_AddModuleExport_def)

lemma unset_list: "unset m \<Longrightarrow> unset (JS_AddModuleExportList es m)"
  by (induction es arbitrary: m) (simp_all add: Let_def unset_add)

lemma unset_fold: "unset m \<Longrightarrow> unset (fold JS_AddModuleExport ns m)"
  by (induction ns arbitrary: m) (simp_all add: unset_add)

lemma unset_exports: "unset m \<Longrightarrow> exports m = map (\<lambda>n. (n, None)) (map fst (exports m))"
  unfolding unset_def list_all_iff map_map by (intro map_idI [symmetric]) (auto simp: prod_eq_iff)

lemma declares_unset: "unset (ijInitModuleUV P new_core)"
proof -
  have "unset new_core" by (simp add: unset_def new_core_def)
  then show ?thesis
    unfolding ijInitModuleUV_def Let_def ijModDNSExport_def ijModErrorExport_def ijModFSExport_def misc_export_def
      ijModProcessExport_def ijModStdExport_def ijModStreamsExport_def ijModSignalsExport_def ijModTimersExport_def
      ijModUdpExport_def ijModWasmExport_def ijModWorkerExport_def ijModXhrExport_def ijModLogExport_def ijModKcpExport_def
    by (intro unset_add unset_list unset_fold)
qed

lemma init_bound:
  assumes "declared (core_names P) m" "ijModLogInit L w = Inr w'"
  shows "\<exists>m'. ijInit P L (m, w) = Inr (m', w') \<and> bound (core_bindings P) m m'"
proof -
  obtain m1 where m1: "ijModProcessInit (misc_init P (ijModFSInit P (ijModErrorInit P (ijModDNSInit P m)))) = Inr m1"
    and b1: "bound ([(''dns'', EObject (ijjs_dns_funcs P)), (''Error'', EConstructor 0 1 (ijjs_error_funcs P)), (''fs'', EObject (ijjs_fs_funcs P))] @
      map (\<lambda>(n, e). (n, misc_value e)) (ijModMiscInit (misc_env P)) @ map entry_binding ijjs_process_funcs) m m1"
    using init_first_bound [OF assms(1)] by (elim exE conjE) (rule that)
  note d1 = bound_declared [OF b1 assms(1)]
  obtain m2 where m2: "ijModSignalsInit P m1 = Inr m2" and b2: "bound (map entry_binding (ijjs_signal_funcs P)) m1 m2"
    using set_list_class_bound [OF d1 class_bound(2) [where i = ijjs_signal_handler_class_id and n = "''SignalHandler''" and k = True
        and p = ijjs_signal_handler_proto_funcs] core_members(4) tables_plain(2)] unfolding ijModSignalsInit_def [symmetric] by (elim exE conjE) (rule that)
  note d2 = bound_declared [OF b2 d1]
  obtain m3 where m3: "ijModStdInit m2 = Inr m3" and b3: "bound (map entry_binding ijjs_std_funcs) m2 m3"
    using set_list_bound [OF d2 core_members(5) tables_plain(3)] unfolding ijModStdInit_def [symmetric] by (elim exE conjE) (rule that)
  note d3 = bound_declared [OF b3 d2]
  note b4 = streams_bound [OF d3]
  note d4 = bound_declared [OF b4 d3]
  obtain m5 where m5: "ijModTimersInit (ijModStreamsInit P m3) = Inr m5" and b5: "bound (map entry_binding ijjs_timer_funcs) (ijModStreamsInit P m3) m5"
    using set_list_class_bound [OF d4 class_bound(1) [where i = ijjs_timer_class_id and d = "\<lparr>class_name = ''Timer'', has_mark = True\<rparr>"] core_members(6) tables_plain(4)] unfolding ijModTimersInit_def [symmetric] by (elim exE conjE) (rule that)
  note d5 = bound_declared [OF b5 d4]
  from init_last_bound [OF d5 assms(2)] bound_trans [OF b1 bound_trans [OF b2 bound_trans [OF b3 bound_trans [OF b4 b5]]]]
  show ?thesis
    unfolding ijInit_def prod.case m1 m2 m3 m5 bindE_simps core_bindings_def
    by (elim exE conjE, intro exI conjI) (assumption, drule (1) bound_trans, simp only: append_assoc)
qed

text \<open>C9. The native module is well typed. Every name that the declaring pass announces is announced once and,
  when the initialising pass has run, is bound to a value of the kind its component's table gives it; nothing is set
  that was not declared, and every exported constructor makes objects of a class that is registered and has a prototype.\<close>

theorem core_exports_typed:
  assumes "ijModLogInit L w = Inr w'"
  shows "\<exists>m. ijInit P L (ijInitModuleUV P new_core, w) = Inr (m, w') \<and> rejected m = [] \<and> lost m = [] \<and>
    map fst (exports m) = core_names P \<and> distinct (core_names P) \<and>
    set (exports m) = (\<lambda>(n, v). (n, Some v)) ` set (core_bindings P) \<and>
    (\<forall>n i l t. (n, Some (EConstructor i l t)) \<in> set (exports m) \<longrightarrow> n \<noteq> ''Error'' \<longrightarrow>
       i \<in> set (classes_of m) \<and> (\<exists>p. (i, Some p) \<in> set (class_protos m)))"
proof -
  let ?m = "ijInitModuleUV P new_core"
  obtain m where m: "ijInit P L (?m, w) = Inr (m, w')" and b: "bound (core_bindings P) ?m m"
    using init_bound [OF declares [of P] assms] by (elim exE conjE) (rule that)
  have d: "declared (core_names P) m" by (rule bound_declared [OF b declares])
  have e: "set (exports m) = (\<lambda>(n, v). (n, Some v)) ` set (core_bindings P)"
    using set_all_exports [OF core_bindings_distinct core_bindings_names, of P] b declares [of P] unset_exports [OF declares_unset, of P]
    by (simp add: bound_def declared_def)
  have c: "i \<in> set (classes_of m) \<and> (\<exists>p. (i, Some p) \<in> set (class_protos m))"
    if x: "(n, Some (EConstructor i l t)) \<in> set (exports m)" "n \<noteq> ''Error''" for n i l t
  proof -
    have "(n, EConstructor i l t) \<in> set (core_bindings P)" using x(1) unfolding e by auto
    from constructor_has_proto [OF this x(2)] obtain p where p: "(i, p) \<in> set core_protos" by auto
    note reg = classes_registered [OF m declaring_registers_nothing]
    have "(i, Some p) \<in> set (filter (\<lambda>(i, p). p \<noteq> None) (class_protos m))" using p reg by force
    moreover have "fst ` set core_protos \<subseteq> set (classes_of m)" using reg by (simp add: core_protos_def)
    ultimately show ?thesis using p by force
  qed
  show ?thesis using m d e c core_names_distinct unfolding declared_def by (intro exI [of _ m]) simp
qed

definition sample_platform :: platform where
  "sample_platform = \<lparr>defined = (\<lambda>n. n \<noteq> ''SIGBREAK''), sys = (\<lambda>_. 2), uv_errnos = [''EPERM'', ''ENOENT''], misc_env = plain_misc\<rparr>"

theorem core_exports_typed_witness:
  "\<exists>m w'. ijInit sample_platform plain_log (ijInitModuleUV sample_platform new_core, log_world) = Inr (m, w') \<and> lost m = [] \<and>
    map fst (exports m) = core_names sample_platform \<and> (''spawn'', Some (EFunction 2)) \<in> set (exports m)"
proof -
  from core_exports_typed [OF log_directory_beside_script_witness, of sample_platform] obtain m w' where m: "ijInit sample_platform plain_log (ijInitModuleUV sample_platform new_core, log_world) = Inr (m, w')"
    "lost m = []" "map fst (exports m) = core_names sample_platform" "set (exports m) = (\<lambda>(n, v). (n, Some v)) ` set (core_bindings sample_platform)"
    by (elim exE conjE) (rule that)
  have "(''spawn'', EFunction 2) \<in> set (core_bindings sample_platform)"
    unfolding core_bindings_def set_append by (simp add: ijjs_process_funcs_def cfuncs_def entry_binding_def)
  then show ?thesis using m by (intro exI [of _ m] exI [of _ w']) force
qed

end
