(* ===== verification/Spec2Isabelle.thy ===== *)
theory Spec2Isabelle
  imports Jobs Div128 Alloc Cli Core
begin

text \<open>
  A verification development of ijjs, a JavaScript runtime in C built on QuickJS and libuv.

  \<^item> \<open>Engine\<close> models what the sources use of QuickJS, libuv and the allocators;
  \<^item> \<open>Utils\<close> models ijerror.c and ijutils.c;
  \<^item> \<open>Lifecycle\<close> is the contract of an object wrapping a libuv handle, which
    \<open>Signals\<close>, \<open>Streams\<close>, \<open>Udp\<close> and \<open>Process\<close> implement;
  \<^item> \<open>Timers\<close> models ijtimers.c, \<open>Jobs\<close> the job loop of ijvm.c.
\<close>

end
